(* ===== verification/Connector_Prelude.thy ===== *)
theory Connector_Prelude
  imports
    Main
    "HOL-Library.Word"
    "HOL-Library.Char_ord"
    "HOL-Library.List_Lexorder"
    "HOL-Library.Sublist"
begin

text \<open>
  Shared vocabulary of the development: the parts of Rust's standard library the connector
  uses. A Rust \<open>str\<close> is its UTF-8 byte sequence, so \<open>string\<close> (a list of 8-bit
  \<open>char\<close>s) models it with \<open>len()\<close> as \<^const>\<open>length\<close> and comparison as the
  byte-lexicographic order of \<open>List_Lexorder\<close>. Fallible code returns \<open>'e + 'a\<close> with
  \<open>Inl\<close> for the error; \<open>and_then\<close> is Rust's question-mark operator. Code that also
  changes state is a function \<open>'s \<Rightarrow> ('e + 'a) \<times> 's\<close>, sequenced by \<open>step_bind\<close>.
\<close>

section \<open>Names of the model's types\<close>

type_synonym u64 = "64 word"
type_synonym u32 = "32 word"
type_synonym usize = "64 word"
type_synonym i64 = "64 word"
type_synonym bytes = string

named_theorems rust_str \<open>characterisations of the string operations\<close>
named_theorems rust_eval \<open>unfoldings that evaluate the string operations on literals\<close>
named_theorems result_simps \<open>inversion of sequenced fallible computations\<close>

section \<open>Results\<close>

definition and_then :: "'e + 'a \<Rightarrow> ('a \<Rightarrow> 'e + 'b) \<Rightarrow> 'e + 'b" where
  "and_then r f = (case r of Inl e \<Rightarrow> Inl e | Inr a \<Rightarrow> f a)"

definition map_err :: "('e \<Rightarrow> 'f) \<Rightarrow> 'e + 'a \<Rightarrow> 'f + 'a" where
  "map_err g r = (case r of Inl e \<Rightarrow> Inl (g e) | Inr a \<Rightarrow> Inr a)"

definition ok_or :: "'e \<Rightarrow> 'a option \<Rightarrow> 'e + 'a" where
  "ok_or e x = (case x of None \<Rightarrow> Inl e | Some a \<Rightarrow> Inr a)"

definition result_ok :: "'e + 'a \<Rightarrow> 'a option" where
  "result_ok r = (case r of Inl _ \<Rightarrow> None | Inr a \<Rightarrow> Some a)"

definition option_filter :: "('a \<Rightarrow> bool) \<Rightarrow> 'a option \<Rightarrow> 'a option" where
  "option_filter P x = (case x of Some a \<Rightarrow> if P a then Some a else None | None \<Rightarrow> None)"

definition unwrap_or :: "'a \<Rightarrow> 'a option \<Rightarrow> 'a" where
  "unwrap_or d x = (case x of Some a \<Rightarrow> a | None \<Rightarrow> d)"

definition is_some_and :: "('a \<Rightarrow> bool) \<Rightarrow> 'a option \<Rightarrow> bool" where
  "is_some_and P x = (case x of Some a \<Rightarrow> P a | None \<Rightarrow> False)"

fun try_map :: "('a \<Rightarrow> 'e + 'b) \<Rightarrow> 'a list \<Rightarrow> 'e + 'b list" where
  "try_map f [] = Inr []"
| "try_map f (x # xs) = and_then (f x) (\<lambda>y. and_then (try_map f xs) (\<lambda>ys. Inr (y # ys)))"

section \<open>Stateful fallible code\<close>

type_synonym ('s, 'e, 'a) step = "'s \<Rightarrow> ('e + 'a) \<times> 's"

definition step_bind :: "('s, 'e, 'a) step \<Rightarrow> ('a \<Rightarrow> ('s, 'e, 'b) step) \<Rightarrow> ('s, 'e, 'b) step" where
  "step_bind m f s = (case m s of (Inl e, s') \<Rightarrow> (Inl e, s') | (Inr a, s') \<Rightarrow> f a s')"

definition step_lift :: "'e + 'a \<Rightarrow> ('s, 'e, 'a) step" where
  "step_lift r s = (r, s)"

section \<open>Rust string operations on bytes\<close>

fun strip_prefix :: "string \<Rightarrow> string \<Rightarrow> string option" where
  "strip_prefix s [] = Some s"
| "strip_prefix [] (p # ps) = None"
| "strip_prefix (c # cs) (p # ps) = (if c = p then strip_prefix cs ps else None)"

definition starts_with :: "string \<Rightarrow> string \<Rightarrow> bool" where
  "starts_with s p = (strip_prefix s p \<noteq> None)"

definition ends_with_char :: "string \<Rightarrow> char \<Rightarrow> bool" where
  "ends_with_char s c = (case rev s of [] \<Rightarrow> False | d # _ \<Rightarrow> d = c)"

fun split_char :: "char \<Rightarrow> string \<Rightarrow> string list" where
  "split_char d [] = [[]]"
| "split_char d (c # cs) =
     (if c = d then [] # split_char d cs
      else (case split_char d cs of [] \<Rightarrow> [[c]] | seg # segs \<Rightarrow> (c # seg) # segs))"

text \<open>
  \<open>str::trim\<close> removes the characters with the Unicode property \<open>White_Space\<close> from both
  ends; \<open>ws_encodings\<close> lists their UTF-8 encodings.
\<close>

definition ws_encodings :: "bytes list" where
  "ws_encodings =
     [[CHR 0x09], [CHR 0x0A], [CHR 0x0B], [CHR 0x0C], [CHR 0x0D], [CHR 0x20],
      [CHR 0xC2, CHR 0x85], [CHR 0xC2, CHR 0xA0], [CHR 0xE1, CHR 0x9A, CHR 0x80],
      [CHR 0xE2, CHR 0x80, CHR 0x80], [CHR 0xE2, CHR 0x80, CHR 0x81],
      [CHR 0xE2, CHR 0x80, CHR 0x82], [CHR 0xE2, CHR 0x80, CHR 0x83],
      [CHR 0xE2, CHR 0x80, CHR 0x84], [CHR 0xE2, CHR 0x80, CHR 0x85],
      [CHR 0xE2, CHR 0x80, CHR 0x86], [CHR 0xE2, CHR 0x80, CHR 0x87],
      [CHR 0xE2, CHR 0x80, CHR 0x88], [CHR 0xE2, CHR 0x80, CHR 0x89],
      [CHR 0xE2, CHR 0x80, CHR 0x8A], [CHR 0xE2, CHR 0x80, CHR 0xA8],
      [CHR 0xE2, CHR 0x80, CHR 0xA9], [CHR 0xE2, CHR 0x80, CHR 0xAF],
      [CHR 0xE2, CHR 0x81, CHR 0x9F], [CHR 0xE3, CHR 0x80, CHR 0x80]]"

lemma ws_encodings_nonempty: "w \<in> set ws_encodings \<Longrightarrow> w \<noteq> []"
  by (auto simp: ws_encodings_def)

function trim_start :: "string \<Rightarrow> string" where
  "trim_start s = (case find (\<lambda>w. prefix w s) ws_encodings of
     None \<Rightarrow> s | Some w \<Rightarrow> trim_start (drop (length w) s))"
  by pat_completeness auto
termination
proof (relation "measure length", simp)
  fix s w
  assume "find (\<lambda>w. prefix w s) ws_encodings = Some w"
  then have "w \<in> set ws_encodings" and "prefix w s"
    by (auto simp: find_Some_iff)
  then show "(drop (length w) s, s) \<in> measure length"
    using ws_encodings_nonempty [of w] by (auto simp: prefix_def)
qed

function trim_end :: "string \<Rightarrow> string" where
  "trim_end s = (case find (\<lambda>w. suffix w s) ws_encodings of
     None \<Rightarrow> s | Some w \<Rightarrow> trim_end (take (length s - length w) s))"
  by pat_completeness auto
termination
proof (relation "measure length", simp)
  fix s w
  assume "find (\<lambda>w. suffix w s) ws_encodings = Some w"
  then have "w \<in> set ws_encodings" and "suffix w s"
    by (auto simp: find_Some_iff)
  then show "(take (length s - length w) s, s) \<in> measure length"
    using ws_encodings_nonempty [of w] by (auto simp: suffix_def)
qed

declare trim_start.simps [simp del]
declare trim_end.simps [simp del]

definition trim :: "string \<Rightarrow> string" where
  "trim s = trim_end (trim_start s)"

definition ascii_lower :: "char \<Rightarrow> char" where
  "ascii_lower c = (let n = of_char c :: nat in if 65 \<le> n \<and> n \<le> 90 then char_of (n + 32) else c)"

definition to_ascii_lowercase :: "string \<Rightarrow> string" where
  "to_ascii_lowercase s = map ascii_lower s"

definition is_ascii_digit :: "char \<Rightarrow> bool" where
  "is_ascii_digit c = (let n = of_char c :: nat in 48 \<le> n \<and> n \<le> 57)"

definition is_ascii_hexdigit :: "char \<Rightarrow> bool" where
  "is_ascii_hexdigit c = (let n = of_char c :: nat in
     (48 \<le> n \<and> n \<le> 57) \<or> (65 \<le> n \<and> n \<le> 70) \<or> (97 \<le> n \<and> n \<le> 102))"

definition is_ascii_alphanumeric :: "char \<Rightarrow> bool" where
  "is_ascii_alphanumeric c = (let n = of_char c :: nat in
     (48 \<le> n \<and> n \<le> 57) \<or> (65 \<le> n \<and> n \<le> 90) \<or> (97 \<le> n \<and> n \<le> 122))"

section \<open>UTF-8 validity (\<open>str::from_utf8\<close>)\<close>

definition utf8_cont :: "nat \<Rightarrow> bool" where
  "utf8_cont b = (128 \<le> b \<and> b \<le> 191)"

fun utf8_ok :: "nat list \<Rightarrow> bool" where
  "utf8_ok [] = True"
| "utf8_ok (a # bs) =
     (if a < 128 then utf8_ok bs
      else case bs of
        [] \<Rightarrow> False
      | b # cs \<Rightarrow>
          if 194 \<le> a \<and> a \<le> 223 then utf8_cont b \<and> utf8_ok cs
          else (case cs of
            [] \<Rightarrow> False
          | c # ds \<Rightarrow>
              if 224 \<le> a \<and> a \<le> 239
              then (if a = 224 then 160 \<le> b \<and> b \<le> 191
                    else if a = 237 then 128 \<le> b \<and> b \<le> 159
                    else utf8_cont b) \<and> utf8_cont c \<and> utf8_ok ds
              else (case ds of
                [] \<Rightarrow> False
              | d # es \<Rightarrow>
                  240 \<le> a \<and> a \<le> 244
                  \<and> (if a = 240 then 144 \<le> b \<and> b \<le> 191
                     else if a = 244 then 128 \<le> b \<and> b \<le> 143
                     else utf8_cont b)
                  \<and> utf8_cont c \<and> utf8_cont d \<and> utf8_ok es)))"

definition utf8_valid :: "bytes \<Rightarrow> bool" where
  "utf8_valid s = utf8_ok (map of_char s)"

section \<open>Numbers as text\<close>

definition digit_char :: "nat \<Rightarrow> char" where
  "digit_char n = char_of (48 + n)"

definition hex_char :: "nat \<Rightarrow> char" where
  "hex_char n = (if n < 10 then char_of (48 + n) else char_of (87 + n))"

text \<open>\<open>to_string\<close> of an unsigned integer.\<close>

fun nat_to_string :: "nat \<Rightarrow> string" where
  "nat_to_string n =
     (if n < 10 then [digit_char n] else nat_to_string (n div 10) @ [digit_char (n mod 10)])"

declare nat_to_string.simps [simp del]

definition digits_value :: "string \<Rightarrow> nat" where
  "digits_value s = fold (\<lambda>c n. 10 * n + (of_char c - 48)) s 0"

text \<open>\<open>str::parse::<u64>\<close>: an optional leading plus sign, at least one digit, no overflow.\<close>

definition parse_u64 :: "string \<Rightarrow> u64 option" where
  "parse_u64 s =
     (let d = (case s of c # cs \<Rightarrow> if c = CHR ''+'' then cs else s | [] \<Rightarrow> s)
      in if d = [] \<or> \<not> list_all is_ascii_digit d then None
         else if digits_value d < 2 ^ 64 then Some (of_nat (digits_value d)) else None)"

text \<open>\<open>format!("{b:02x}")\<close> of every byte, concatenated.\<close>

definition hex_encode :: "8 word list \<Rightarrow> string" where
  "hex_encode bs = concat (map (\<lambda>b. [hex_char (unat b div 16), hex_char (unat b mod 16)]) bs)"

section \<open>\<open>BTreeSet\<close> of strings: ascending, without duplicates\<close>

definition btree_set :: "'a::linorder list \<Rightarrow> 'a list" where
  "btree_set xs = sort (remdups xs)"

text \<open>
  A \<open>BTreeMap\<close> that is iterated is its entries in ascending key order; \<open>btree_upd\<close> is
  the update of one entry through \<open>entry\<close>.
\<close>

fun btree_upd :: "'k::linorder \<Rightarrow> ('v option \<Rightarrow> 'v) \<Rightarrow> ('k \<times> 'v) list \<Rightarrow> ('k \<times> 'v) list" where
  "btree_upd k f [] = [(k, f None)]"
| "btree_upd k f ((k', v) # m) =
     (if k = k' then (k, f (Some v)) # m
      else if k < k' then (k, f None) # (k', v) # m
      else (k', v) # btree_upd k f m)"

text \<open>A text between single quotes, as the messages print names.\<close>

definition quoted :: "string \<Rightarrow> string" where
  "quoted s = [CHR 0x27] @ s @ [CHR 0x27]"

section \<open>Evaluation on literals\<close>

lemmas char_of_eval [rust_eval] = char_of_def bit_0

lemmas string_eval [rust_eval] =
  starts_with_def ends_with_char_def trim_def trim_start.simps trim_end.simps ws_encodings_def
  suffix_to_prefix ascii_lower_def to_ascii_lowercase_def is_ascii_digit_def is_ascii_hexdigit_def
  is_ascii_alphanumeric_def utf8_valid_def utf8_cont_def digit_char_def hex_char_def
  nat_to_string.simps digits_value_def parse_u64_def hex_encode_def btree_set_def quoted_def

section \<open>Lemmas: results and steps\<close>

lemma and_then_Inr_iff [result_simps]:
  "and_then r f = Inr b \<longleftrightarrow> (\<exists>a. r = Inr a \<and> f a = Inr b)"
  by (cases r) (simp_all add: and_then_def)

lemma and_then_Inl_iff [result_simps]:
  "and_then r f = Inl e \<longleftrightarrow> r = Inl e \<or> (\<exists>a. r = Inr a \<and> f a = Inl e)"
  by (cases r) (simp_all add: and_then_def)

lemma and_then_simps [simp]:
  "and_then (Inl e) f = Inl e"
  "and_then (Inr a) f = f a"
  by (simp_all add: and_then_def)

lemma map_err_Inr_iff [result_simps]: "map_err g r = Inr a \<longleftrightarrow> r = Inr a"
  by (cases r) (simp_all add: map_err_def)

lemma map_err_Inl_iff [result_simps]: "map_err g r = Inl e \<longleftrightarrow> (\<exists>e'. r = Inl e' \<and> e = g e')"
  by (cases r) (auto simp: map_err_def)

lemma map_err_simps [simp]:
  "map_err g (Inl e) = Inl (g e)"
  "map_err g (Inr a) = Inr a"
  by (simp_all add: map_err_def)

lemma ok_or_Inr_iff [result_simps]: "ok_or e x = Inr a \<longleftrightarrow> x = Some a"
  by (cases x) (simp_all add: ok_or_def)

lemma ok_or_Inl_iff [result_simps]: "ok_or e x = Inl e' \<longleftrightarrow> x = None \<and> e' = e"
  by (cases x) (auto simp: ok_or_def)

lemma ok_or_simps [simp]:
  "ok_or e None = Inl e"
  "ok_or e (Some a) = Inr a"
  by (simp_all add: ok_or_def)

lemma if_err_Inr_iff [result_simps]: "(if b then Inl e else r) = Inr a \<longleftrightarrow> \<not> b \<and> r = Inr a"
  by simp

lemma values_at_nonempty: "k \<in> f ` set xs \<Longrightarrow> map g (filter (\<lambda>x. f x = k) xs) \<noteq> []"
  by (auto simp: filter_empty_conv)

lemma list_all2_choice: "(\<And>x. x \<in> set xs \<Longrightarrow> \<exists>y. P x y) \<Longrightarrow> \<exists>ys. list_all2 P xs ys"
proof (induction xs)
  case (Cons x xs)
  then obtain y ys where "P x y" "list_all2 P xs ys" by force
  then have "list_all2 P (x # xs) (y # ys)" by simp
  then show ?case ..
qed auto

lemma if_Some_iff: "(if P then Some a else None) = Some b \<longleftrightarrow> P \<and> a = b"
  by simp

lemma option_filter_Some_iff [result_simps]:
  "option_filter P x = Some a \<longleftrightarrow> x = Some a \<and> P a"
  by (cases x) (auto simp: option_filter_def)

lemma option_filter_None_iff [result_simps]:
  "option_filter P x = None \<longleftrightarrow> (\<forall>a. x = Some a \<longrightarrow> \<not> P a)"
  by (cases x) (auto simp: option_filter_def)

lemma option_filter_simps [simp]:
  "option_filter P None = None"
  "option_filter P (Some a) = (if P a then Some a else None)"
  by (simp_all add: option_filter_def)

lemma unwrap_or_simps [simp]:
  "unwrap_or d None = d"
  "unwrap_or d (Some a) = a"
  by (simp_all add: unwrap_or_def)

lemma is_some_and_iff [simp]: "is_some_and P x \<longleftrightarrow> (\<exists>a. x = Some a \<and> P a)"
  by (cases x) (simp_all add: is_some_and_def)

lemma try_map_Inr_iff [result_simps]:
  "try_map f xs = Inr ys \<longleftrightarrow> list_all2 (\<lambda>x y. f x = Inr y) xs ys"
proof (induction xs arbitrary: ys)
  case Nil
  then show ?case by auto
next
  case (Cons x xs)
  then show ?case by (cases ys) (auto simp: and_then_Inr_iff)
qed

lemma step_bind_Inr_iff [result_simps]:
  "step_bind m f s = (Inr b, t) \<longleftrightarrow> (\<exists>a s'. m s = (Inr a, s') \<and> f a s' = (Inr b, t))"
  by (auto simp: step_bind_def split: prod.splits sum.splits)

lemma step_bind_Inl_iff [result_simps]:
  "step_bind m f s = (Inl e, t) \<longleftrightarrow>
     m s = (Inl e, t) \<or> (\<exists>a s'. m s = (Inr a, s') \<and> f a s' = (Inl e, t))"
  by (auto simp: step_bind_def split: prod.splits sum.splits)

lemma step_bind_ok: "m s = (Inr a, s') \<Longrightarrow> step_bind m f s = f a s'"
  by (simp add: step_bind_def)

lemma step_bind_err: "m s = (Inl e, s') \<Longrightarrow> step_bind m f s = (Inl e, s')"
  by (simp add: step_bind_def)

lemma step_lift_iff [result_simps]: "step_lift r s = (r', t) \<longleftrightarrow> r = r' \<and> t = s"
  by (auto simp: step_lift_def)

lemma step_bind_lift [simp]:
  "step_bind (step_lift (Inr a)) f = f a"
  "step_bind (step_lift (Inl e)) f = step_lift (Inl e)"
  by (auto simp: step_bind_def step_lift_def)

section \<open>Lemmas: prefixes, suffixes and segments\<close>

lemma strip_prefix_Some_iff [rust_str]: "strip_prefix s p = Some r \<longleftrightarrow> s = p @ r"
  by (induction s p rule: strip_prefix.induct) auto

lemma strip_prefix_None_iff [rust_str]: "strip_prefix s p = None \<longleftrightarrow> \<not> prefix p s"
  by (auto simp: prefix_def strip_prefix_Some_iff [symmetric])

lemma strip_prefix_append [simp]: "strip_prefix (p @ r) p = Some r"
  by (simp add: strip_prefix_Some_iff)

lemma starts_with_iff [rust_str]: "starts_with s p \<longleftrightarrow> prefix p s"
  by (simp add: starts_with_def strip_prefix_None_iff)

lemma ends_with_char_iff [rust_str]: "ends_with_char s c \<longleftrightarrow> s \<noteq> [] \<and> last s = c"
  by (cases s rule: rev_cases) (simp_all add: ends_with_char_def)

lemma split_char_not_Nil [simp]: "split_char d s \<noteq> []"
  by (induction s) (auto split: list.splits)

lemma Nil_neq_split_char [simp]: "[] \<noteq> split_char d s"
  using split_char_not_Nil [of d s] by metis

lemma split_char_no_sep: "d \<notin> set s \<Longrightarrow> split_char d s = [s]"
  by (induction s) auto

lemma split_char_append_sep:
  "split_char d (xs @ d # ys) = split_char d xs @ split_char d ys"
  by (induction xs) (auto split: list.splits)

lemma split_char_append_no_sep:
  "d \<notin> set xs \<Longrightarrow>
     split_char d (xs @ ys) = (xs @ hd (split_char d ys)) # tl (split_char d ys)"
proof (induction xs)
  case Nil
  then show ?case by (cases "split_char d ys") auto
next
  case (Cons x xs)
  then show ?case by auto
qed

lemma split_char_Cons_takeWhile:
  "split_char d s = takeWhile (\<lambda>c. c \<noteq> d) s # tl (split_char d s)"
proof (induction s)
  case Nil
  then show ?case by simp
next
  case (Cons c cs)
  then show ?case by (cases "split_char d cs") auto
qed

lemma case_split_char:
  "(case split_char d s of [] \<Rightarrow> a | seg # segs \<Rightarrow> f seg segs)
     = f (takeWhile (\<lambda>c. c \<noteq> d) s) (tl (split_char d s))"
  by (subst split_char_Cons_takeWhile) simp

lemma split_char_segments: "seg \<in> set (split_char d s) \<Longrightarrow> d \<notin> set seg"
proof (induction s arbitrary: seg)
  case Nil
  then show ?case by simp
next
  case (Cons c cs)
  then show ?case
    by (cases "split_char d cs") (auto split: if_splits)
qed

lemma length_split_char: "length (split_char d s) = Suc (count_list s d)"
  by (induction s) (auto split: list.splits)

lemma split_char_inject: "split_char d s = split_char d t \<Longrightarrow> s = t"
proof (induction s arbitrary: t)
  case Nil
  then show ?case
    by (cases t) (auto split: if_splits list.splits)
next
  case (Cons c cs)
  from Cons.prems show ?case
  proof (cases t)
    case Nil
    with Cons.prems show ?thesis by (auto split: if_splits list.splits)
  next
    case (Cons c' cs')
    with Cons.prems Cons.IH [of cs'] show ?thesis
      by (cases "split_char d cs"; cases "split_char d cs'") (auto split: if_splits)
  qed
qed

section \<open>Lemmas: trimming\<close>

definition ws_free :: "string \<Rightarrow> bool" where
  "ws_free s = (\<forall>w \<in> set ws_encodings. \<not> prefix w s \<and> \<not> suffix w s)"

lemma trim_start_stop: "find (\<lambda>w. prefix w s) ws_encodings = None \<Longrightarrow> trim_start s = s"
  by (subst trim_start.simps) simp

lemma trim_end_stop: "find (\<lambda>w. suffix w s) ws_encodings = None \<Longrightarrow> trim_end s = s"
  by (subst trim_end.simps) simp

lemma set_trim_start: "set (trim_start s) \<subseteq> set s"
proof (induction s rule: trim_start.induct)
  case (1 s)
  show ?case
  proof (cases "find (\<lambda>w. prefix w s) ws_encodings")
    case (Some w)
    with 1 have "set (trim_start (drop (length w) s)) \<subseteq> set (drop (length w) s)" by simp
    with Some show ?thesis by (subst trim_start.simps) (simp, meson order_trans set_drop_subset)
  qed (simp add: trim_start_stop)
qed

lemma set_trim_end: "set (trim_end s) \<subseteq> set s"
proof (induction s rule: trim_end.induct)
  case (1 s)
  show ?case
  proof (cases "find (\<lambda>w. suffix w s) ws_encodings")
    case (Some w)
    with 1 have "set (trim_end (take (length s - length w) s)) \<subseteq> set (take (length s - length w) s)" by simp
    with Some show ?thesis by (subst trim_end.simps) (simp, meson order_trans set_take_subset)
  qed (simp add: trim_end_stop)
qed

lemma set_trim: "set (trim s) \<subseteq> set s"
  unfolding trim_def using set_trim_end set_trim_start by (rule order_trans)

lemma trim_start_no_ws: "w \<in> set ws_encodings \<Longrightarrow> \<not> prefix w (trim_start s)"
proof (induction s rule: trim_start.induct)
  case (1 s)
  then show ?case
    by (subst trim_start.simps) (auto simp: find_None_iff split: option.split)
qed

lemma trim_end_no_ws: "w \<in> set ws_encodings \<Longrightarrow> \<not> suffix w (trim_end s)"
proof (induction s rule: trim_end.induct)
  case (1 s)
  then show ?case
    by (subst trim_end.simps) (auto simp: find_None_iff split: option.split)
qed

lemma trim_start_suffix: "suffix (trim_start s) s"
proof (induction s rule: trim_start.induct)
  case (1 s)
  then show ?case
    by (subst trim_start.simps) (auto split: option.split intro: suffix_order.trans suffix_drop)
qed

lemma trim_end_prefix: "prefix (trim_end s) s"
proof (induction s rule: trim_end.induct)
  case (1 s)
  then show ?case
    by (subst trim_end.simps) (auto split: option.split intro: prefix_order.trans take_is_prefix)
qed

lemma trim_ws_free: "ws_free (trim s)"
  unfolding ws_free_def trim_def
  using trim_end_no_ws trim_start_no_ws trim_end_prefix
  by (meson prefix_order.trans)

lemma ws_free_trim: "ws_free s \<Longrightarrow> trim s = s"
  unfolding trim_def
  by (simp add: ws_free_def trim_start_stop trim_end_stop find_None_iff)

lemma trim_idem [simp]: "trim (trim s) = trim s"
  by (rule ws_free_trim) (rule trim_ws_free)

lemma trim_eq_self_iff [rust_str]: "trim s = s \<longleftrightarrow> ws_free s"
  using trim_ws_free [of s] ws_free_trim [of s] by auto

lemma trim_Nil [simp]: "trim [] = []"
  by (rule ws_free_trim) (auto simp: ws_free_def dest: ws_encodings_nonempty)

lemma trim_not_Nil: "trim s \<noteq> [] \<Longrightarrow> s \<noteq> []"
  by auto

section \<open>Lemmas: numbers as text\<close>

lemma of_char_digit_char [simp]: "n < 10 \<Longrightarrow> of_char (digit_char n) = 48 + n"
  by (simp add: digit_char_def)

lemma is_ascii_digit_digit_char [simp]: "n < 10 \<Longrightarrow> is_ascii_digit (digit_char n)"
  by (simp add: is_ascii_digit_def)

lemma nat_to_string_digits: "list_all is_ascii_digit (nat_to_string n)"
proof (induction n rule: nat_to_string.induct)
  case (1 n)
  then show ?case by (subst nat_to_string.simps) simp
qed

lemma nat_to_string_not_Nil [simp]: "nat_to_string n \<noteq> []"
  by (subst nat_to_string.simps) simp

lemma digits_value_append: "digits_value (s @ [c]) = 10 * digits_value s + (of_char c - 48)"
  by (simp add: digits_value_def)

lemma digits_value_nat_to_string [simp]: "digits_value (nat_to_string n) = n"
proof (induction n rule: nat_to_string.induct)
  case (1 n)
  show ?case
  proof (cases "n < 10")
    case True
    then show ?thesis
      by (subst nat_to_string.simps) (simp add: digits_value_def)
  next
    case False
    with 1 show ?thesis
      by (subst nat_to_string.simps) (simp add: digits_value_append)
  qed
qed

lemma nat_to_string_inject [simp]: "nat_to_string m = nat_to_string n \<longleftrightarrow> m = n"
  by (metis digits_value_nat_to_string)

lemma nat_to_string_no_char:
  "\<not> is_ascii_digit c \<Longrightarrow> c \<notin> set (nat_to_string n)"
  using nat_to_string_digits [of n] by (auto simp: list_all_iff)

theorem parse_u64_to_string [simp]: "parse_u64 (nat_to_string (unat w)) = Some w"
proof -
  have "CHR ''+'' \<notin> set (nat_to_string (unat w))"
    by (rule nat_to_string_no_char) (simp add: is_ascii_digit_def)
  then have "(case nat_to_string (unat w) of [] \<Rightarrow> nat_to_string (unat w)
      | c # cs \<Rightarrow> if c = CHR ''+'' then cs else nat_to_string (unat w)) = nat_to_string (unat w)"
    by (auto split: list.splits)
  moreover have "unat w < 2 ^ 64"
    using unsigned_less [of w] by simp
  ultimately show ?thesis
    by (simp add: parse_u64_def nat_to_string_digits Let_def)
qed

lemma hex_encode_length: "length (hex_encode bs) = 2 * length bs"
  by (induction bs) (simp_all add: hex_encode_def)

lemma hex_char_lower:
  "n < 16 \<Longrightarrow> is_ascii_hexdigit (hex_char n) \<and> ascii_lower (hex_char n) = hex_char n"
  by (auto simp: hex_char_def is_ascii_hexdigit_def ascii_lower_def Let_def)

lemma byte_nibble: "unat (b :: 8 word) div 16 < 16"
proof -
  have "unat b < 2 ^ LENGTH(8)" by (rule unsigned_less)
  then show ?thesis by simp
qed

lemma hex_encode_chars:
  "c \<in> set (hex_encode bs) \<Longrightarrow> is_ascii_hexdigit c \<and> ascii_lower c = c"
  by (induction bs) (auto simp: hex_encode_def hex_char_lower byte_nibble)

lemma to_ascii_lowercase_hex_encode [simp]: "to_ascii_lowercase (hex_encode bs) = hex_encode bs"
  unfolding to_ascii_lowercase_def by (rule map_idI) (simp add: hex_encode_chars)

section \<open>Lemmas: ordered sets\<close>

lemma set_btree_set [simp]: "set (btree_set xs) = set xs"
  by (simp add: btree_set_def)

lemma btree_set_eq_iff: "btree_set xs = btree_set ys \<longleftrightarrow> set xs = set ys"
  unfolding btree_set_def
  by (metis set_remdups set_sort sorted_list_of_set_sort_remdups)

lemma sorted_btree_set: "sorted (btree_set xs)" and distinct_btree_set: "distinct (btree_set xs)"
  by (simp_all add: btree_set_def)

lemma btree_set_Nil_iff [simp]: "btree_set xs = [] \<longleftrightarrow> xs = []"
  by (metis set_btree_set set_empty)

definition btree_inv :: "('k::linorder \<times> 'v) list \<Rightarrow> bool" where
  "btree_inv m = sorted_wrt (<) (map fst m)"

lemma btree_upd_keys: "fst ` set (btree_upd k f m) = insert k (fst ` set m)"
  by (induction k f m rule: btree_upd.induct) auto

lemma btree_inv_Nil [simp]: "btree_inv []"
  by (simp add: btree_inv_def)

lemma btree_inv_distinct: "btree_inv m \<Longrightarrow> distinct (map fst m)"
  by (simp add: btree_inv_def strict_sorted_iff)

lemma btree_inv_upd: "btree_inv m \<Longrightarrow> btree_inv (btree_upd k f m)"
proof (induction k f m rule: btree_upd.induct)
  case (1 k f)
  then show ?case by (simp add: btree_inv_def)
next
  case (2 k f k' v m)
  then show ?case
    using btree_upd_keys [of k f m] by (auto simp: btree_inv_def)
qed

lemma map_of_btree_upd:
  "btree_inv m \<Longrightarrow> map_of (btree_upd k f m) = (map_of m)(k \<mapsto> f (map_of m k))"
proof (induction k f m rule: btree_upd.induct)
  case (1 k f)
  then show ?case by simp
next
  case (2 k f k' v m)
  then have inv: "btree_inv m" by (simp add: btree_inv_def)
  have "map_of m k = None" if "k < k'"
    using 2 that by (auto simp: map_of_eq_None_iff btree_inv_def)
  with 2 inv show ?case by (auto simp: fun_eq_iff)
qed

section \<open>The interface of a map of vectors built by pushing\<close>

text \<open>
  Several structures of the connector are filled by \<open>entry(k).or_default().push(v)\<close>. What a
  lookup returns afterwards follows from two laws of the map alone.
\<close>

locale push_map =
  fixes empty :: 'm
    and push :: "'k \<Rightarrow> 'v \<Rightarrow> 'm \<Rightarrow> 'm"
    and lookup :: "'m \<Rightarrow> 'k \<Rightarrow> 'v list option"
    and inv :: "'m \<Rightarrow> bool"
  assumes inv_empty: "inv empty"
    and inv_push: "inv m \<Longrightarrow> inv (push k v m)"
    and lookup_empty: "lookup empty k = None"
    and lookup_push:
      "inv m \<Longrightarrow> lookup (push k v m) k' =
         (if k' = k then Some (unwrap_or [] (lookup m k) @ [v]) else lookup m k')"
begin

lemma inv_fold: "inv m \<Longrightarrow> inv (fold (\<lambda>(k, v). push k v) kvs m)"
  by (induction kvs arbitrary: m) (auto simp: inv_push)

lemma lookup_fold:
  "inv m \<Longrightarrow> lookup (fold (\<lambda>(k, v). push k v) kvs m) k =
     (if k \<in> fst ` set kvs
      then Some (unwrap_or [] (lookup m k) @ map snd (filter (\<lambda>kv. fst kv = k) kvs))
      else lookup m k)"
proof (induction kvs arbitrary: m)
  case Nil
  then show ?case by simp
next
  case (Cons kv kvs)
  obtain k' v where kv: "kv = (k', v)" by (cases kv)
  from Cons.prems have "inv (push k' v m)" by (rule inv_push)
  from Cons.IH [OF this] Cons.prems show ?case
    by (auto simp: kv lookup_push filter_empty_conv)
qed

lemma lookup_built:
  "lookup (fold (\<lambda>(k, v). push k v) kvs empty) k =
     (if k \<in> fst ` set kvs then Some (map snd (filter (\<lambda>kv. fst kv = k) kvs)) else None)"
  by (simp add: lookup_fold inv_empty lookup_empty)

end

definition entry_push :: "'k::linorder \<Rightarrow> 'v \<Rightarrow> ('k \<times> 'v list) list \<Rightarrow> ('k \<times> 'v list) list" where
  "entry_push k v m = btree_upd k (\<lambda>old. unwrap_or [] old @ [v]) m"

interpretation btree_push: push_map "[]" entry_push map_of btree_inv
  by unfold_locales (auto simp: entry_push_def map_of_btree_upd btree_inv_upd)

end
