(* ===== verification/Connector_Errors.thy ===== *)
theory Connector_Errors
  imports Connector_Prelude
begin

text \<open>
  The error vocabulary (\<open>src/errors.rs\<close>): the problems a request can end in, with the
  stable code, HTTP status, title and audit dimensions of each, the problem document the
  connector answers with, and the errors of start-up code.
\<close>

section \<open>Request problems\<close>

datatype connector_problem =
    ConfigInvalid
  | ClientIdentityMissing
  | ClientIdentityDenied
  | RouteDenied
  | PurposeRequired
  | PurposeDenied
  | UpstreamAuthMissing
  | UpstreamUnavailable
  | BodyTooLarge
  | RequestTimeout
  | RateLimited
  | PdpDenied string

fun problem_code :: "connector_problem \<Rightarrow> string" where
  "problem_code ConfigInvalid = ''connector.config_invalid''"
| "problem_code ClientIdentityMissing = ''connector.client_identity_missing''"
| "problem_code ClientIdentityDenied = ''connector.client_identity_denied''"
| "problem_code RouteDenied = ''connector.route_denied''"
| "problem_code PurposeRequired = ''connector.purpose_required''"
| "problem_code PurposeDenied = ''connector.purpose_denied''"
| "problem_code UpstreamAuthMissing = ''connector.upstream_auth_missing''"
| "problem_code UpstreamUnavailable = ''connector.upstream_unavailable''"
| "problem_code BodyTooLarge = ''connector.body_too_large''"
| "problem_code RequestTimeout = ''connector.request_timeout''"
| "problem_code RateLimited = ''connector.rate_limited''"
| "problem_code (PdpDenied code) = code"

fun problem_status :: "connector_problem \<Rightarrow> nat" where
  "problem_status ConfigInvalid = 500"
| "problem_status ClientIdentityMissing = 401"
| "problem_status ClientIdentityDenied = 403"
| "problem_status RouteDenied = 403"
| "problem_status PurposeRequired = 400"
| "problem_status PurposeDenied = 403"
| "problem_status UpstreamAuthMissing = 500"
| "problem_status UpstreamUnavailable = 502"
| "problem_status BodyTooLarge = 413"
| "problem_status RequestTimeout = 408"
| "problem_status RateLimited = 429"
| "problem_status (PdpDenied _) = 403"

fun problem_title :: "connector_problem \<Rightarrow> string" where
  "problem_title ConfigInvalid = ''Connector configuration is invalid''"
| "problem_title ClientIdentityMissing = ''Client identity is missing''"
| "problem_title ClientIdentityDenied = ''Client identity is denied''"
| "problem_title RouteDenied = ''Route is denied''"
| "problem_title PurposeRequired = ''Data purpose is required''"
| "problem_title PurposeDenied = ''Data purpose is denied''"
| "problem_title UpstreamAuthMissing = ''Upstream authentication is unavailable''"
| "problem_title UpstreamUnavailable = ''Upstream is unavailable''"
| "problem_title BodyTooLarge = ''Request body is too large''"
| "problem_title RequestTimeout = ''Request timed out''"
| "problem_title RateLimited = ''Request rate limit exceeded''"
| "problem_title (PdpDenied _) = ''Policy decision denied request''"

text \<open>\<open>StatusCode::is_server_error\<close>: the status is in 500..600.\<close>

definition is_server_error :: "nat \<Rightarrow> bool" where
  "is_server_error s = (500 \<le> s \<and> s < 600)"

definition audit_outcome :: "connector_problem \<Rightarrow> string" where
  "audit_outcome p = (if is_server_error (problem_status p) then ''failed'' else ''denied'')"

fun denial_stage :: "connector_problem \<Rightarrow> string option" where
  "denial_stage ConfigInvalid = None"
| "denial_stage ClientIdentityMissing = Some ''identity''"
| "denial_stage ClientIdentityDenied = Some ''identity''"
| "denial_stage RouteDenied = Some ''route''"
| "denial_stage PurposeRequired = Some ''purpose''"
| "denial_stage PurposeDenied = Some ''purpose''"
| "denial_stage (PdpDenied _) = Some ''pdp''"
| "denial_stage UpstreamAuthMissing = None"
| "denial_stage UpstreamUnavailable = None"
| "denial_stage BodyTooLarge = Some ''request_body''"
| "denial_stage RequestTimeout = Some ''request_timeout''"
| "denial_stage RateLimited = Some ''rate_limit''"

fun denial_reason :: "connector_problem \<Rightarrow> string option" where
  "denial_reason ConfigInvalid = None"
| "denial_reason ClientIdentityMissing = Some ''client_identity_missing''"
| "denial_reason ClientIdentityDenied = Some ''client_identity_denied''"
| "denial_reason RouteDenied = Some ''route_denied''"
| "denial_reason PurposeRequired = Some ''purpose_required''"
| "denial_reason PurposeDenied = Some ''purpose_denied''"
| "denial_reason (PdpDenied code) = Some code"
| "denial_reason UpstreamAuthMissing = None"
| "denial_reason UpstreamUnavailable = None"
| "denial_reason BodyTooLarge = Some ''body_too_large''"
| "denial_reason RequestTimeout = Some ''request_timeout''"
| "denial_reason RateLimited = Some ''rate_limited''"

text \<open>
  The document handed to the platform's problem renderer: type URI, title, status, detail
  and the extra members.
\<close>

record problem_document =
  pd_type :: string
  pd_title :: string
  pd_status :: nat
  pd_detail :: string
  pd_extra :: "(string \<times> string) list"

definition problem_response :: "connector_problem \<Rightarrow> problem_document" where
  "problem_response p =
     \<lparr>pd_type = ''urn:registry:problem:'' @ problem_code p,
      pd_title = problem_title p,
      pd_status = problem_status p,
      pd_detail = ''request denied by registry trust connector'',
      pd_extra = [(''code'', problem_code p)]\<rparr>"

section \<open>Start-up errors\<close>

text \<open>
  \<open>ConnectorError\<close>, its wrapped library errors by their display text; \<open>error_text\<close> is
  the derived \<open>Display\<close>.
\<close>

datatype connector_error =
    InvalidConfig string
  | IoError string
  | YamlError string
  | UrlError string
  | TlsError string
  | HttpError string
  | UpstreamError string

fun error_text :: "connector_error \<Rightarrow> string" where
  "error_text (InvalidConfig m) = m"
| "error_text (IoError m) = ''io error: '' @ m"
| "error_text (YamlError m) = ''yaml error: '' @ m"
| "error_text (UrlError m) = ''url error: '' @ m"
| "error_text (TlsError m) = ''tls error: '' @ m"
| "error_text (HttpError m) = ''http error: '' @ m"
| "error_text (UpstreamError m) = ''upstream error: '' @ m"

section \<open>Properties\<close>

fun is_pdp_denied :: "connector_problem \<Rightarrow> bool" where
  "is_pdp_denied (PdpDenied _) = True"
| "is_pdp_denied _ = False"

lemma problem_code_connector_prefix:
  "\<not> is_pdp_denied p \<Longrightarrow> starts_with (problem_code p) ''connector.''"
  by (cases p) (simp_all add: starts_with_def)

lemma problem_code_inject_connector:
  "\<not> is_pdp_denied p \<Longrightarrow> \<not> is_pdp_denied q \<Longrightarrow> problem_code p = problem_code q \<Longrightarrow> p = q"
  by (cases p; cases q; simp)

end
