(* ===== verification/Connector_Config.thy ===== *)
theory Connector_Config
  imports Connector_Prelude Connector_Errors
begin

text \<open>
  The configuration (\<open>src/config.rs\<close>): the YAML structures as records with the source's
  fields (each field carries its structure's prefix, since a field name may occur in several
  structures), their defaults, the accessors the other components use, and the cache cell a
  route carries for its policy hash. A URL of the \<open>url\<close> crate is a value of the type
  parameter \<open>'u\<close>; the crate's functions on it are arguments where they are used. The
  checks of \<open>validate_config\<close> are in the theory \<open>Connector_Validate\<close>.
\<close>

section \<open>Listener\<close>

datatype ip_addr = IpV4 "32 word" | IpV6 "128 word"

record socket_addr =
  sa_ip :: ip_addr
  sa_port :: "16 word"

datatype listen_config = ListenTcp socket_addr | ListenUnix string

text \<open>\<open>IpAddr::is_loopback\<close>: 127.0.0.0/8 and ::1.\<close>

fun ip_is_loopback :: "ip_addr \<Rightarrow> bool" where
  "ip_is_loopback (IpV4 a) = (drop_bit 24 a = 127)"
| "ip_is_loopback (IpV6 a) = (a = 1)"

fun listen_as_tcp :: "listen_config \<Rightarrow> connector_error + socket_addr" where
  "listen_as_tcp (ListenTcp addr) = Inr addr"
| "listen_as_tcp (ListenUnix _) =
     Inl (InvalidConfig ''unix socket listeners are not implemented in the MVP binary yet'')"

fun listen_is_loopback :: "listen_config \<Rightarrow> bool" where
  "listen_is_loopback (ListenTcp addr) = ip_is_loopback (sa_ip addr)"
| "listen_is_loopback (ListenUnix _) = True"

section \<open>Structures\<close>

datatype mode = Client | Server

datatype purpose_source = ClientProvided | StaticRouteDefault | DeniedMissing

record 'u client_server_config =
  cs_url :: 'u
  cs_trust_bundle :: string

record identity_files =
  if_cert :: string
  if_key :: string

record defaults_config =
  df_data_purpose :: "string option"

record audit_config =
  au_hash_secret_env :: "string option"
  au_allow_unkeyed_hashing :: bool

record limits_config =
  lm_max_body_bytes :: usize
  lm_upstream_timeout_seconds :: u64
  lm_request_timeout_seconds :: u64
  lm_tls_handshake_timeout_seconds :: u64
  lm_http1_header_read_timeout_seconds :: u64
  lm_max_concurrent_requests :: usize
  lm_max_concurrent_connections :: usize
  lm_max_requests_per_identity_per_minute :: u32
  lm_expiry_warning_days :: i64

record governed_trusted_context_config =
  tc_jurisdiction :: "string option"
  tc_asserted_assurance :: "string option"
  tc_legal_basis_ref :: "string option"
  tc_consent_ref :: "string option"
  tc_source_observed_age_seconds :: "u64 option"

record governed_route_policy_config =
  gp_permitted_purposes :: "string list"
  gp_permitted_jurisdictions :: "string list"
  gp_allowed_assurance :: "string list"
  gp_minimum_assurance :: "string option"
  gp_max_source_age_seconds :: "u64 option"
  gp_require_legal_basis :: bool
  gp_require_consent :: bool
  gp_redaction_fields :: "string list"
  gp_unsupported_odrl_terms :: "string list"
  gp_trusted_context :: governed_trusted_context_config

record trust_context_entitlement_config =
  te_client_identity :: string
  te_trusted_context :: governed_trusted_context_config

record trust_anchor_config =
  ta_ca :: string
  ta_trust_domain :: string
  ta_dns_identities :: "string list"

record client_trust_config =
  ct_allowed_identities :: "string list"
  ct_trust_anchors :: "trust_anchor_config list"
  ct_denied_certificate_fingerprints_sha256 :: "string list"
  ct_trust_context_entitlements :: "trust_context_entitlement_config list"

record 'u upstream_config =
  up_base_url :: 'u
  up_default_auth_header_env :: "string option"
  up_auth_header_name :: string
  up_auth_header_scheme :: string

text \<open>
  An HTTP method is its token (\<open>Method::as_str\<close>). The cache of a route's policy hash is
  shared mutable state behind a mutex: the record holds its address, and the cells live in a
  store that the request handlers thread (see \<open>hash_store\<close> below).
\<close>

type_synonym http_method = string
type_synonym cell_addr = nat

record route_config =
  rt_id :: string
  rt_methods :: "http_method list"
  rt_local_prefix :: "string option"
  rt_upstream_prefix :: "string option"
  rt_require_purpose :: bool
  rt_purpose_source :: "purpose_source option"
  rt_client_identity :: "string option"
  rt_client_identities :: "string list"
  rt_upstream_auth_header_env :: "string option"
  rt_forward_client_identity_header :: bool
  rt_purposes :: "string list"
  rt_governed_policy :: "governed_route_policy_config option"
  rt_allow_forward_authorization :: bool
  rt_allow_forward_cookie :: bool
  rt_policy_hash :: cell_addr

record 'u connector_config =
  cc_listen :: listen_config
  cc_server :: "'u client_server_config option"
  cc_client_identity :: "identity_files option"
  cc_defaults :: defaults_config
  cc_audit :: audit_config
  cc_limits :: limits_config
  cc_routes :: "route_config list"
  cc_server_identity :: "identity_files option"
  cc_client_trust :: "client_trust_config option"
  cc_upstream :: "'u upstream_config option"
  cc_allow_non_loopback_client_listen :: bool
  cc_allow_dns_san_identity :: bool
  cc_connector_id :: "string option"

record 'u loaded_config =
  lc_config :: "'u connector_config"
  lc_path :: string

section \<open>Defaults\<close>

definition default_max_body_bytes :: usize where
  "default_max_body_bytes = 1024 * 1024"

definition default_upstream_timeout_seconds :: u64 where
  "default_upstream_timeout_seconds = 30"

definition default_request_timeout_seconds :: u64 where
  "default_request_timeout_seconds = 30"

definition default_tls_handshake_timeout_seconds :: u64 where
  "default_tls_handshake_timeout_seconds = 10"

definition default_http1_header_read_timeout_seconds :: u64 where
  "default_http1_header_read_timeout_seconds = 10"

definition default_max_concurrent_requests :: usize where
  "default_max_concurrent_requests = 1024"

definition default_max_concurrent_connections :: usize where
  "default_max_concurrent_connections = 1024"

definition default_max_requests_per_identity_per_minute :: u32 where
  "default_max_requests_per_identity_per_minute = 600"

definition default_expiry_warning_days :: i64 where
  "default_expiry_warning_days = 30"

definition default_auth_header_name :: string where
  "default_auth_header_name = ''Authorization''"

definition default_auth_header_scheme :: string where
  "default_auth_header_scheme = ''Bearer''"

definition default_limits :: limits_config where
  "default_limits =
     \<lparr>lm_max_body_bytes = default_max_body_bytes,
      lm_upstream_timeout_seconds = default_upstream_timeout_seconds,
      lm_request_timeout_seconds = default_request_timeout_seconds,
      lm_tls_handshake_timeout_seconds = default_tls_handshake_timeout_seconds,
      lm_http1_header_read_timeout_seconds = default_http1_header_read_timeout_seconds,
      lm_max_concurrent_requests = default_max_concurrent_requests,
      lm_max_concurrent_connections = default_max_concurrent_connections,
      lm_max_requests_per_identity_per_minute = default_max_requests_per_identity_per_minute,
      lm_expiry_warning_days = default_expiry_warning_days\<rparr>"

definition default_trusted_context :: governed_trusted_context_config where
  "default_trusted_context =
     \<lparr>tc_jurisdiction = None, tc_asserted_assurance = None, tc_legal_basis_ref = None,
      tc_consent_ref = None, tc_source_observed_age_seconds = None\<rparr>"

definition default_governed_policy :: governed_route_policy_config where
  "default_governed_policy =
     \<lparr>gp_permitted_purposes = [], gp_permitted_jurisdictions = [], gp_allowed_assurance = [],
      gp_minimum_assurance = None, gp_max_source_age_seconds = None,
      gp_require_legal_basis = False, gp_require_consent = False,
      gp_redaction_fields = [], gp_unsupported_odrl_terms = [],
      gp_trusted_context = default_trusted_context\<rparr>"

section \<open>Loading\<close>

text \<open>
  \<open>load\<close>: \<open>read_to_string\<close> of the file and the YAML parser are arguments; the parser is
  the code the \<open>serde\<close> derive generates.
\<close>

definition load ::
  "(string \<Rightarrow> string + string) \<Rightarrow> (string \<Rightarrow> string + 'u connector_config) \<Rightarrow> string
   \<Rightarrow> connector_error + 'u loaded_config" where
  "load read_to_string from_str path =
     and_then (map_err IoError (read_to_string path)) (\<lambda>raw.
     and_then (map_err YamlError (from_str raw)) (\<lambda>config.
     Inr \<lparr>lc_config = config, lc_path = path\<rparr>))"

text \<open>\<open>deserialize_methods\<close>: every entry must parse as a method (\<open>parse\<close> of the \<open>http\<close> crate).\<close>

definition deserialize_methods ::
  "(string \<Rightarrow> http_method option) \<Rightarrow> string list \<Rightarrow> string + http_method list" where
  "deserialize_methods parse_method values =
     try_map (\<lambda>value. ok_or (''invalid HTTP method '' @ quoted value)
                        (parse_method value)) values"

section \<open>Accessors\<close>

definition max_body_bytes :: "'u connector_config \<Rightarrow> usize" where
  "max_body_bytes config = lm_max_body_bytes (cc_limits config)"

text \<open>A \<open>Duration\<close> or an \<open>Instant\<close> is a number of nanoseconds.\<close>

definition nanos_per_sec :: nat where
  "nanos_per_sec = 1000000000"

definition duration_from_secs :: "u64 \<Rightarrow> nat" where
  "duration_from_secs s = unat s * nanos_per_sec"

definition upstream_timeout :: "'u connector_config \<Rightarrow> nat" where
  "upstream_timeout config = duration_from_secs (lm_upstream_timeout_seconds (cc_limits config))"

definition request_timeout :: "'u connector_config \<Rightarrow> nat" where
  "request_timeout config = duration_from_secs (lm_request_timeout_seconds (cc_limits config))"

definition tls_handshake_timeout :: "'u connector_config \<Rightarrow> nat" where
  "tls_handshake_timeout config =
     duration_from_secs (lm_tls_handshake_timeout_seconds (cc_limits config))"

definition http1_header_read_timeout :: "'u connector_config \<Rightarrow> nat" where
  "http1_header_read_timeout config =
     duration_from_secs (lm_http1_header_read_timeout_seconds (cc_limits config))"

definition spiffe_trust_domain :: "string \<Rightarrow> string option" where
  "spiffe_trust_domain identity =
     option_filter (\<lambda>value. value \<noteq> [])
       (Option.bind (strip_prefix identity ''spiffe://'')
          (\<lambda>rest. case split_char CHR ''/'' rest of [] \<Rightarrow> None | seg # _ \<Rightarrow> Some seg))"

text \<open>
  The two maps from a trust domain or a DNS identity to the CA files bound to it:
  \<open>BTreeMap\<close>s filled by pushing, iterated later in key order.
\<close>

definition trust_domain_map :: "'u connector_config \<Rightarrow> (string \<times> string list) list" where
  "trust_domain_map config =
     (case cc_client_trust config of
        None \<Rightarrow> []
      | Some trust \<Rightarrow>
          fold (\<lambda>anchor out. entry_push (ta_trust_domain anchor) (ta_ca anchor) out)
            (ct_trust_anchors trust) [])"

definition dns_identity_map :: "'u connector_config \<Rightarrow> (string \<times> string list) list" where
  "dns_identity_map config =
     (case cc_client_trust config of
        None \<Rightarrow> []
      | Some trust \<Rightarrow>
          fold (\<lambda>anchor out.
                 fold (\<lambda>identity out. entry_push identity (ta_ca anchor) out)
                   (ta_dns_identities anchor) out)
            (ct_trust_anchors trust) [])"

definition dns_identity_set :: "'u connector_config \<Rightarrow> string list" where
  "dns_identity_set config = map fst (dns_identity_map config)"

section \<open>The policy hash cache\<close>

text \<open>
  \<open>PolicyHashCache::get_or_compute\<close> on the cell's content, and the store of all cells.
  \<open>Clone\<close> of the cache gives an empty cell.
\<close>

type_synonym hash_cell = "(string \<times> string) option"
type_synonym hash_store = "cell_addr \<Rightarrow> hash_cell"

definition get_or_compute :: "(string \<Rightarrow> string) \<Rightarrow> string \<Rightarrow> hash_cell \<Rightarrow> string \<times> hash_cell" where
  "get_or_compute compute material cached =
     (case cached of
        Some (cached_material, cached_hash) \<Rightarrow>
          if cached_material = material then (cached_hash, cached)
          else (let hash = compute material in (hash, Some (material, hash)))
      | None \<Rightarrow> (let hash = compute material in (hash, Some (material, hash))))"

definition policy_hash_clone :: "hash_cell \<Rightarrow> hash_cell" where
  "policy_hash_clone _ = None"

section \<open>The interface of a memo cell\<close>

text \<open>
  What the users of the cache rely on: whatever the cell holds, as long as it was filled
  through the interface, a lookup returns the value the computation would give.
\<close>

fun memo_run :: "('m \<Rightarrow> 'c \<Rightarrow> 'v \<times> 'c) \<Rightarrow> 'm list \<Rightarrow> 'c \<Rightarrow> 'v list \<times> 'c" where
  "memo_run get [] c = ([], c)"
| "memo_run get (m # ms) c =
     (let (v, c') = get m c; (vs, c'') = memo_run get ms c' in (v # vs, c''))"

locale memo_cell =
  fixes compute :: "'m \<Rightarrow> 'v"
    and get :: "'m \<Rightarrow> 'c \<Rightarrow> 'v \<times> 'c"
    and valid :: "'c \<Rightarrow> bool"
    and fresh :: 'c
  assumes valid_fresh: "valid fresh"
    and get_value: "valid c \<Longrightarrow> fst (get m c) = compute m"
    and get_valid: "valid c \<Longrightarrow> valid (snd (get m c))"
begin

lemma run_transparent:
  "valid c \<Longrightarrow> fst (memo_run get ms c) = map compute ms \<and> valid (snd (memo_run get ms c))"
proof (induction ms arbitrary: c)
  case Nil
  then show ?case by simp
next
  case (Cons m ms)
  from get_valid [OF Cons.prems] get_value [OF Cons.prems] Cons.IH [of "snd (get m c)"]
  show ?case by (simp add: split_beta Let_def)
qed

lemma run_fresh: "fst (memo_run get ms fresh) = map compute ms"
  using run_transparent [OF valid_fresh] by blast

end

definition cell_valid :: "(string \<Rightarrow> string) \<Rightarrow> hash_cell \<Rightarrow> bool" where
  "cell_valid compute cell = (case cell of None \<Rightarrow> True | Some (m, h) \<Rightarrow> h = compute m)"

interpretation policy_cache: memo_cell compute "get_or_compute compute" "cell_valid compute" None
  for compute :: "string \<Rightarrow> string"
  by unfold_locales (auto simp: cell_valid_def get_or_compute_def Let_def split: option.splits)

section \<open>Lemmas: trust maps\<close>

lemma trust_domain_map_fold:
  assumes "cc_client_trust config = Some trust"
  shows "trust_domain_map config = fold (\<lambda>(k, v). entry_push k v)
    (map (\<lambda>a. (ta_trust_domain a, ta_ca a)) (ct_trust_anchors trust)) []"
  by (simp add: trust_domain_map_def assms fold_map comp_def)

lemma dns_identity_map_fold:
  assumes "cc_client_trust config = Some trust"
  shows "dns_identity_map config = fold (\<lambda>(k, v). entry_push k v)
    (concat (map (\<lambda>a. map (\<lambda>i. (i, ta_ca a)) (ta_dns_identities a)) (ct_trust_anchors trust))) []"
proof -
  have "fold (\<lambda>anchor out. fold (\<lambda>identity out. entry_push identity (ta_ca anchor) out)
            (ta_dns_identities anchor) out) as m
      = fold (\<lambda>(k, v). entry_push k v)
          (concat (map (\<lambda>a. map (\<lambda>i. (i, ta_ca a)) (ta_dns_identities a)) as)) m" for as m
    by (induction as arbitrary: m) (simp_all add: fold_map comp_def)
  then show ?thesis by (simp add: dns_identity_map_def assms)
qed

lemma trust_maps_inv: "btree_inv (trust_domain_map config)" "btree_inv (dns_identity_map config)"
proof -
  show "btree_inv (trust_domain_map config)"
    by (cases "cc_client_trust config")
      (simp add: trust_domain_map_def, simp add: trust_domain_map_fold btree_push.inv_fold)
  show "btree_inv (dns_identity_map config)"
    by (cases "cc_client_trust config")
      (simp add: dns_identity_map_def, simp add: dns_identity_map_fold btree_push.inv_fold)
qed

lemma trust_domain_map_lookup:
  assumes "cc_client_trust config = Some trust"
  shows "map_of (trust_domain_map config) d =
    (if d \<in> ta_trust_domain ` set (ct_trust_anchors trust)
     then Some (map ta_ca (filter (\<lambda>a. ta_trust_domain a = d) (ct_trust_anchors trust)))
     else None)"
  by (auto simp: trust_domain_map_fold [OF assms] btree_push.lookup_built image_image filter_map comp_def)

lemma dns_identity_map_lookup:
  assumes "cc_client_trust config = Some trust"
  shows "map_of (dns_identity_map config) n =
    (let bound = concat (map (\<lambda>a. map (\<lambda>i. (i, ta_ca a)) (ta_dns_identities a))
                   (ct_trust_anchors trust))
     in if n \<in> fst ` set bound
        then Some (map snd (filter (\<lambda>kv. fst kv = n) bound)) else None)"
  by (simp add: dns_identity_map_fold [OF assms] btree_push.lookup_built Let_def)

lemma dns_identity_set_iff:
  assumes "cc_client_trust config = Some trust"
  shows "n \<in> set (dns_identity_set config) \<longleftrightarrow>
    (\<exists>a \<in> set (ct_trust_anchors trust). n \<in> set (ta_dns_identities a))"
proof -
  have "n \<in> set (dns_identity_set config) \<longleftrightarrow> map_of (dns_identity_map config) n \<noteq> None"
    by (simp add: dns_identity_set_def map_of_eq_None_iff)
  also have "\<dots> \<longleftrightarrow> (\<exists>a \<in> set (ct_trust_anchors trust). n \<in> set (ta_dns_identities a))"
    by (auto simp: dns_identity_map_lookup [OF assms] Let_def image_iff)
  finally show ?thesis .
qed

lemma spiffe_trust_domain_takeWhile:
  "spiffe_trust_domain identity = option_filter (\<lambda>value. value \<noteq> [])
     (map_option (takeWhile (\<lambda>c. c \<noteq> CHR ''/'')) (strip_prefix identity ''spiffe://''))"
  unfolding spiffe_trust_domain_def
  by (cases "strip_prefix identity ''spiffe://''")
    (simp_all add: case_split_char del: strip_prefix.simps)

lemma spiffe_trust_domain_iff:
  "spiffe_trust_domain identity = Some d \<longleftrightarrow>
     (\<exists>rest. identity = ''spiffe://'' @ d @ rest \<and> d \<noteq> [] \<and> CHR ''/'' \<notin> set d
        \<and> (rest = [] \<or> hd rest = CHR ''/''))"
  (is "?l \<longleftrightarrow> ?r")
proof
  assume ?l
  then obtain tail where tail: "strip_prefix identity ''spiffe://'' = Some tail"
    and d: "takeWhile (\<lambda>c. c \<noteq> CHR ''/'') tail = d" "d \<noteq> []"
    unfolding spiffe_trust_domain_takeWhile by (auto simp: option_filter_Some_iff)
  from d(1) have "CHR ''/'' \<notin> set d" by (auto dest: set_takeWhileD)
  moreover have "dropWhile (\<lambda>c. c \<noteq> CHR ''/'') tail = []
      \<or> hd (dropWhile (\<lambda>c. c \<noteq> CHR ''/'') tail) = CHR ''/''"
    using hd_dropWhile [of "\<lambda>c. c \<noteq> CHR ''/''" tail] by blast
  moreover have "tail = d @ dropWhile (\<lambda>c. c \<noteq> CHR ''/'') tail"
    using d(1) takeWhile_dropWhile_id by metis
  moreover from tail have "identity = ''spiffe://'' @ tail"
    by (simp only: strip_prefix_Some_iff)
  ultimately show ?r
    using d(2) by (intro exI [of _ "dropWhile (\<lambda>c. c \<noteq> CHR ''/'') tail"]) simp
next
  assume ?r
  then obtain rest where r: "identity = ''spiffe://'' @ d @ rest" "d \<noteq> []"
    "CHR ''/'' \<notin> set d" "rest = [] \<or> hd rest = CHR ''/''" by blast
  have "takeWhile (\<lambda>c. c \<noteq> CHR ''/'') (d @ rest) = d"
    using r(3,4) by (cases rest) (auto simp: takeWhile_append)
  with r(2) show ?l
    unfolding spiffe_trust_domain_takeWhile r(1) strip_prefix_append by simp
qed

end
