(* ===== verification/Connector_Routing.thy ===== *)
theory Connector_Routing
  imports Connector_Config
begin

text \<open>
  Routing (\<open>src/routing.rs\<close>): canonical request paths, segment-aware prefix matching, the
  prefix rewrite of the client connector and the two longest-prefix route searches. The
  percent decoder is code of the \<open>percent-encoding\<close> crate: it is the argument \<open>pd\<close>
  (\<open>percent_decode_str(path).decode_utf8()\<close>, \<^const>\<open>None\<close> for an error), and what its
  documentation promises is the predicate \<open>percent_decoder\<close>.
\<close>

section \<open>Paths\<close>

text \<open>The index loop of \<open>reject_invalid_percent_encoding\<close>.\<close>

function percent_loop :: "bytes \<Rightarrow> nat \<Rightarrow> string + unit" where
  "percent_loop bs index =
     (if index < length bs then
        if bs ! index = CHR ''%'' then
          if index + 2 \<ge> length bs
             \<or> \<not> is_ascii_hexdigit (bs ! (index + 1))
             \<or> \<not> is_ascii_hexdigit (bs ! (index + 2))
          then Inl ''path contains invalid percent-encoding''
          else percent_loop bs (index + 3)
        else percent_loop bs (index + 1)
      else Inr ())"
  by pat_completeness auto
termination
  by (relation "measure (\<lambda>(bs, index). length bs - index)") auto

declare percent_loop.simps [simp del]

definition reject_invalid_percent_encoding :: "string \<Rightarrow> string + unit" where
  "reject_invalid_percent_encoding path = percent_loop path 0"

definition reject_encoded_delimiters :: "string \<Rightarrow> string \<Rightarrow> string + unit" where
  "reject_encoded_delimiters raw decoded =
     (if CHR ''%'' \<in> set raw \<and> CHR 0x5C \<in> set decoded
      then Inl ''path contains encoded delimiter''
      else let raw_slashes = length (filter (\<lambda>byte. byte = CHR ''/'') raw);
               decoded_slashes = length (filter (\<lambda>byte. byte = CHR ''/'') decoded)
           in if decoded_slashes > raw_slashes then Inl ''path contains encoded delimiter''
              else Inr ())"

definition canonical_request_path :: "(string \<Rightarrow> string option) \<Rightarrow> string \<Rightarrow> string + string" where
  "canonical_request_path pd path =
     (if \<not> starts_with path ''/'' then Inl (''path must start with '' @ quoted ''/'')
      else
        and_then (reject_invalid_percent_encoding path) (\<lambda>_.
        and_then (ok_or ''path contains invalid percent-encoding'' (pd path)) (\<lambda>decoded.
        and_then (reject_encoded_delimiters path decoded) (\<lambda>_.
        if list_ex (\<lambda>segment. segment \<in> {''.'', ''..''}) (split_char CHR ''/'' decoded)
        then Inl ''path contains dot segment''
        else Inr decoded))))"

definition validate_request_path :: "(string \<Rightarrow> string option) \<Rightarrow> string \<Rightarrow> string + unit" where
  "validate_request_path pd path = and_then (canonical_request_path pd path) (\<lambda>_. Inr ())"

definition validate_route_prefix :: "(string \<Rightarrow> string option) \<Rightarrow> string \<Rightarrow> string + unit" where
  "validate_route_prefix pd p =
     (if p = [] then Inl ''prefix must not be empty''
      else if \<not> starts_with p ''/'' then Inl (''prefix must start with '' @ quoted ''/'')
      else validate_request_path pd p)"

definition prefix_matches :: "string \<Rightarrow> string \<Rightarrow> bool" where
  "prefix_matches path pre =
     (if path = pre then True
      else case strip_prefix path pre of
        None \<Rightarrow> False
      | Some rest \<Rightarrow> ends_with_char pre CHR ''/'' \<or> starts_with rest ''/'')"

definition rewrite_prefix :: "string \<Rightarrow> string \<Rightarrow> string \<Rightarrow> string" where
  "rewrite_prefix path local_prefix upstream_prefix =
     (let suffix = unwrap_or [] (strip_prefix path local_prefix) in
      if suffix = [] then upstream_prefix
      else if ends_with_char upstream_prefix CHR ''/'' \<or> starts_with suffix ''/''
      then upstream_prefix @ suffix
      else upstream_prefix @ ''/'' @ suffix)"

section \<open>Route search\<close>

record route_match =
  rm_route :: route_config
  rm_upstream_path :: string

text \<open>
  The comparison both loops end with: the candidate replaces the best match so far when its
  prefix is strictly longer.
\<close>

definition keep_best :: "(nat \<times> 'm) option \<Rightarrow> nat \<times> 'm \<Rightarrow> (nat \<times> 'm) option" where
  "keep_best best c =
     (if (case best of None \<Rightarrow> True | Some (best_len, _) \<Rightarrow> fst c > best_len) then Some c else best)"

fun client_route_loop ::
  "(string \<Rightarrow> string option) \<Rightarrow> http_method \<Rightarrow> string \<Rightarrow> (nat \<times> route_match) option
   \<Rightarrow> route_config list \<Rightarrow> string + (nat \<times> route_match) option" where
  "client_route_loop pd meth path best [] = Inr best"
| "client_route_loop pd meth path best (route # routes) =
     (if \<not> list_ex (\<lambda>candidate. candidate = meth) (rt_methods route)
      then client_route_loop pd meth path best routes
      else case rt_local_prefix route of
        None \<Rightarrow> client_route_loop pd meth path best routes
      | Some local_raw \<Rightarrow>
          and_then (canonical_request_path pd local_raw) (\<lambda>local_prefix.
          if \<not> prefix_matches path local_prefix
          then client_route_loop pd meth path best routes
          else
            and_then (canonical_request_path pd
                        (unwrap_or local_prefix (rt_upstream_prefix route))) (\<lambda>upstream_prefix.
            client_route_loop pd meth path
              (keep_best best (length local_prefix,
                 \<lparr>rm_route = route,
                  rm_upstream_path = rewrite_prefix path local_prefix upstream_prefix\<rparr>))
              routes)))"

definition find_client_route ::
  "(string \<Rightarrow> string option) \<Rightarrow> route_config list \<Rightarrow> http_method \<Rightarrow> string \<Rightarrow> string + route_match" where
  "find_client_route pd routes meth path =
     and_then (canonical_request_path pd path) (\<lambda>path.
     and_then (client_route_loop pd meth path None routes) (\<lambda>best.
     ok_or ''no client route matched'' (map_option snd best)))"

definition route_matches_client_identity :: "route_config \<Rightarrow> string \<Rightarrow> bool" where
  "route_matches_client_identity route client_identity =
     (let client_identity = trim client_identity in
      map_option trim (rt_client_identity route) = Some client_identity
      \<or> list_ex (\<lambda>allowed. trim allowed = client_identity) (rt_client_identities route))"

fun server_route_loop ::
  "(string \<Rightarrow> string option) \<Rightarrow> http_method \<Rightarrow> string \<Rightarrow> string \<Rightarrow> (nat \<times> route_match) option
   \<Rightarrow> route_config list \<Rightarrow> string + (nat \<times> route_match) option" where
  "server_route_loop pd meth path client_identity best [] = Inr best"
| "server_route_loop pd meth path client_identity best (route # routes) =
     (if \<not> list_ex (\<lambda>candidate. candidate = meth) (rt_methods route)
      then server_route_loop pd meth path client_identity best routes
      else if \<not> route_matches_client_identity route client_identity
      then server_route_loop pd meth path client_identity best routes
      else case rt_upstream_prefix route of
        None \<Rightarrow> server_route_loop pd meth path client_identity best routes
      | Some prefix_raw \<Rightarrow>
          and_then (canonical_request_path pd prefix_raw) (\<lambda>pre.
          if prefix_matches path pre
          then server_route_loop pd meth path client_identity
                 (keep_best best (length pre, \<lparr>rm_route = route, rm_upstream_path = path\<rparr>)) routes
          else server_route_loop pd meth path client_identity best routes))"

definition find_server_route ::
  "(string \<Rightarrow> string option) \<Rightarrow> route_config list \<Rightarrow> http_method \<Rightarrow> string \<Rightarrow> string
   \<Rightarrow> string + route_match" where
  "find_server_route pd routes meth path client_identity =
     and_then (canonical_request_path pd path) (\<lambda>path.
     and_then (server_route_loop pd meth path client_identity None routes) (\<lambda>best.
     ok_or ''no server route matched'' (map_option snd best)))"

section \<open>What the percent decoder promises\<close>

definition hex_value :: "char \<Rightarrow> nat" where
  "hex_value c = (let n = of_char c in
     if n \<le> 57 then n - 48 else if n \<le> 70 then n - 55 else n - 87)"

text \<open>
  The documented decoding: an escape of two hexadecimal digits is replaced by its byte, every
  other byte is kept; \<open>decode_utf8\<close> then fails exactly on ill-formed UTF-8.
\<close>

fun pct_bytes :: "string \<Rightarrow> bytes" where
  "pct_bytes [] = []"
| "pct_bytes [a] = [a]"
| "pct_bytes [a, b] = [a, b]"
| "pct_bytes (a # b # c # s) =
     (if a = CHR ''%'' \<and> is_ascii_hexdigit b \<and> is_ascii_hexdigit c
      then char_of (16 * hex_value b + hex_value c) # pct_bytes s
      else a # pct_bytes (b # c # s))"

definition ref_decoder :: "string \<Rightarrow> string option" where
  "ref_decoder s = (if utf8_valid (pct_bytes s) then Some (pct_bytes s) else None)"

definition percent_decoder :: "(string \<Rightarrow> string option) \<Rightarrow> bool" where
  "percent_decoder pd = (\<forall>s. pd s = (if utf8_valid (pct_bytes s) then Some (pct_bytes s) else None))"

lemma percent_decoder_ref: "percent_decoder ref_decoder"
  by (simp add: percent_decoder_def ref_decoder_def)

section \<open>Lemmas: percent decoding and segments\<close>

fun pct_wf :: "string \<Rightarrow> bool" where
  "pct_wf [] = True"
| "pct_wf (a # s) =
     (if a = CHR ''%''
      then (case s of b # c # r \<Rightarrow> is_ascii_hexdigit b \<and> is_ascii_hexdigit c \<and> pct_wf r | _ \<Rightarrow> False)
      else pct_wf s)"

lemma percent_loop_iff: "percent_loop bs i = Inr () \<longleftrightarrow> pct_wf (drop i bs)"
proof (induction bs i rule: percent_loop.induct)
  case (1 bs i)
  show ?case
  proof (cases "i < length bs")
    case False
    then show ?thesis by (simp add: percent_loop.simps [of bs i])
  next
    case True
    then have d: "drop i bs = bs ! i # drop (Suc i) bs" by (rule Cons_nth_drop_Suc [symmetric])
    show ?thesis
    proof (cases "i + 2 < length bs")
      case True
      then have "drop (Suc i) bs = bs ! (i + 1) # bs ! (i + 2) # drop (i + 3) bs"
        by (simp add: Cons_nth_drop_Suc [symmetric] numeral_2_eq_2 numeral_3_eq_3)
      with 1 d \<open>i < length bs\<close> True show ?thesis
        by (auto simp: percent_loop.simps [of bs i])
    next
      case False
      then have "length (drop (Suc i) bs) < 2" by simp
      then have "\<not> (\<exists>b c r. drop (Suc i) bs = b # c # r)"
        by (auto dest!: arg_cong [where f = length])
      with 1 d \<open>i < length bs\<close> False show ?thesis
        by (auto simp: percent_loop.simps [of bs i] split: list.splits)
    qed
  qed
qed

lemma reject_invalid_percent_encoding_iff:
  "reject_invalid_percent_encoding path = Inr () \<longleftrightarrow> pct_wf path"
  by (simp add: reject_invalid_percent_encoding_def percent_loop_iff)

lemma pct_wf_no_percent: "CHR ''%'' \<notin> set s \<Longrightarrow> pct_wf s"
  by (induction s) auto

lemma pct_bytes_Cons_other: "a \<noteq> CHR ''%'' \<Longrightarrow> pct_bytes (a # s) = a # pct_bytes s"
  by (cases s rule: pct_bytes.cases) auto

lemma pct_bytes_Cons_unescaped:
  "(\<And>b c r. s = b # c # r \<Longrightarrow> \<not> (is_ascii_hexdigit b \<and> is_ascii_hexdigit c)) \<Longrightarrow>
     pct_bytes (a # s) = a # pct_bytes s"
  by (cases s rule: pct_bytes.cases) auto

lemma pct_bytes_no_percent: "CHR ''%'' \<notin> set s \<Longrightarrow> pct_bytes s = s"
  by (induction s) (auto simp: pct_bytes_Cons_other)

lemma slash_not_hex [simp]: "\<not> is_ascii_hexdigit CHR ''/''"
  by (simp add: is_ascii_hexdigit_def)

lemma pct_bytes_slash:
  "pct_bytes (xs @ CHR ''/'' # ys) = pct_bytes xs @ CHR ''/'' # pct_bytes ys"
proof (induction xs rule: pct_bytes.induct)
  case 1
  then show ?case by (simp add: pct_bytes_Cons_other)
next
  case (2 a)
  have "pct_bytes (a # CHR ''/'' # ys) = a # pct_bytes (CHR ''/'' # ys)"
    by (rule pct_bytes_Cons_unescaped) auto
  then show ?case by (simp add: pct_bytes_Cons_other)
next
  case (3 a b)
  have "pct_bytes (a # b # CHR ''/'' # ys) = a # pct_bytes (b # CHR ''/'' # ys)"
    by (rule pct_bytes_Cons_unescaped) auto
  also have "pct_bytes (b # CHR ''/'' # ys) = b # pct_bytes (CHR ''/'' # ys)"
    by (rule pct_bytes_Cons_unescaped) auto
  finally show ?case by (simp add: pct_bytes_Cons_other)
next
  case (4 a b c s)
  then show ?case by auto
qed

fun join_segments :: "char \<Rightarrow> string list \<Rightarrow> string" where
  "join_segments d [] = []"
| "join_segments d [x] = x"
| "join_segments d (x # y # xs) = x @ d # join_segments d (y # xs)"

lemma join_segments_Cons: "xs \<noteq> [] \<Longrightarrow> join_segments d (x # xs) = x @ d # join_segments d xs"
  by (cases xs) auto

lemma join_split_char: "join_segments d (split_char d s) = s"
proof (induction s)
  case Nil
  then show ?case by simp
next
  case (Cons c cs)
  show ?case
  proof (cases "split_char d cs")
    case Nil
    then show ?thesis by simp
  next
    case (Cons seg segs)
    with Cons.IH show ?thesis by (cases segs) auto
  qed
qed

lemma split_join_segments:
  "xs \<noteq> [] \<Longrightarrow> (\<And>x. x \<in> set xs \<Longrightarrow> d \<notin> set x) \<Longrightarrow> split_char d (join_segments d xs) = xs"
  by (induction d xs rule: join_segments.induct)
    (auto simp: split_char_no_sep split_char_append_sep)

lemma count_join_segments:
  "xs \<noteq> [] \<Longrightarrow>
     Suc (count_list (join_segments d xs) d) = length xs + sum_list (map (\<lambda>x. count_list x d) xs)"
  by (induction d xs rule: join_segments.induct) auto

lemma pct_bytes_join:
  "pct_bytes (join_segments CHR ''/'' xs) = join_segments CHR ''/'' (map pct_bytes xs)"
proof (induction xs rule: induct_list012)
  case (3 x y zs)
  then show ?case by (simp add: pct_bytes_slash)
qed simp_all

lemma pct_bytes_segments:
  assumes "count_list (pct_bytes s) CHR ''/'' \<le> count_list s CHR ''/''"
  shows "split_char CHR ''/'' (pct_bytes s) = map pct_bytes (split_char CHR ''/'' s)"
proof -
  let ?segs = "split_char CHR ''/'' s"
  have join: "pct_bytes s = join_segments CHR ''/'' (map pct_bytes ?segs)"
    by (metis join_split_char pct_bytes_join)
  have "Suc (count_list (pct_bytes s) CHR ''/'')
      = length ?segs + sum_list (map (\<lambda>x. count_list (pct_bytes x) CHR ''/'') ?segs)"
    unfolding join by (subst count_join_segments) (simp_all add: comp_def)
  with assms have "sum_list (map (\<lambda>x. count_list (pct_bytes x) CHR ''/'') ?segs) = 0"
    by (simp add: length_split_char)
  then have "CHR ''/'' \<notin> set (pct_bytes x)" if "x \<in> set ?segs" for x
    using that by (auto simp: sum_list_eq_0_iff count_list_0_iff)
  then show ?thesis
    unfolding join by (subst split_join_segments) auto
qed

lemma length_filter_count_list: "length (filter (\<lambda>x. x = a) xs) = count_list xs a"
  by (induction xs) auto

lemma reject_encoded_delimiters_iff:
  "reject_encoded_delimiters raw decoded = Inr () \<longleftrightarrow>
     (CHR ''%'' \<in> set raw \<longrightarrow> CHR 0x5C \<notin> set decoded)
     \<and> count_list decoded CHR ''/'' \<le> count_list raw CHR ''/''"
  by (simp add: reject_encoded_delimiters_def Let_def length_filter_count_list not_less)

lemma canonical_request_path_iff:
  "canonical_request_path pd path = Inr decoded \<longleftrightarrow>
     prefix ''/'' path \<and> pct_wf path \<and> pd path = Some decoded
     \<and> (CHR ''%'' \<in> set path \<longrightarrow> CHR 0x5C \<notin> set decoded)
     \<and> count_list decoded CHR ''/'' \<le> count_list path CHR ''/''
     \<and> ''.'' \<notin> set (split_char CHR ''/'' decoded) \<and> ''..'' \<notin> set (split_char CHR ''/'' decoded)"
  unfolding canonical_request_path_def
  by (auto simp: result_simps starts_with_iff reject_invalid_percent_encoding_iff
      reject_encoded_delimiters_iff list_ex_iff split: if_splits)

section \<open>Lemmas: prefix matching\<close>

lemma prefix_matches_iff:
  "prefix_matches path pre \<longleftrightarrow>
     path = pre \<or> (\<exists>rest. path = pre @ rest \<and> (ends_with_char pre CHR ''/'' \<or> prefix ''/'' rest))"
proof (cases "strip_prefix path pre")
  case None
  then show ?thesis by (auto simp: prefix_matches_def)
next
  case (Some rest)
  then have "path = pre @ rest" by (simp add: strip_prefix_Some_iff)
  with Some show ?thesis by (auto simp: prefix_matches_def starts_with_iff)
qed

lemma join_segments_append:
  "xs \<noteq> [] \<Longrightarrow> ys \<noteq> [] \<Longrightarrow>
     join_segments d (xs @ ys) = join_segments d xs @ d # join_segments d ys"
  by (induction d xs rule: join_segments.induct) (auto simp: join_segments_Cons)

lemma split_char_strict_prefix:
  "strict_prefix (split_char d p) (split_char d s) \<longleftrightarrow> (\<exists>r. s = p @ d # r)"
proof
  assume "strict_prefix (split_char d p) (split_char d s)"
  then obtain zs where zs: "split_char d s = split_char d p @ zs" "zs \<noteq> []"
    by (auto simp: strict_prefix_def prefix_def)
  then have "s = p @ d # join_segments d zs"
    by (metis join_segments_append join_split_char split_char_not_Nil)
  then show "\<exists>r. s = p @ d # r" by blast
next
  assume "\<exists>r. s = p @ d # r"
  then show "strict_prefix (split_char d p) (split_char d s)"
    by (auto simp: split_char_append_sep strict_prefix_def)
qed

lemma prefix_matches_trailing_slash:
  "prefix_matches path (p @ ''/'') \<longleftrightarrow>
     strict_prefix (split_char CHR ''/'' p) (split_char CHR ''/'' path)"
  by (auto simp: prefix_matches_iff split_char_strict_prefix ends_with_char_iff)

lemma prefix_matches_no_trailing_slash:
  assumes "\<not> ends_with_char pre CHR ''/''"
  shows "prefix_matches path pre \<longleftrightarrow>
     prefix (split_char CHR ''/'' pre) (split_char CHR ''/'' path)"
proof -
  have "prefix_matches path pre \<longleftrightarrow> path = pre \<or> (\<exists>r. path = pre @ CHR ''/'' # r)"
    using assms by (auto simp: prefix_matches_iff prefix_def)
  also have "\<dots> \<longleftrightarrow> split_char CHR ''/'' path = split_char CHR ''/'' pre
      \<or> strict_prefix (split_char CHR ''/'' pre) (split_char CHR ''/'' path)"
    by (auto simp: split_char_strict_prefix dest: split_char_inject)
  also have "\<dots> \<longleftrightarrow> prefix (split_char CHR ''/'' pre) (split_char CHR ''/'' path)"
    by (auto simp: strict_prefix_def)
  finally show ?thesis .
qed

lemma prefix_matches_decomp:
  "prefix_matches path pre \<Longrightarrow> \<exists>rest. path = pre @ rest"
  by (auto simp: prefix_matches_iff)

section \<open>The interface of a longest-prefix search\<close>

text \<open>
  Both route searches walk the routes in order and keep the candidate with the longest
  prefix; they differ in what makes a route a candidate. The locale states the loop's shape
  once: \<open>cand\<close> is what one route contributes (an error, nothing, or a prefix length with
  its match).
\<close>

locale longest_prefix_search =
  fixes cand :: "'r \<Rightarrow> 'e + (nat \<times> 'm) option"
    and loop :: "(nat \<times> 'm) option \<Rightarrow> 'r list \<Rightarrow> 'e + (nat \<times> 'm) option"
  assumes loop_Nil: "loop best [] = Inr best"
    and loop_Cons:
      "loop best (r # rs) =
         and_then (cand r) (\<lambda>c. loop (case c of None \<Rightarrow> best | Some nm \<Rightarrow> keep_best best nm) rs)"
begin

lemma loop_total: "(\<And>r. r \<in> set rs \<Longrightarrow> \<exists>c. cand r = Inr c) \<Longrightarrow> \<exists>b. loop best rs = Inr b"
proof (induction rs arbitrary: best)
  case Nil
  then show ?case by (simp add: loop_Nil)
next
  case (Cons r rs)
  then obtain c where "cand r = Inr c" by fastforce
  with Cons show ?case by (simp add: loop_Cons)
qed

lemma loop_ok_cand: "loop best rs = Inr b \<Longrightarrow> r \<in> set rs \<Longrightarrow> \<exists>c. cand r = Inr c"
  by (induction rs arbitrary: best) (auto simp: loop_Cons result_simps)

lemma loop_best:
  "loop best rs = Inr (Some (n, m)) \<Longrightarrow>
     (best = Some (n, m) \<or> (\<exists>r \<in> set rs. cand r = Inr (Some (n, m))))
     \<and> (\<forall>n' m'. best = Some (n', m') \<longrightarrow> n' \<le> n)
     \<and> (\<forall>r \<in> set rs. \<forall>n' m'. cand r = Inr (Some (n', m')) \<longrightarrow> n' \<le> n)"
proof (induction rs arbitrary: best)
  case Nil
  then show ?case by (simp add: loop_Nil)
next
  case (Cons r rs)
  then obtain c where c: "cand r = Inr c"
    and rest: "loop (case c of None \<Rightarrow> best | Some nm \<Rightarrow> keep_best best nm) rs = Inr (Some (n, m))"
    by (auto simp: loop_Cons result_simps)
  note IH = Cons.IH [OF rest]
  show ?case
  proof (cases c)
    case None
    with IH c show ?thesis by auto
  next
    case (Some nm)
    with IH c show ?thesis
      by (cases nm; cases best) (auto simp: keep_best_def split: if_splits)
  qed
qed

lemma loop_None_iff:
  "loop best rs = Inr None \<longleftrightarrow> best = None \<and> (\<forall>r \<in> set rs. cand r = Inr None)"
proof (induction rs arbitrary: best)
  case Nil
  then show ?case by (simp add: loop_Nil)
next
  case (Cons r rs)
  have keep: "keep_best best nm \<noteq> None" for nm
    by (auto simp: keep_best_def split: option.splits)
  show ?case
    by (cases "cand r") (auto simp: loop_Cons result_simps Cons.IH keep split: option.splits)
qed

lemma loop_first:
  "loop best rs = Inr (Some (n, m)) \<Longrightarrow> best \<noteq> Some (n, m) \<Longrightarrow>
     (\<forall>b. best = Some b \<longrightarrow> fst b < n)
     \<and> (\<exists>pre r post. rs = pre @ r # post \<and> cand r = Inr (Some (n, m))
          \<and> (\<forall>r' \<in> set pre. \<forall>n' m'. cand r' = Inr (Some (n', m')) \<longrightarrow> n' < n))"
proof (induction rs arbitrary: best)
  case Nil
  then show ?case by (simp add: loop_Nil)
next
  case (Cons r rs)
  then obtain c where c: "cand r = Inr c"
    and rest: "loop (case c of None \<Rightarrow> best | Some nm \<Rightarrow> keep_best best nm) rs = Inr (Some (n, m))"
    by (auto simp: loop_Cons result_simps)
  let ?best = "case c of None \<Rightarrow> best | Some nm \<Rightarrow> keep_best best nm"
  show ?case
  proof (cases "?best = Some (n, m)")
    case True
    with Cons.prems(2) have "c = Some (n, m) \<and> (\<forall>b. best = Some b \<longrightarrow> fst b < n)"
      by (auto simp: keep_best_def split: option.splits if_splits)
    with c show ?thesis by (intro conjI exI [of _ "[]"]) auto
  next
    case False
    from Cons.IH [OF rest False] obtain pre r' post where
      split: "rs = pre @ r' # post" "cand r' = Inr (Some (n, m))"
      "\<forall>q \<in> set pre. \<forall>n' m'. cand q = Inr (Some (n', m')) \<longrightarrow> n' < n"
      and less: "\<forall>b. ?best = Some b \<longrightarrow> fst b < n" by blast
    have "\<forall>b. best = Some b \<longrightarrow> fst b < n" and "\<forall>n' m'. c = Some (n', m') \<longrightarrow> n' < n"
      using less by (auto simp: keep_best_def split: option.splits if_splits)
    with split c show ?thesis by (intro conjI exI [of _ "r # pre"]) auto
  qed
qed

end

definition client_candidate ::
  "(string \<Rightarrow> string option) \<Rightarrow> http_method \<Rightarrow> string \<Rightarrow> route_config
   \<Rightarrow> string + (nat \<times> route_match) option" where
  "client_candidate pd meth path route =
     (if meth \<notin> set (rt_methods route) then Inr None
      else case rt_local_prefix route of
        None \<Rightarrow> Inr None
      | Some raw \<Rightarrow> and_then (canonical_request_path pd raw) (\<lambda>lp.
          if \<not> prefix_matches path lp then Inr None
          else and_then (canonical_request_path pd (unwrap_or lp (rt_upstream_prefix route))) (\<lambda>up.
            Inr (Some (length lp, \<lparr>rm_route = route, rm_upstream_path = rewrite_prefix path lp up\<rparr>)))))"

definition server_candidate ::
  "(string \<Rightarrow> string option) \<Rightarrow> http_method \<Rightarrow> string \<Rightarrow> string \<Rightarrow> route_config
   \<Rightarrow> string + (nat \<times> route_match) option" where
  "server_candidate pd meth path client_identity route =
     (if meth \<notin> set (rt_methods route) \<or> \<not> route_matches_client_identity route client_identity
      then Inr None
      else case rt_upstream_prefix route of
        None \<Rightarrow> Inr None
      | Some raw \<Rightarrow> and_then (canonical_request_path pd raw) (\<lambda>pre.
          if prefix_matches path pre
          then Inr (Some (length pre, \<lparr>rm_route = route, rm_upstream_path = path\<rparr>))
          else Inr None))"

lemma list_ex_eq_iff [simp]: "list_ex (\<lambda>x. x = a) xs \<longleftrightarrow> a \<in> set xs"
  by (auto simp: list_ex_iff)

interpretation client_search: longest_prefix_search
  "client_candidate pd meth path" "client_route_loop pd meth path" for pd meth path
proof
  show "client_route_loop pd meth path best [] = Inr best" for best
    by simp
  show "client_route_loop pd meth path best (r # rs) = and_then (client_candidate pd meth path r)
      (\<lambda>c. client_route_loop pd meth path
              (case c of None \<Rightarrow> best | Some nm \<Rightarrow> keep_best best nm) rs)" for best r rs
    by (auto simp: client_candidate_def and_then_def split: option.splits sum.splits)
qed

interpretation server_search: longest_prefix_search
  "server_candidate pd meth path cid" "server_route_loop pd meth path cid" for pd meth path cid
proof
  show "server_route_loop pd meth path cid best [] = Inr best" for best
    by simp
  show "server_route_loop pd meth path cid best (r # rs) = and_then (server_candidate pd meth path cid r)
      (\<lambda>c. server_route_loop pd meth path cid
              (case c of None \<Rightarrow> best | Some nm \<Rightarrow> keep_best best nm) rs)" for best r rs
    by (auto simp: server_candidate_def and_then_def split: option.splits sum.splits)
qed

section \<open>What a route search finds\<close>

text \<open>
  A route is eligible for a server request under its canonical prefix when the method is
  listed, the identity is bound to the route and the prefix matches on segment boundaries;
  for a client request the identity plays no part and the prefix is the local one.
\<close>

definition server_eligible ::
  "(string \<Rightarrow> string option) \<Rightarrow> http_method \<Rightarrow> string \<Rightarrow> string \<Rightarrow> route_config \<Rightarrow> string \<Rightarrow> bool" where
  "server_eligible pd meth path client_identity route pre \<longleftrightarrow>
     meth \<in> set (rt_methods route)
     \<and> route_matches_client_identity route client_identity
     \<and> (\<exists>raw. rt_upstream_prefix route = Some raw \<and> canonical_request_path pd raw = Inr pre)
     \<and> prefix_matches path pre"

definition client_eligible ::
  "(string \<Rightarrow> string option) \<Rightarrow> http_method \<Rightarrow> string \<Rightarrow> route_config \<Rightarrow> string \<Rightarrow> bool" where
  "client_eligible pd meth path route pre \<longleftrightarrow>
     meth \<in> set (rt_methods route)
     \<and> (\<exists>raw. rt_local_prefix route = Some raw \<and> canonical_request_path pd raw = Inr pre)
     \<and> prefix_matches path pre"

lemma server_candidate_Some_iff:
  "server_candidate pd meth path cid route = Inr (Some (n, m)) \<longleftrightarrow>
     (\<exists>pre. server_eligible pd meth path cid route pre \<and> n = length pre
        \<and> m = \<lparr>rm_route = route, rm_upstream_path = path\<rparr>)"
  by (auto simp: server_candidate_def server_eligible_def result_simps split: option.splits if_splits)

lemma client_candidate_Some_iff:
  "client_candidate pd meth path route = Inr (Some (n, m)) \<longleftrightarrow>
     (\<exists>pre up. client_eligible pd meth path route pre
        \<and> canonical_request_path pd (unwrap_or pre (rt_upstream_prefix route)) = Inr up
        \<and> n = length pre
        \<and> m = \<lparr>rm_route = route, rm_upstream_path = rewrite_prefix path pre up\<rparr>)"
  by (auto simp: client_candidate_def client_eligible_def result_simps split: option.splits if_splits)

lemma find_server_route_loop:
  "find_server_route pd routes meth path cid = Inr m \<longleftrightarrow>
     (\<exists>cpath n. canonical_request_path pd path = Inr cpath
        \<and> server_route_loop pd meth cpath cid None routes = Inr (Some (n, m)))"
  by (auto simp: find_server_route_def result_simps)

lemma find_client_route_loop:
  "find_client_route pd routes meth path = Inr m \<longleftrightarrow>
     (\<exists>cpath n. canonical_request_path pd path = Inr cpath
        \<and> client_route_loop pd meth cpath None routes = Inr (Some (n, m)))"
  by (auto simp: find_client_route_def result_simps)

lemma find_server_route_sound:
  assumes "find_server_route pd routes meth path cid = Inr m"
  shows "\<exists>pre. rm_route m \<in> set routes
    \<and> canonical_request_path pd path = Inr (rm_upstream_path m)
    \<and> server_eligible pd meth (rm_upstream_path m) cid (rm_route m) pre
    \<and> (\<forall>r \<in> set routes. \<forall>p. server_eligible pd meth (rm_upstream_path m) cid r p
          \<longrightarrow> length p \<le> length pre)"
proof -
  from assms obtain cpath n where c: "canonical_request_path pd path = Inr cpath"
    and loop: "server_route_loop pd meth cpath cid None routes = Inr (Some (n, m))"
    by (auto simp: find_server_route_loop)
  from server_search.loop_best [OF loop] obtain r where
    r: "r \<in> set routes" "server_candidate pd meth cpath cid r = Inr (Some (n, m))"
    and max: "\<forall>r' \<in> set routes. \<forall>n' m'.
      server_candidate pd meth cpath cid r' = Inr (Some (n', m')) \<longrightarrow> n' \<le> n"
    by blast
  from r(2) obtain pre where "server_eligible pd meth cpath cid r pre" "n = length pre"
    "m = \<lparr>rm_route = r, rm_upstream_path = cpath\<rparr>"
    by (auto simp: server_candidate_Some_iff)
  moreover from max have "\<forall>r' \<in> set routes. \<forall>p. server_eligible pd meth cpath cid r' p
      \<longrightarrow> length p \<le> n"
    using server_candidate_Some_iff by blast
  ultimately show ?thesis
    using r(1) c by (intro exI [of _ pre]) simp
qed

lemma find_client_route_sound:
  assumes "find_client_route pd routes meth path = Inr m"
  shows "\<exists>cpath pre up. rm_route m \<in> set routes
    \<and> canonical_request_path pd path = Inr cpath
    \<and> client_eligible pd meth cpath (rm_route m) pre
    \<and> canonical_request_path pd (unwrap_or pre (rt_upstream_prefix (rm_route m))) = Inr up
    \<and> rm_upstream_path m = rewrite_prefix cpath pre up
    \<and> (\<forall>r \<in> set routes. \<forall>p. client_eligible pd meth cpath r p \<longrightarrow> length p \<le> length pre)"
proof -
  from assms obtain cpath n where c: "canonical_request_path pd path = Inr cpath"
    and loop: "client_route_loop pd meth cpath None routes = Inr (Some (n, m))"
    by (auto simp: find_client_route_loop)
  have elig: "\<exists>m'. client_candidate pd meth cpath r = Inr (Some (length p, m'))"
    if "r \<in> set routes" "client_eligible pd meth cpath r p" for r p
  proof -
    from client_search.loop_ok_cand [OF loop that(1)] obtain x where
      "client_candidate pd meth cpath r = Inr x" by blast
    with that(2) show ?thesis
      by (auto simp: client_candidate_def client_eligible_def result_simps split: if_splits)
  qed
  from client_search.loop_best [OF loop] obtain r where
    r: "r \<in> set routes" "client_candidate pd meth cpath r = Inr (Some (n, m))"
    and max: "\<forall>r' \<in> set routes. \<forall>n' m'.
      client_candidate pd meth cpath r' = Inr (Some (n', m')) \<longrightarrow> n' \<le> n"
    by blast
  from r(2) obtain pre up where "client_eligible pd meth cpath r pre" "n = length pre"
    "canonical_request_path pd (unwrap_or pre (rt_upstream_prefix r)) = Inr up"
    "m = \<lparr>rm_route = r, rm_upstream_path = rewrite_prefix cpath pre up\<rparr>"
    by (auto simp: client_candidate_Some_iff)
  moreover from max elig have "\<forall>r' \<in> set routes. \<forall>p. client_eligible pd meth cpath r' p
      \<longrightarrow> length p \<le> n" by blast
  ultimately show ?thesis
    using r(1) c by - (rule exI [of _ cpath], rule exI [of _ pre], rule exI [of _ up], simp)
qed

text \<open>Every configured prefix is accepted by \<open>canonical_request_path\<close>.\<close>

definition prefixes_canonical :: "(string \<Rightarrow> string option) \<Rightarrow> route_config list \<Rightarrow> bool" where
  "prefixes_canonical pd routes \<longleftrightarrow>
     (\<forall>r \<in> set routes. \<forall>raw. rt_local_prefix r = Some raw \<or> rt_upstream_prefix r = Some raw \<longrightarrow>
        (\<exists>p. canonical_request_path pd raw = Inr p))"

lemma find_server_route_complete:
  assumes "prefixes_canonical pd routes" and "canonical_request_path pd path = Inr cpath"
    and "r \<in> set routes" and "server_eligible pd meth cpath cid r pre"
  shows "\<exists>m. find_server_route pd routes meth path cid = Inr m"
proof -
  have total: "\<exists>c. server_candidate pd meth cpath cid r' = Inr c" if "r' \<in> set routes" for r'
    using assms(1) that
    by (fastforce simp: server_candidate_def prefixes_canonical_def split: option.splits)
  then obtain b where b: "server_route_loop pd meth cpath cid None routes = Inr b"
    using server_search.loop_total by blast
  have "server_candidate pd meth cpath cid r \<noteq> Inr None"
    using assms(4) server_candidate_Some_iff
      [of pd meth cpath cid r "length pre" "\<lparr>rm_route = r, rm_upstream_path = cpath\<rparr>"] by auto
  with assms(3) b have "b \<noteq> None"
    using server_search.loop_None_iff [of pd meth cpath cid None routes] by auto
  with b assms(2) show ?thesis
    by (auto simp: find_server_route_loop)
qed

lemmas routing_eval =
  canonical_request_path_def reject_invalid_percent_encoding_def percent_loop.simps
  reject_encoded_delimiters_def ref_decoder_def hex_value_def prefix_matches_def
  rewrite_prefix_def keep_best_def find_server_route_def find_client_route_def
  route_matches_client_identity_def

lemma percent_decoder_iff: "percent_decoder pd \<longleftrightarrow> pd = ref_decoder"
  by (auto simp: percent_decoder_def ref_decoder_def fun_eq_iff)

lemma canonical_plain_path:
  assumes "percent_decoder pd" and "prefix ''/'' path" and "CHR ''%'' \<notin> set path"
    and "utf8_valid path"
    and "''.'' \<notin> set (split_char CHR ''/'' path)" "''..'' \<notin> set (split_char CHR ''/'' path)"
  shows "canonical_request_path pd path = Inr path"
  using assms
  by (simp add: canonical_request_path_iff percent_decoder_def pct_bytes_no_percent pct_wf_no_percent)

lemma rewrite_prefix_plain:
  assumes "\<not> ends_with_char lp CHR ''/''" and "prefix_matches path lp"
  shows "\<exists>suf. path = lp @ suf \<and> rewrite_prefix path lp up = up @ suf \<and> (suf = [] \<or> prefix ''/'' suf)"
proof -
  from assms obtain suf where suf: "path = lp @ suf" "suf = [] \<or> prefix ''/'' suf"
    by (auto simp: prefix_matches_iff)
  then have "rewrite_prefix path lp up = up @ suf"
    by (auto simp: rewrite_prefix_def Let_def starts_with_iff)
  with suf show ?thesis by blast
qed

lemma server_eligible_candidate:
  "server_eligible pd meth path cid r p \<Longrightarrow>
     server_candidate pd meth path cid r = Inr (Some (length p, \<lparr>rm_route = r, rm_upstream_path = path\<rparr>))"
  by (auto simp: server_candidate_Some_iff)

lemma rewrite_prefix_below: "prefix_matches (rewrite_prefix path lp up) up"
  by (auto simp: prefix_matches_iff rewrite_prefix_def Let_def starts_with_iff)

text \<open>A route bound to one identity, used by the examples of this theory.\<close>

definition example_route :: "string \<Rightarrow> string \<Rightarrow> route_config" where
  "example_route name pre =
     \<lparr>rt_id = name, rt_methods = [''GET''], rt_local_prefix = Some ''/local'',
      rt_upstream_prefix = Some pre, rt_require_purpose = False,
      rt_purpose_source = None, rt_client_identity = Some '' spiffe://a/b '',
      rt_client_identities = [], rt_upstream_auth_header_env = Some ''TOKEN'',
      rt_forward_client_identity_header = False, rt_purposes = [], rt_governed_policy = None,
      rt_allow_forward_authorization = False, rt_allow_forward_cookie = False,
      rt_policy_hash = 0\<rparr>"

section \<open>Properties\<close>



text \<open>
  C20. Prefix matching respects segment boundaries: a prefix without a trailing slash matches
  exactly the paths whose segment list extends its own, and a prefix with a trailing slash
  exactly those that extend it by at least one segment.
\<close>

theorem prefix_matches_segmentwise:
  "prefix_matches path pre \<longleftrightarrow>
     (if ends_with_char pre CHR ''/''
      then strict_prefix (split_char CHR ''/'' (butlast pre)) (split_char CHR ''/'' path)
      else prefix (split_char CHR ''/'' pre) (split_char CHR ''/'' path))"
proof (cases "ends_with_char pre CHR ''/''")
  case True
  then have "pre = butlast pre @ ''/''"
    by (metis append_butlast_last_id ends_with_char_iff)
  with True prefix_matches_trailing_slash [of path "butlast pre"] show ?thesis by simp
next
  case False
  then show ?thesis by (simp add: prefix_matches_no_trailing_slash)
qed



text \<open>
  C19. The search succeeds whenever it should: when every configured prefix is canonicalisable
  (which validation enforces), a canonicalisable request finds a route exactly when some
  configured route is eligible.
\<close>

theorem find_server_route_total:
  assumes "prefixes_canonical pd routes" and "canonical_request_path pd path = Inr cpath"
  shows "(\<exists>m. find_server_route pd routes meth path cid = Inr m)
    \<longleftrightarrow> (\<exists>r \<in> set routes. \<exists>pre. server_eligible pd meth cpath cid r pre)"
proof
  assume "\<exists>m. find_server_route pd routes meth path cid = Inr m"
  then show "\<exists>r \<in> set routes. \<exists>pre. server_eligible pd meth cpath cid r pre"
    using find_server_route_sound assms(2) by fastforce
next
  assume "\<exists>r \<in> set routes. \<exists>pre. server_eligible pd meth cpath cid r pre"
  then show "\<exists>m. find_server_route pd routes meth path cid = Inr m"
    using find_server_route_complete [OF assms] by blast
qed

theorem find_server_route_total_witness:
  "prefixes_canonical ref_decoder [example_route ''admin'' ''/v1/admin'']
   \<and> canonical_request_path ref_decoder ''/v2'' = Inr ''/v2''
   \<and> (\<exists>m. find_server_route ref_decoder [example_route ''admin'' ''/v1/admin''] ''GET'' ''/v2'' ''spiffe://a/b'' = Inr m)
     = (\<exists>r \<in> set [example_route ''admin'' ''/v1/admin'']. \<exists>pre.
          server_eligible ref_decoder ''GET'' ''/v2'' ''spiffe://a/b'' r pre)"
proof -
  have "canonical_request_path ref_decoder ''/local'' = Inr ''/local''"
    "canonical_request_path ref_decoder ''/v1/admin'' = Inr ''/v1/admin''"
    by (simp_all add: routing_eval rust_eval)
  then have p: "prefixes_canonical ref_decoder [example_route ''admin'' ''/v1/admin'']"
    by (auto simp: prefixes_canonical_def example_route_def)
  have c: "canonical_request_path ref_decoder ''/v2'' = Inr ''/v2''"
    by (simp add: routing_eval rust_eval)
  show ?thesis by (rule conjI [OF p conjI [OF c find_server_route_total [OF p c]]])
qed

text \<open>
  C18. The client's route search returns the most specific route too, and the path it sends on
  is the canonical path with the local prefix replaced by the canonical upstream prefix; it
  lies below the upstream prefix.
\<close>

theorem find_client_route_most_specific:
  assumes "find_client_route pd routes meth path = Inr m"
  shows "\<exists>cpath pre up. rm_route m \<in> set routes
    \<and> canonical_request_path pd path = Inr cpath
    \<and> client_eligible pd meth cpath (rm_route m) pre
    \<and> (\<forall>r \<in> set routes. \<forall>p. client_eligible pd meth cpath r p \<longrightarrow> length p \<le> length pre)
    \<and> canonical_request_path pd (unwrap_or pre (rt_upstream_prefix (rm_route m))) = Inr up
    \<and> rm_upstream_path m = rewrite_prefix cpath pre up
    \<and> prefix_matches (rm_upstream_path m) up"
proof -
  from find_client_route_sound [OF assms] obtain cpath pre up where
    "rm_route m \<in> set routes" "canonical_request_path pd path = Inr cpath"
    "client_eligible pd meth cpath (rm_route m) pre"
    "canonical_request_path pd (unwrap_or pre (rt_upstream_prefix (rm_route m))) = Inr up"
    "rm_upstream_path m = rewrite_prefix cpath pre up"
    "\<forall>r \<in> set routes. \<forall>p. client_eligible pd meth cpath r p \<longrightarrow> length p \<le> length pre"
    by blast
  then show ?thesis
    using rewrite_prefix_below
    by - (rule exI [of _ cpath], rule exI [of _ pre], rule exI [of _ up], simp)
qed

theorem find_client_route_most_specific_witness:
  "find_client_route ref_decoder [example_route ''admin'' ''/v1/admin''] ''GET'' ''/local/x''
   = Inr \<lparr>rm_route = example_route ''admin'' ''/v1/admin'', rm_upstream_path = ''/v1/admin/x''\<rparr>
   \<and> (\<exists>up. prefix_matches ''/v1/admin/x'' up)"
proof -
  have f: "find_client_route ref_decoder [example_route ''admin'' ''/v1/admin''] ''GET'' ''/local/x''
    = Inr \<lparr>rm_route = example_route ''admin'' ''/v1/admin'', rm_upstream_path = ''/v1/admin/x''\<rparr>"
    by (simp add: routing_eval rust_eval example_route_def)
  from find_client_route_most_specific [OF f] f show ?thesis
    unfolding route_match.select_convs by blast
qed



end
