(* ===== verification/Connector_Identity.thy ===== *)
theory Connector_Identity
  imports Connector_Config
begin

text \<open>
  Certificates and peer identities (\<open>src/identity.rs\<close>). The libraries that read PEM and
  X.509 and compute digests are not part of the repository: they are the fields of the record
  \<open>pki_lib\<close>, an argument of every definition that uses them. A parsed certificate is a
  record of what the parser's accessors return. The file system and the environment are the
  record \<open>host\<close>; a point in time is an integer number of nanoseconds since the epoch.
\<close>

section \<open>The world outside: files, environment, libraries\<close>

record host =
  fs_read :: "string \<Rightarrow> string + bytes"
  fs_exists :: "string \<Rightarrow> bool"
  fs_mode :: "string \<Rightarrow> 32 word option"
  env_var_os :: "string \<Rightarrow> bytes option"

text \<open>\<open>env::var\<close>: present and valid Unicode.\<close>

definition env_var :: "host \<Rightarrow> string \<Rightarrow> string option" where
  "env_var h name = option_filter utf8_valid (env_var_os h name)"

record extended_key_usage =
  ek_client_auth :: bool
  ek_server_auth :: bool

datatype general_name = URI string | DNSName string | OtherName string

record x509_certificate =
  xc_not_before :: int
  xc_not_after :: int
  xc_extended_key_usage :: "string + extended_key_usage option"
  xc_subject_alternative_name :: "string + general_name list option"
  xc_basic_constraints_ca :: "string + bool option"
  xc_key_usage_cert_sign :: "string + bool option"

record pki_lib =
  x509_from_der :: "bytes \<Rightarrow> string + x509_certificate"
  sha256_digest :: "bytes \<Rightarrow> 8 word list"
  pem_certs :: "bytes \<Rightarrow> string + bytes list"
  pem_private_key :: "bytes \<Rightarrow> string + bytes option"
  with_single_cert :: "bytes list \<Rightarrow> bytes \<Rightarrow> string + unit"
  rfc3339_format :: "int \<Rightarrow> string option"
  from_pem_bundle :: "bytes \<Rightarrow> string + bytes list"
  identity_from_pem :: "bytes \<Rightarrow> string + unit"
  root_store_add :: "bytes \<Rightarrow> string + unit"
  client_verifier_build :: "bytes list \<Rightarrow> string + unit"
  verify_client_cert :: "bytes list \<Rightarrow> bytes \<Rightarrow> bytes list \<Rightarrow> int \<Rightarrow> string + unit"
  client_build :: "bytes list \<Rightarrow> string + unit"

section \<open>Types\<close>

datatype ek_usage = ClientAuth | ServerAuth

fun ek_usage_display :: "ek_usage \<Rightarrow> string" where
  "ek_usage_display ClientAuth = ''clientAuth''"
| "ek_usage_display ServerAuth = ''serverAuth''"

datatype identity_kind = UriSan | DnsSan

record peer_identity =
  pi_value :: string
  pi_kind :: identity_kind
  pi_fingerprint_sha256 :: string

record certificate_summary_rec =
  sm_not_after :: string
  sm_not_after_system :: int

definition expires_within :: "int \<Rightarrow> certificate_summary_rec \<Rightarrow> nat \<Rightarrow> bool" where
  "expires_within now summary duration =
     (if sm_not_after_system summary \<ge> now
      then sm_not_after_system summary - now \<le> int duration
      else True)"

section \<open>Reading files\<close>

definition load_certs :: "host \<Rightarrow> pki_lib \<Rightarrow> string \<Rightarrow> string + bytes list" where
  "load_certs h pki path =
     and_then (fs_read h path) (\<lambda>content.
     map_err (\<lambda>err. ''failed to parse certificate PEM: '' @ err) (pem_certs pki content))"

definition load_private_key :: "host \<Rightarrow> pki_lib \<Rightarrow> string \<Rightarrow> string + bytes" where
  "load_private_key h pki path =
     and_then (fs_read h path) (\<lambda>content.
     and_then (map_err (\<lambda>err. ''failed to parse private key PEM: '' @ err)
                 (pem_private_key pki content)) (\<lambda>key.
     ok_or ''private key PEM did not contain a supported private key'' key))"

definition read_identity_pem :: "host \<Rightarrow> string \<Rightarrow> string \<Rightarrow> string + bytes" where
  "read_identity_pem h cert key =
     and_then (fs_read h cert) (\<lambda>out.
     and_then (fs_read h key) (\<lambda>tail. Inr (out @ [CHR 0x0A] @ tail)))"

definition read_ca_pem :: "host \<Rightarrow> pki_lib \<Rightarrow> string \<Rightarrow> string + bytes list" where
  "read_ca_pem h pki path = and_then (fs_read h path) (from_pem_bundle pki)"

section \<open>Certificate checks\<close>

definition sha256_hex :: "pki_lib \<Rightarrow> bytes \<Rightarrow> string" where
  "sha256_hex pki bs = hex_encode (sha256_digest pki bs)"

definition parse_cert_der :: "pki_lib \<Rightarrow> bytes \<Rightarrow> string + x509_certificate" where
  "parse_cert_der pki bs =
     map_err (\<lambda>err. ''failed to parse certificate DER: '' @ err) (x509_from_der pki bs)"

definition as_system_time :: "int \<Rightarrow> int" where
  "as_system_time unix =
     (if unix \<ge> 0 then 0 + int (nat unix * nanos_per_sec)
      else 0 - int (nat (- unix) * nanos_per_sec))"

definition validate_time :: "int \<Rightarrow> x509_certificate \<Rightarrow> string + unit" where
  "validate_time now cert =
     (let not_before = as_system_time (xc_not_before cert);
          not_after = as_system_time (xc_not_after cert)
      in if now < not_before then Inl ''certificate is not valid yet''
         else if now > not_after then Inl ''certificate is expired''
         else Inr ())"

fun eku_matches :: "extended_key_usage \<Rightarrow> ek_usage \<Rightarrow> bool" where
  "eku_matches eku ClientAuth = ek_client_auth eku"
| "eku_matches eku ServerAuth = ek_server_auth eku"

definition leaf_has_eku :: "x509_certificate \<Rightarrow> ek_usage \<Rightarrow> string + bool" where
  "leaf_has_eku cert usage =
     and_then (xc_extended_key_usage cert) (\<lambda>ext.
     case ext of None \<Rightarrow> Inr False | Some eku \<Rightarrow> Inr (eku_matches eku usage))"

definition validate_leaf_certificate ::
  "host \<Rightarrow> pki_lib \<Rightarrow> int \<Rightarrow> string \<Rightarrow> string \<Rightarrow> ek_usage \<Rightarrow> string + unit" where
  "validate_leaf_certificate h pki now cert_path key_path usage =
     and_then (load_certs h pki cert_path) (\<lambda>certs.
     case certs of
       [] \<Rightarrow> Inl ''certificate file contains no certificates''
     | leaf # _ \<Rightarrow>
         and_then (load_private_key h pki key_path) (\<lambda>key.
         and_then (map_err (\<lambda>err. ''private key does not match certificate: '' @ err)
                     (with_single_cert pki certs key)) (\<lambda>_.
         and_then (parse_cert_der pki leaf) (\<lambda>cert.
         and_then (validate_time now cert) (\<lambda>_.
         and_then (leaf_has_eku cert usage) (\<lambda>has.
         if \<not> has
         then Inl (''leaf certificate must assert Extended Key Usage '' @ ek_usage_display usage)
         else Inr ()))))))"

definition exactly_one_ca :: string where
  "exactly_one_ca =
     ''trust anchor PEM must contain exactly one CA certificate; use separate trust_anchors entries''"

definition validate_ca_certificate :: "host \<Rightarrow> pki_lib \<Rightarrow> int \<Rightarrow> string \<Rightarrow> string + unit" where
  "validate_ca_certificate h pki now cert_path =
     and_then (load_certs h pki cert_path) (\<lambda>certs.
     case certs of
       [] \<Rightarrow> Inl ''CA file contains no certificates''
     | _ # _ # _ \<Rightarrow> Inl exactly_one_ca
     | [der] \<Rightarrow>
         and_then (parse_cert_der pki der) (\<lambda>cert.
         and_then (validate_time now cert) (\<lambda>_.
         and_then (xc_basic_constraints_ca cert) (\<lambda>constraints.
         case constraints of
           Some False \<Rightarrow> Inl ''trust anchor is not a CA certificate''
         | None \<Rightarrow> Inl ''trust anchor missing basic constraints''
         | Some True \<Rightarrow>
             and_then (xc_key_usage_cert_sign cert) (\<lambda>usage.
             if usage = Some False
             then Inl ''trust anchor key usage does not allow certificate signing''
             else Inr ())))))"

definition load_single_ca_cert :: "host \<Rightarrow> pki_lib \<Rightarrow> string \<Rightarrow> string + bytes" where
  "load_single_ca_cert h pki path =
     and_then (load_certs h pki path) (\<lambda>certs.
     case certs of
       [cert] \<Rightarrow> Inr cert
     | [] \<Rightarrow> Inl ''CA file contains no certificates''
     | _ \<Rightarrow> Inl exactly_one_ca)"

definition certificate_summary :: "host \<Rightarrow> pki_lib \<Rightarrow> string \<Rightarrow> string + certificate_summary_rec" where
  "certificate_summary h pki cert_path =
     and_then (load_certs h pki cert_path) (\<lambda>certs.
     and_then (ok_or ''certificate file contains no certificates''
                 (case certs of [] \<Rightarrow> None | first # _ \<Rightarrow> Some first)) (\<lambda>first.
     and_then (parse_cert_der pki first) (\<lambda>cert.
     let not_after_system = as_system_time (xc_not_after cert) in
     Inr \<lparr>sm_not_after = unwrap_or ''unknown'' (rfc3339_format pki not_after_system),
          sm_not_after_system = not_after_system\<rparr>)))"

section \<open>The identity of a peer\<close>

fun first_spiffe_uri :: "general_name list \<Rightarrow> string option" where
  "first_spiffe_uri [] = None"
| "first_spiffe_uri (name # names) =
     (case name of
        URI uri \<Rightarrow> if starts_with uri ''spiffe://'' then Some uri else first_spiffe_uri names
      | _ \<Rightarrow> first_spiffe_uri names)"

fun first_dns_name :: "general_name list \<Rightarrow> string option" where
  "first_dns_name [] = None"
| "first_dns_name (name # names) =
     (case name of DNSName dns \<Rightarrow> Some dns | _ \<Rightarrow> first_dns_name names)"

definition extract_peer_identity_from_der ::
  "pki_lib \<Rightarrow> int \<Rightarrow> bytes \<Rightarrow> bool \<Rightarrow> string + peer_identity" where
  "extract_peer_identity_from_der pki now cert_der allow_dns_fallback =
     and_then (parse_cert_der pki cert_der) (\<lambda>cert.
     and_then (validate_time now cert) (\<lambda>_.
     and_then (leaf_has_eku cert ClientAuth) (\<lambda>has.
     if \<not> has then Inl ''client certificate missing clientAuth EKU''
     else
       and_then (xc_subject_alternative_name cert) (\<lambda>san_opt.
       and_then (ok_or ''certificate has no subject alternative name'' san_opt) (\<lambda>san.
       case first_spiffe_uri san of
         Some uri \<Rightarrow>
           Inr \<lparr>pi_value = uri, pi_kind = UriSan, pi_fingerprint_sha256 = sha256_hex pki cert_der\<rparr>
       | None \<Rightarrow>
           (case (if allow_dns_fallback then first_dns_name san else None) of
              Some dns \<Rightarrow>
                Inr \<lparr>pi_value = dns, pi_kind = DnsSan,
                     pi_fingerprint_sha256 = sha256_hex pki cert_der\<rparr>
            | None \<Rightarrow> Inl ''certificate has no acceptable URI SAN identity''))))))"

section \<open>Certificate expiry warnings\<close>

text \<open>
  \<open>warn_certificate_expiry\<close> of \<open>src/config.rs\<close>: the threshold is computed in 64-bit
  arithmetic (\<open>max(0) as u64 * 86_400\<close>, which wraps in a release build), and the result is
  the list of warnings it logs.
\<close>

definition expiry_threshold_secs :: "i64 \<Rightarrow> u64" where
  "expiry_threshold_secs days = (if sint days < 0 then 0 else days) * 86400"

definition warn_certificate_expiry ::
  "host \<Rightarrow> pki_lib \<Rightarrow> int \<Rightarrow> 'u connector_config \<Rightarrow> mode \<Rightarrow> (string \<times> string) list" where
  "warn_certificate_expiry h pki now config m =
     (let threshold = duration_from_secs (expiry_threshold_secs (lm_expiry_warning_days (cc_limits config)));
          identities = (case m of
            Client \<Rightarrow> (case cc_client_identity config of None \<Rightarrow> [] | Some i \<Rightarrow> [i])
          | Server \<Rightarrow> (case cc_server_identity config of None \<Rightarrow> [] | Some i \<Rightarrow> [i]))
      in concat (map (\<lambda>identity.
           case certificate_summary h pki (if_cert identity) of
             Inl _ \<Rightarrow> []
           | Inr summary \<Rightarrow>
               if expires_within now summary threshold
               then [(if_cert identity, sm_not_after summary)] else [])
           identities))"

section \<open>What the identity checks guarantee\<close>

lemma as_system_time_eq: "as_system_time unix = unix * int nanos_per_sec"
  by (simp add: as_system_time_def)

lemma validate_time_ok_iff:
  "validate_time now cert = Inr () \<longleftrightarrow>
     xc_not_before cert * int nanos_per_sec \<le> now \<and> now \<le> xc_not_after cert * int nanos_per_sec"
  by (auto simp: validate_time_def as_system_time_eq)

lemma leaf_has_eku_iff:
  "leaf_has_eku cert usage = Inr True \<longleftrightarrow>
     (\<exists>eku. xc_extended_key_usage cert = Inr (Some eku) \<and> eku_matches eku usage)"
  by (auto simp: leaf_has_eku_def result_simps split: option.splits)

lemma first_spiffe_uri_Some:
  "first_spiffe_uri names = Some uri \<Longrightarrow> URI uri \<in> set names \<and> starts_with uri ''spiffe://''"
  by (induction names) (auto split: general_name.splits if_splits)

lemma first_spiffe_uri_append:
  "(\<And>u. URI u \<in> set before \<Longrightarrow> \<not> starts_with u ''spiffe://'')
     \<Longrightarrow> first_spiffe_uri (before @ names) = first_spiffe_uri names"
  by (induction before) (auto split: general_name.splits)

lemma first_spiffe_uri_None_iff:
  "first_spiffe_uri names = None \<longleftrightarrow> (\<forall>u. URI u \<in> set names \<longrightarrow> \<not> starts_with u ''spiffe://'')"
  by (induction names) (auto split: general_name.splits)

lemma first_dns_name_Some:
  "first_dns_name names = Some dns \<Longrightarrow> DNSName dns \<in> set names"
  by (induction names) (auto split: general_name.splits)

lemma ex_Inr_true_iff: "(\<exists>b. r = Inr b \<and> b \<and> P) \<longleftrightarrow> r = Inr True \<and> P"
  by auto

lemma san_identity_Inr_iff:
  "(case first_spiffe_uri san of
      Some uri \<Rightarrow> Inr \<lparr>pi_value = uri, pi_kind = UriSan, pi_fingerprint_sha256 = fp\<rparr>
    | None \<Rightarrow>
        (case (if allow_dns then first_dns_name san else None) of
           Some dns \<Rightarrow> Inr \<lparr>pi_value = dns, pi_kind = DnsSan, pi_fingerprint_sha256 = fp\<rparr>
         | None \<Rightarrow> Inl e)) = Inr identity \<longleftrightarrow>
     pi_fingerprint_sha256 identity = fp
     \<and> (case pi_kind identity of
          UriSan \<Rightarrow> first_spiffe_uri san = Some (pi_value identity)
        | DnsSan \<Rightarrow> first_spiffe_uri san = None \<and> allow_dns
            \<and> first_dns_name san = Some (pi_value identity))"
  by (cases identity) (auto split: option.splits identity_kind.splits)

lemma extract_identity_Inr_iff:
  "extract_peer_identity_from_der pki now der allow_dns = Inr identity \<longleftrightarrow>
     (\<exists>cert eku san. x509_from_der pki der = Inr cert
        \<and> validate_time now cert = Inr ()
        \<and> xc_extended_key_usage cert = Inr (Some eku) \<and> ek_client_auth eku
        \<and> xc_subject_alternative_name cert = Inr (Some san)
        \<and> pi_fingerprint_sha256 identity = sha256_hex pki der
        \<and> (case pi_kind identity of
             UriSan \<Rightarrow> first_spiffe_uri san = Some (pi_value identity)
           | DnsSan \<Rightarrow> first_spiffe_uri san = None \<and> allow_dns
               \<and> first_dns_name san = Some (pi_value identity)))"
  unfolding extract_peer_identity_from_der_def parse_cert_der_def
  by (simp add: result_simps san_identity_Inr_iff ex_Inr_true_iff leaf_has_eku_iff) blast

text \<open>A certificate's identity is its first SPIFFE URI; DNS names count only when there is none.\<close>

lemma extract_identity_kind:
  assumes "extract_peer_identity_from_der pki now der allow_dns = Inr identity"
  shows "pi_kind identity = UriSan \<Longrightarrow> starts_with (pi_value identity) ''spiffe://''"
    and "pi_kind identity = DnsSan \<Longrightarrow> allow_dns"
  using assms by (auto simp: extract_identity_Inr_iff dest: first_spiffe_uri_Some)

section \<open>A concrete instance\<close>

text \<open>
  Certificates written out as data: the DER of a certificate is its own name, a chain verifies
  when its leaf names one of the roots as issuer after a colon.
\<close>

definition example_cert :: "general_name list \<Rightarrow> x509_certificate" where
  "example_cert san =
     \<lparr>xc_not_before = 0, xc_not_after = 100,
      xc_extended_key_usage = Inr (Some \<lparr>ek_client_auth = True, ek_server_auth = True\<rparr>),
      xc_subject_alternative_name = Inr (Some san),
      xc_basic_constraints_ca = Inr (Some True), xc_key_usage_cert_sign = Inr None\<rparr>"

definition example_pki :: pki_lib where
  "example_pki =
     \<lparr>x509_from_der = (\<lambda>der. Inr (example_cert [URI (''spiffe://a/'' @ takeWhile (\<lambda>c. c \<noteq> CHR '':'') der)])),
      sha256_digest = (\<lambda>der. replicate 32 (if der = ''b:ca-a'' then 171 else 205 :: 8 word)),
      pem_certs = (\<lambda>content. Inr [content]),
      pem_private_key = (\<lambda>content. Inr (Some content)),
      with_single_cert = (\<lambda>_ _. Inr ()),
      rfc3339_format = (\<lambda>_. None),
      from_pem_bundle = (\<lambda>content. Inr [content]),
      identity_from_pem = (\<lambda>_. Inr ()),
      root_store_add = (\<lambda>_. Inr ()),
      client_verifier_build = (\<lambda>roots. if roots = [] then Inl ''no root anchors'' else Inr ()),
      verify_client_cert = (\<lambda>roots leaf _ _.
        if drop 1 (dropWhile (\<lambda>c. c \<noteq> CHR '':'') leaf) \<in> set roots then Inr () else Inl ''unknown issuer''),
      client_build = (\<lambda>_. Inr ())\<rparr>"

definition example_host :: host where
  "example_host =
     \<lparr>fs_read = (\<lambda>path. Inr path), fs_exists = (\<lambda>_. True), fs_mode = (\<lambda>_. Some 384),
      env_var_os = (\<lambda>_. Some ''value'')\<rparr>"

lemma example_pki_simps [simp]:
  "x509_from_der example_pki der
     = Inr (example_cert [URI (''spiffe://a/'' @ takeWhile (\<lambda>c. c \<noteq> CHR '':'') der)])"
  "sha256_hex example_pki der = hex_encode (replicate 32 (if der = ''b:ca-a'' then 171 else 205))"
  "pem_certs example_pki content = Inr [content]"
  "pem_private_key example_pki content = Inr (Some content)"
  "with_single_cert example_pki certs key = Inr ()"
  "root_store_add example_pki der = Inr ()"
  "client_verifier_build example_pki roots = (if roots = [] then Inl ''no root anchors'' else Inr ())"
  "verify_client_cert example_pki roots leaf rest now =
     (if drop 1 (dropWhile (\<lambda>c. c \<noteq> CHR '':'') leaf) \<in> set roots then Inr () else Inl ''unknown issuer'')"
  by (simp_all add: example_pki_def sha256_hex_def)

definition example_identity :: peer_identity where
  "example_identity =
     \<lparr>pi_value = ''spiffe://a/b'', pi_kind = UriSan,
      pi_fingerprint_sha256 = hex_encode (replicate 32 171)\<rparr>"

lemma example_peer_extracted:
  "extract_peer_identity_from_der example_pki 5 ''b:ca-a'' False = Inr example_identity"
  by (simp add: extract_peer_identity_from_der_def parse_cert_der_def example_cert_def
        example_identity_def validate_time_def as_system_time_eq nanos_per_sec_def leaf_has_eku_def rust_eval)

section \<open>Properties\<close>

text \<open>
  C36. Certificate identities: an accepted certificate is within its validity period and asserts
  clientAuth; a URI identity is a SPIFFE URI of its subject alternative names, and a DNS name
  is used only when enabled and only for a certificate without any SPIFFE URI.
\<close>

theorem peer_identity_provenance:
  assumes "extract_peer_identity_from_der pki now der allow_dns = Inr identity"
  shows "\<exists>cert eku san. x509_from_der pki der = Inr cert
    \<and> xc_not_before cert * int nanos_per_sec \<le> now \<and> now \<le> xc_not_after cert * int nanos_per_sec
    \<and> xc_extended_key_usage cert = Inr (Some eku) \<and> ek_client_auth eku
    \<and> xc_subject_alternative_name cert = Inr (Some san)
    \<and> pi_fingerprint_sha256 identity = sha256_hex pki der
    \<and> (pi_kind identity = UriSan \<longrightarrow>
         URI (pi_value identity) \<in> set san \<and> prefix ''spiffe://'' (pi_value identity))
    \<and> (pi_kind identity = DnsSan \<longrightarrow> allow_dns \<and> DNSName (pi_value identity) \<in> set san
         \<and> (\<forall>u. URI u \<in> set san \<longrightarrow> \<not> prefix ''spiffe://'' u))"
proof -
  from assms obtain cert eku san where c: "x509_from_der pki der = Inr cert"
    "validate_time now cert = Inr ()" "xc_extended_key_usage cert = Inr (Some eku)" "ek_client_auth eku"
    "xc_subject_alternative_name cert = Inr (Some san)" "pi_fingerprint_sha256 identity = sha256_hex pki der"
    and k: "case pi_kind identity of
             UriSan \<Rightarrow> first_spiffe_uri san = Some (pi_value identity)
           | DnsSan \<Rightarrow> first_spiffe_uri san = None \<and> allow_dns
               \<and> first_dns_name san = Some (pi_value identity)"
    unfolding extract_identity_Inr_iff by blast
  from k have "pi_kind identity = UriSan \<Longrightarrow>
      URI (pi_value identity) \<in> set san \<and> prefix ''spiffe://'' (pi_value identity)"
    by (simp add: first_spiffe_uri_Some flip: starts_with_iff)
  moreover from k have "pi_kind identity = DnsSan \<Longrightarrow> allow_dns \<and> DNSName (pi_value identity) \<in> set san
      \<and> (\<forall>u. URI u \<in> set san \<longrightarrow> \<not> prefix ''spiffe://'' u)"
    by (simp add: first_spiffe_uri_None_iff first_dns_name_Some flip: starts_with_iff)
  ultimately show ?thesis using c unfolding validate_time_ok_iff by blast
qed

theorem peer_identity_provenance_witness:
  "extract_peer_identity_from_der example_pki 5 ''b:ca-a'' False = Inr example_identity
   \<and> (\<exists>cert eku san. x509_from_der example_pki ''b:ca-a'' = Inr cert
        \<and> xc_extended_key_usage cert = Inr (Some eku) \<and> ek_client_auth eku
        \<and> xc_subject_alternative_name cert = Inr (Some san))"
  using peer_identity_provenance [OF example_peer_extracted] example_peer_extracted by blast

text \<open>
  C40. The expiry warning's threshold is computed in 64-bit arithmetic: it is exact up to
  213503982334601 days, and the next value wraps around to less than one day.
\<close>

theorem expiry_threshold_range:
  "(\<forall>days. 0 \<le> sint days \<and> sint days \<le> 213503982334601 \<longrightarrow>
      uint (expiry_threshold_secs days) = sint days * 86400)
   \<and> uint (expiry_threshold_secs 213503982334602) = 61184
   \<and> (\<forall>days. sint days < 0 \<longrightarrow> expiry_threshold_secs days = 0)"
proof (intro conjI allI impI)
  fix days :: i64
  assume a: "0 \<le> sint days \<and> sint days \<le> 213503982334601"
  then have u: "uint days = sint days"
    using uint_sint [of days] by (simp add: take_bit_int_eq_self)
  with a show "uint (expiry_threshold_secs days) = sint days * 86400"
    by (simp add: expiry_threshold_secs_def uint_word_ariths)
qed (simp_all add: expiry_threshold_secs_def)

theorem expiry_threshold_range_witness:
  "uint (expiry_threshold_secs 30) = 2592000 \<and> expiry_threshold_secs (- 1) = 0"
proof -
  note t = expiry_threshold_range
  have "uint (expiry_threshold_secs 30) = sint (30 :: i64) * 86400"
    by (rule conjunct1 [OF t, rule_format]) simp
  moreover have "expiry_threshold_secs (- 1) = 0"
    by (rule conjunct2 [OF conjunct2 [OF t], rule_format]) simp
  ultimately show ?thesis by simp
qed

end
