(* ===== verification/Connector_Tls.thy ===== *)
theory Connector_Tls
  imports Connector_Identity
begin

text \<open>
  Trust anchors and the verification of client certificates (\<open>src/tls.rs\<close>). A root store is
  the list of the CA certificates added to it; whether the TLS library accepts a certificate
  into a store and whether a chain verifies against a store are fields of \<open>pki_lib\<close>.
\<close>

type_synonym root_store = "bytes list"
type_synonym peer_certificate_chain = "bytes list"

record server_trust_policy =
  st_anchors_by_domain :: "(string \<times> root_store) list"
  st_anchors_by_dns_identity :: "(string \<times> root_store) list"
  st_denied_certificate_fingerprints_sha256 :: "string list"
  st_allow_dns_san_identity :: bool

fun add_roots :: "host \<Rightarrow> pki_lib \<Rightarrow> root_store \<Rightarrow> string list \<Rightarrow> connector_error + root_store" where
  "add_roots h pki roots [] = Inr roots"
| "add_roots h pki roots (path # paths) =
     and_then (map_err TlsError (load_single_ca_cert h pki path)) (\<lambda>cert.
     and_then (map_err (\<lambda>err. TlsError (''invalid trust anchor '' @ quoted path @ '': '' @ err))
                 (root_store_add pki cert)) (\<lambda>_.
     add_roots h pki (roots @ [cert]) paths))"

definition root_store_from_paths :: "host \<Rightarrow> pki_lib \<Rightarrow> string list \<Rightarrow> connector_error + root_store" where
  "root_store_from_paths h pki paths = add_roots h pki [] paths"

definition stores_for ::
  "host \<Rightarrow> pki_lib \<Rightarrow> (string \<times> string list) list \<Rightarrow> connector_error + (string \<times> root_store) list" where
  "stores_for h pki entries =
     try_map (\<lambda>(key, paths). and_then (root_store_from_paths h pki paths) (\<lambda>roots. Inr (key, roots)))
       entries"

definition server_trust_from_config ::
  "host \<Rightarrow> pki_lib \<Rightarrow> 'u connector_config \<Rightarrow> connector_error + server_trust_policy" where
  "server_trust_from_config h pki config =
     and_then (stores_for h pki (trust_domain_map config)) (\<lambda>by_domain.
     and_then (stores_for h pki (dns_identity_map config)) (\<lambda>by_dns.
     Inr \<lparr>st_anchors_by_domain = by_domain,
          st_anchors_by_dns_identity = by_dns,
          st_denied_certificate_fingerprints_sha256 =
            (case cc_client_trust config of
               None \<Rightarrow> []
             | Some trust \<Rightarrow>
                 btree_set (map to_ascii_lowercase (ct_denied_certificate_fingerprints_sha256 trust))),
          st_allow_dns_san_identity = cc_allow_dns_san_identity config\<rparr>))"

definition verify_chain_against_roots ::
  "pki_lib \<Rightarrow> int \<Rightarrow> root_store \<Rightarrow> peer_certificate_chain \<Rightarrow> string + unit" where
  "verify_chain_against_roots pki now roots chain =
     and_then (client_verifier_build pki roots) (\<lambda>_.
     case chain of
       [] \<Rightarrow> Inl ''peer did not present a certificate''
     | leaf # intermediates \<Rightarrow>
         map_err (\<lambda>err. ''peer certificate does not chain to bound trust domain anchor: '' @ err)
           (verify_client_cert pki roots leaf intermediates now))"

text \<open>\<open>tls.rs\<close> has its own copy of the function of \<open>config.rs\<close>.\<close>

definition tls_spiffe_trust_domain :: "string \<Rightarrow> string option" where
  "tls_spiffe_trust_domain identity =
     option_filter (\<lambda>value. value \<noteq> [])
       (Option.bind (strip_prefix identity ''spiffe://'')
          (\<lambda>rest. case split_char CHR ''/'' rest of [] \<Rightarrow> None | seg # _ \<Rightarrow> Some seg))"

lemma tls_spiffe_trust_domain_eq [simp]: "tls_spiffe_trust_domain identity = spiffe_trust_domain identity"
  by (simp add: tls_spiffe_trust_domain_def spiffe_trust_domain_def)

definition verify_peer ::
  "pki_lib \<Rightarrow> int \<Rightarrow> server_trust_policy \<Rightarrow> peer_certificate_chain \<Rightarrow> string + peer_identity" where
  "verify_peer pki now policy chain =
     and_then (ok_or ''peer did not present a certificate''
                 (case chain of [] \<Rightarrow> None | leaf # _ \<Rightarrow> Some leaf)) (\<lambda>leaf.
     and_then (extract_peer_identity_from_der pki now leaf (st_allow_dns_san_identity policy)) (\<lambda>identity.
     if pi_fingerprint_sha256 identity \<in> set (st_denied_certificate_fingerprints_sha256 policy)
     then Inl ''peer certificate fingerprint is denied''
     else
       and_then
         (case tls_spiffe_trust_domain (pi_value identity) of
            Some domain \<Rightarrow>
              and_then (ok_or (''no trust anchor for trust domain '' @ quoted domain)
                          (map_of (st_anchors_by_domain policy) domain)) (\<lambda>roots.
              verify_chain_against_roots pki now roots chain)
          | None \<Rightarrow>
              if \<not> st_allow_dns_san_identity policy
              then Inl ''DNS SAN identity fallback is disabled''
              else
                and_then (ok_or (''no trust anchor is bound to DNS SAN identity '' @ quoted (pi_value identity))
                            (map_of (st_anchors_by_dns_identity policy) (pi_value identity))) (\<lambda>roots.
                verify_chain_against_roots pki now roots chain))
         (\<lambda>_. Inr identity)))"

section \<open>TLS end points\<close>

text \<open>The server's TLS configuration: its certificates and key, and the roots client certificates must chain to.\<close>

record server_tls_config =
  sc_certs :: "bytes list"
  sc_key :: bytes
  sc_client_roots :: root_store

definition server_config ::
  "host \<Rightarrow> pki_lib \<Rightarrow> 'u connector_config \<Rightarrow> connector_error + server_tls_config" where
  "server_config h pki config =
     and_then (ok_or (InvalidConfig ''server mode requires server_identity'') (cc_server_identity config)) (\<lambda>identity.
     and_then (map_err TlsError (load_certs h pki (if_cert identity))) (\<lambda>certs.
     and_then (map_err TlsError (load_private_key h pki (if_key identity))) (\<lambda>key.
     and_then (ok_or (InvalidConfig ''server mode requires client_trust'') (cc_client_trust config)) (\<lambda>trust.
     and_then (root_store_from_paths h pki (map ta_ca (ct_trust_anchors trust))) (\<lambda>roots.
     and_then (map_err (\<lambda>err. TlsError (''client verifier setup failed: '' @ err))
                 (client_verifier_build pki roots)) (\<lambda>_.
     and_then (map_err (\<lambda>err. TlsError (''server identity setup failed: '' @ err))
                 (with_single_cert pki certs key)) (\<lambda>_.
     Inr \<lparr>sc_certs = certs, sc_key = key, sc_client_roots = roots\<rparr>)))))))"

text \<open>The settings the client connector's HTTP client is built with.\<close>

record mtls_client =
  mc_identity_pem :: bytes
  mc_roots :: "bytes list"
  mc_timeout :: nat
  mc_use_proxy :: bool
  mc_follow_redirects :: bool
  mc_built_in_roots :: bool

definition reqwest_mtls_client ::
  "host \<Rightarrow> pki_lib \<Rightarrow> identity_files \<Rightarrow> string \<Rightarrow> nat \<Rightarrow> connector_error + mtls_client" where
  "reqwest_mtls_client h pki identity trust_bundle timeout =
     and_then (map_err TlsError (read_identity_pem h (if_cert identity) (if_key identity))) (\<lambda>pem.
     and_then (map_err (\<lambda>err. TlsError (''failed to load client identity for reqwest: '' @ err))
                 (identity_from_pem pki pem)) (\<lambda>_.
     and_then (map_err TlsError (read_ca_pem h pki trust_bundle)) (\<lambda>cas.
     and_then (map_err (\<lambda>err. TlsError (''failed to build mTLS client: '' @ err)) (client_build pki cas)) (\<lambda>_.
     Inr \<lparr>mc_identity_pem = pem, mc_roots = cas, mc_timeout = timeout,
          mc_use_proxy = False, mc_follow_redirects = False, mc_built_in_roots = False\<rparr>))))"

section \<open>Roots bound to an identity\<close>

text \<open>The CA files bound to an identity by the configuration, as the code's maps list them.\<close>

definition bound_ca_paths :: "'u connector_config \<Rightarrow> peer_identity \<Rightarrow> string list option" where
  "bound_ca_paths config identity =
     (case spiffe_trust_domain (pi_value identity) of
        Some domain \<Rightarrow> map_of (trust_domain_map config) domain
      | None \<Rightarrow>
          if cc_allow_dns_san_identity config
          then map_of (dns_identity_map config) (pi_value identity) else None)"

lemma stores_for_lookup:
  assumes "stores_for h pki entries = Inr stores"
  shows "map_of stores k = Some roots \<longleftrightarrow>
    (\<exists>paths. map_of entries k = Some paths \<and> root_store_from_paths h pki paths = Inr roots)"
proof -
  have "list_all2 (\<lambda>(k, paths) (k', roots). k = k' \<and> root_store_from_paths h pki paths = Inr roots)
    entries stores"
    using assms unfolding stores_for_def try_map_Inr_iff
    by (rule list_all2_mono) (auto simp: result_simps)
  then show ?thesis
    by (induction entries stores rule: list_all2_induct) auto
qed

lemma add_roots_Inr_iff:
  "add_roots h pki roots paths = Inr out \<longleftrightarrow>
     (\<exists>certs. out = roots @ certs
        \<and> list_all2 (\<lambda>path cert. load_single_ca_cert h pki path = Inr cert
             \<and> root_store_add pki cert = Inr ()) paths certs)"
proof (induction paths arbitrary: roots)
  case (Cons path paths)
  show ?case
    by (simp add: result_simps Cons.IH list_all2_Cons1) fastforce
qed auto

lemma root_store_from_paths_Inr_iff:
  "root_store_from_paths h pki paths = Inr roots \<longleftrightarrow>
     list_all2 (\<lambda>path cert. load_single_ca_cert h pki path = Inr cert
       \<and> root_store_add pki cert = Inr ()) paths roots"
  by (simp add: root_store_from_paths_def add_roots_Inr_iff)

lemma verify_chain_Inr_iff:
  "verify_chain_against_roots pki now roots chain = Inr () \<longleftrightarrow>
     client_verifier_build pki roots = Inr () \<and>
     (\<exists>leaf rest. chain = leaf # rest \<and> verify_client_cert pki roots leaf rest now = Inr ())"
  by (auto simp: verify_chain_against_roots_def result_simps split: list.splits)

lemma verify_peer_Inr_iff:
  "verify_peer pki now policy chain = Inr identity \<longleftrightarrow>
     (\<exists>leaf rest roots. chain = leaf # rest
        \<and> extract_peer_identity_from_der pki now leaf (st_allow_dns_san_identity policy) = Inr identity
        \<and> pi_fingerprint_sha256 identity \<notin> set (st_denied_certificate_fingerprints_sha256 policy)
        \<and> (case spiffe_trust_domain (pi_value identity) of
             Some domain \<Rightarrow> map_of (st_anchors_by_domain policy) domain = Some roots
           | None \<Rightarrow> st_allow_dns_san_identity policy
               \<and> map_of (st_anchors_by_dns_identity policy) (pi_value identity) = Some roots)
        \<and> client_verifier_build pki roots = Inr ()
        \<and> verify_client_cert pki roots leaf rest now = Inr ())"
  by (cases chain; cases "spiffe_trust_domain (pi_value identity)"; cases "st_allow_dns_san_identity policy")
    (simp_all add: verify_peer_def result_simps verify_chain_Inr_iff conj_ac cong: conj_cong, blast+)

lemma server_trust_from_config_Inr_iff:
  "server_trust_from_config h pki config = Inr policy \<longleftrightarrow>
     stores_for h pki (trust_domain_map config) = Inr (st_anchors_by_domain policy)
     \<and> stores_for h pki (dns_identity_map config) = Inr (st_anchors_by_dns_identity policy)
     \<and> st_denied_certificate_fingerprints_sha256 policy =
         (case cc_client_trust config of None \<Rightarrow> []
          | Some trust \<Rightarrow>
              btree_set (map to_ascii_lowercase (ct_denied_certificate_fingerprints_sha256 trust)))
     \<and> st_allow_dns_san_identity policy = cc_allow_dns_san_identity config"
  by (cases policy) (auto simp: server_trust_from_config_def result_simps)

text \<open>
  Acceptance of a peer, over the configuration: the policy built from a configuration accepts a
  chain exactly when the leaf yields the identity, its fingerprint is not denied, and the chain
  verifies against the CA certificates bound to that identity.
\<close>

lemma verify_peer_config_iff:
  assumes "server_trust_from_config h pki config = Inr policy"
    and "cc_client_trust config = Some trust"
  shows "verify_peer pki now policy chain = Inr identity \<longleftrightarrow>
     (\<exists>leaf rest paths roots. chain = leaf # rest
        \<and> extract_peer_identity_from_der pki now leaf (cc_allow_dns_san_identity config) = Inr identity
        \<and> pi_fingerprint_sha256 identity
            \<notin> to_ascii_lowercase ` set (ct_denied_certificate_fingerprints_sha256 trust)
        \<and> bound_ca_paths config identity = Some paths
        \<and> root_store_from_paths h pki paths = Inr roots
        \<and> client_verifier_build pki roots = Inr ()
        \<and> verify_client_cert pki roots leaf rest now = Inr ())"
proof -
  from assms have p: "stores_for h pki (trust_domain_map config) = Inr (st_anchors_by_domain policy)"
    "stores_for h pki (dns_identity_map config) = Inr (st_anchors_by_dns_identity policy)"
    "set (st_denied_certificate_fingerprints_sha256 policy)
      = to_ascii_lowercase ` set (ct_denied_certificate_fingerprints_sha256 trust)"
    "st_allow_dns_san_identity policy = cc_allow_dns_san_identity config"
    by (simp_all add: server_trust_from_config_Inr_iff)
  show ?thesis
    unfolding verify_peer_Inr_iff bound_ca_paths_def p(3,4)
    by (cases "spiffe_trust_domain (pi_value identity)")
      (auto simp: stores_for_lookup [OF p(1)] stores_for_lookup [OF p(2)])
qed

text \<open>An anchor vouches for an identity.\<close>

definition anchor_binds :: "'u connector_config \<Rightarrow> peer_identity \<Rightarrow> trust_anchor_config \<Rightarrow> bool" where
  "anchor_binds config identity a =
     (case spiffe_trust_domain (pi_value identity) of
        Some domain \<Rightarrow> ta_trust_domain a = domain
      | None \<Rightarrow> cc_allow_dns_san_identity config \<and> pi_value identity \<in> set (ta_dns_identities a))"

lemma bound_ca_paths_anchor:
  assumes "bound_ca_paths config identity = Some paths" and "cc_client_trust config = Some trust"
    and "path \<in> set paths"
  shows "\<exists>a \<in> set (ct_trust_anchors trust). ta_ca a = path \<and> anchor_binds config identity a"
proof (cases "spiffe_trust_domain (pi_value identity)")
  case None
  with assms show ?thesis
    by (auto simp: bound_ca_paths_def anchor_binds_def dns_identity_map_lookup [OF assms(2)] Let_def
        split: if_splits) blast
next
  case (Some domain)
  with assms show ?thesis
    by (auto simp: bound_ca_paths_def anchor_binds_def trust_domain_map_lookup [OF assms(2)] split: if_splits)
qed


lemma bound_ca_paths_nonempty:
  assumes "bound_ca_paths config identity = Some paths" and "cc_client_trust config = Some trust"
  shows "paths \<noteq> []"
proof (cases "spiffe_trust_domain (pi_value identity)")
  case None
  with assms(1) have "map_of (dns_identity_map config) (pi_value identity) = Some paths"
    by (simp add: bound_ca_paths_def split: if_split_asm)
  then show ?thesis
    unfolding dns_identity_map_lookup [OF assms(2)] Let_def if_Some_iff by (elim conjE, hypsubst, elim values_at_nonempty)
next
  case (Some domain)
  with assms(1) have "map_of (trust_domain_map config) domain = Some paths"
    by (simp add: bound_ca_paths_def)
  then show ?thesis
    unfolding trust_domain_map_lookup [OF assms(2)] if_Some_iff by (elim conjE, hypsubst, elim values_at_nonempty)
qed

lemma root_store_from_paths_mem:
  assumes "root_store_from_paths h pki paths = Inr roots" and "root \<in> set roots"
  shows "\<exists>path \<in> set paths. load_single_ca_cert h pki path = Inr root"
  using assms unfolding root_store_from_paths_Inr_iff
  by (induction paths roots rule: list_all2_induct) auto

lemma verify_peer_roots:
  assumes "server_trust_from_config h pki config = Inr policy"
    and "cc_client_trust config = Some trust"
    and "verify_peer pki now policy chain = Inr identity"
  shows "\<exists>leaf rest roots. chain = leaf # rest
    \<and> extract_peer_identity_from_der pki now leaf (cc_allow_dns_san_identity config) = Inr identity
    \<and> pi_fingerprint_sha256 identity
        \<notin> to_ascii_lowercase ` set (ct_denied_certificate_fingerprints_sha256 trust)
    \<and> verify_client_cert pki roots leaf rest now = Inr ()
    \<and> roots \<noteq> []
    \<and> (\<forall>root \<in> set roots. \<exists>a \<in> set (ct_trust_anchors trust).
          anchor_binds config identity a \<and> load_single_ca_cert h pki (ta_ca a) = Inr root)"
proof -
  from assms(3) obtain leaf rest paths roots where v: "chain = leaf # rest"
    "bound_ca_paths config identity = Some paths" "root_store_from_paths h pki paths = Inr roots"
    "verify_client_cert pki roots leaf rest now = Inr ()"
    and i: "extract_peer_identity_from_der pki now leaf (cc_allow_dns_san_identity config) = Inr identity"
      "pi_fingerprint_sha256 identity
        \<notin> to_ascii_lowercase ` set (ct_denied_certificate_fingerprints_sha256 trust)"
    unfolding verify_peer_config_iff [OF assms(1,2)] by blast
  have "\<forall>root \<in> set roots. \<exists>a \<in> set (ct_trust_anchors trust).
      anchor_binds config identity a \<and> load_single_ca_cert h pki (ta_ca a) = Inr root"
    using root_store_from_paths_mem [OF v(3)] bound_ca_paths_anchor [OF v(2) assms(2)] by metis
  moreover from v(3) bound_ca_paths_nonempty [OF v(2) assms(2)] have "roots \<noteq> []"
    by (auto simp: root_store_from_paths_Inr_iff)
  ultimately show ?thesis using v i by blast
qed

section \<open>A concrete configuration\<close>

definition example_anchor :: "string \<Rightarrow> string \<Rightarrow> trust_anchor_config" where
  "example_anchor domain ca = \<lparr>ta_ca = ca, ta_trust_domain = domain, ta_dns_identities = []\<rparr>"


definition example_trust :: client_trust_config where
  "example_trust =
     \<lparr>ct_allowed_identities = [''spiffe://a/b''],
      ct_trust_anchors = [example_anchor ''a'' ''ca-a'', example_anchor ''z'' ''ca-z''],
      ct_denied_certificate_fingerprints_sha256 = [concat (replicate 32 ''CD'')],
      ct_trust_context_entitlements = []\<rparr>"

definition example_config :: "'u \<Rightarrow> route_config list \<Rightarrow> 'u connector_config" where
  "example_config base routes =
     \<lparr>cc_listen = ListenTcp \<lparr>sa_ip = IpV4 0x7F000001, sa_port = 8443\<rparr>,
      cc_server = None, cc_client_identity = None,
      cc_defaults = \<lparr>df_data_purpose = None\<rparr>,
      cc_audit = \<lparr>au_hash_secret_env = Some ''AUDIT'', au_allow_unkeyed_hashing = False\<rparr>,
      cc_limits = default_limits, cc_routes = routes,
      cc_server_identity = Some \<lparr>if_cert = ''server.pem'', if_key = ''server.key''\<rparr>,
      cc_client_trust = Some example_trust,
      cc_upstream = Some
        \<lparr>up_base_url = base, up_default_auth_header_env = None,
         up_auth_header_name = ''Authorization'', up_auth_header_scheme = ''Bearer''\<rparr>,
      cc_allow_non_loopback_client_listen = False, cc_allow_dns_san_identity = False,
      cc_connector_id = None\<rparr>"


lemmas example_defs = example_cert_def example_host_def example_anchor_def example_config_def
  example_trust_def

definition example_policy :: server_trust_policy where
  "example_policy =
     \<lparr>st_anchors_by_domain = [(''a'', [''ca-a'']), (''z'', [''ca-z''])],
      st_anchors_by_dns_identity = [],
      st_denied_certificate_fingerprints_sha256 = [hex_encode (replicate 32 205)],
      st_allow_dns_san_identity = False\<rparr>"

lemma example_config_trust: "cc_client_trust (example_config base routes) = Some example_trust"
  by (simp add: example_config_def)

lemma example_policy_built:
  "server_trust_from_config example_host example_pki (example_config base routes) = Inr example_policy"
  by (simp add: example_policy_def server_trust_from_config_def example_defs stores_for_def
      root_store_from_paths_def load_single_ca_cert_def load_certs_def trust_domain_map_def
      dns_identity_map_def entry_push_def rust_eval btree_set_def map_concat)


lemma replicate_32: "replicate 32 x = x # replicate 31 x"
  by (simp add: numeral_eq_Suc)

lemma example_peer_verified:
  "verify_peer example_pki 5 example_policy [''b:ca-a''] = Inr example_identity"
proof -
  note example_peer_extracted
  moreover have "spiffe_trust_domain ''spiffe://a/b'' = Some ''a''"
    by (simp add: spiffe_trust_domain_takeWhile option_filter_def rust_eval)
  moreover have "hex_encode (replicate 32 (171 :: 8 word)) \<noteq> hex_encode (replicate 32 205)"
    by (simp add: replicate_32 rust_eval)
  ultimately show ?thesis
    by (simp add: verify_peer_def example_policy_def example_identity_def verify_chain_against_roots_def)
qed

section \<open>Properties\<close>

text \<open>
  C29. A peer the server accepts presented a chain that verifies, now, against a root store made
  only of the CA certificates of the anchors bound to its identity: those of the trust domain
  in its SPIFFE identifier, or, for an identity without trust domain and only when DNS
  identities are enabled, those that list the identity by name. Another domain's anchor never
  vouches for it.
\<close>

theorem verify_peer_bound_anchor:
  assumes "server_trust_from_config h pki config = Inr policy"
    and "cc_client_trust config = Some trust"
    and "verify_peer pki now policy chain = Inr identity"
  shows "\<exists>leaf rest roots. chain = leaf # rest
    \<and> verify_client_cert pki roots leaf rest now = Inr ()
    \<and> roots \<noteq> []
    \<and> (\<forall>root \<in> set roots. \<exists>a \<in> set (ct_trust_anchors trust).
          anchor_binds config identity a \<and> load_single_ca_cert h pki (ta_ca a) = Inr root)"
  using verify_peer_roots [OF assms] by blast

theorem verify_peer_bound_anchor_witness:
  "\<exists>leaf rest roots. [''b:ca-a''] = leaf # rest
    \<and> verify_client_cert example_pki roots leaf rest 5 = Inr ()
    \<and> roots \<noteq> []
    \<and> (\<forall>root \<in> set roots. \<exists>a \<in> set (ct_trust_anchors example_trust).
          anchor_binds (example_config () []) example_identity a
          \<and> load_single_ca_cert example_host example_pki (ta_ca a) = Inr root)"
  by (rule verify_peer_bound_anchor [OF example_policy_built example_config_trust example_peer_verified])

text \<open>
  C30. The denylist is effective whatever the letter case it is written in: a chain whose leaf
  has a listed fingerprint is refused, whoever issued it.
\<close>

theorem denied_fingerprint_rejected:
  assumes "server_trust_from_config h pki config = Inr policy"
    and "cc_client_trust config = Some trust"
    and "fp \<in> set (ct_denied_certificate_fingerprints_sha256 trust)"
    and "to_ascii_lowercase fp = sha256_hex pki leaf"
  shows "\<exists>e. verify_peer pki now policy (leaf # rest) = Inl e"
proof (cases "verify_peer pki now policy (leaf # rest)")
  case (Inr identity)
  then have "extract_peer_identity_from_der pki now leaf (cc_allow_dns_san_identity config) = Inr identity"
    "pi_fingerprint_sha256 identity
      \<notin> to_ascii_lowercase ` set (ct_denied_certificate_fingerprints_sha256 trust)"
    unfolding verify_peer_config_iff [OF assms(1,2)] by auto
  with assms(3,4) have False by (metis extract_identity_Inr_iff image_eqI)
  then show ?thesis ..
qed blast

theorem denied_fingerprint_rejected_witness:
  "\<exists>e. verify_peer example_pki 5 example_policy [''x:ca-a''] = Inl e"
proof -
  have fp: "to_ascii_lowercase (concat (replicate 32 ''CD'')) = sha256_hex example_pki ''x:ca-a''"
    by (simp add: rust_eval map_concat)
  have d: "concat (replicate 32 ''CD'') \<in> set (ct_denied_certificate_fingerprints_sha256 example_trust)"
    by (simp add: example_trust_def)
  show ?thesis
    by (rule denied_fingerprint_rejected [OF example_policy_built example_config_trust d fp])
qed

end
