(* ===== verification/Connector_Platform.thy ===== *)
theory Connector_Platform
  imports Connector_Identity
begin

text \<open>
  The libraries the connector is built on that are not part of the repository: header maps and
  header filtering, URLs, message bodies and the audit hasher. Each is a record of the functions
  the source calls, passed to the definitions that call them; what the theorems rely on is a
  predicate on the record that states the library's documented behaviour. The last section gives
  concrete instances that satisfy the predicates.
\<close>

section \<open>Header maps\<close>

text \<open>
  \<open>HeaderName\<close> and \<open>HeaderValue\<close> are the strings they hold; names are in lower case, as the
  crate normalises them. \<open>into_iter\<close> of a header map yields the name only with the first value
  of each header. \<open>ProxyHeaderPolicy\<close> is the record of the settings the builder was given.
\<close>

record header_policy =
  hp_allow_authorization :: bool
  hp_allow_cookie :: bool
  hp_private_prefixes :: "string list"

definition strict_policy :: header_policy where
  "strict_policy = \<lparr>hp_allow_authorization = False, hp_allow_cookie = False, hp_private_prefixes = []\<rparr>"

record 'h header_lib =
  hm_get :: "'h \<Rightarrow> string \<Rightarrow> bytes option"
  hm_get_all :: "'h \<Rightarrow> string \<Rightarrow> bytes list"
  hm_contains_key :: "'h \<Rightarrow> string \<Rightarrow> bool"
  hm_insert :: "'h \<Rightarrow> string \<Rightarrow> bytes \<Rightarrow> 'h"
  hm_remove :: "'h \<Rightarrow> string \<Rightarrow> 'h"
  hm_into_iter :: "'h \<Rightarrow> (string option \<times> bytes) list"
  hm_iter :: "'h \<Rightarrow> (string \<times> bytes) list"
  hn_from_bytes :: "bytes \<Rightarrow> string option"
  hv_from_str :: "string \<Rightarrow> bytes option"
  hv_to_str :: "bytes \<Rightarrow> string option"
  filter_proxy_request_headers :: "'h \<Rightarrow> header_policy \<Rightarrow> 'h"
  filter_proxy_response_headers :: "'h \<Rightarrow> 'h"

text \<open>The documented behaviour of \<open>HeaderMap\<close> and \<open>HeaderValue\<close>.\<close>

definition header_map_laws :: "'h header_lib \<Rightarrow> bool" where
  "header_map_laws hl =
     ((\<forall>h n. hm_get hl h n = (case hm_get_all hl h n of [] \<Rightarrow> None | v # _ \<Rightarrow> Some v))
      \<and> (\<forall>h n. hm_contains_key hl h n = (hm_get_all hl h n \<noteq> []))
      \<and> (\<forall>h n v m. hm_get_all hl (hm_insert hl h n v) m = (if m = n then [v] else hm_get_all hl h m))
      \<and> (\<forall>h n m. hm_get_all hl (hm_remove hl h n) m = (if m = n then [] else hm_get_all hl h m))
      \<and> (\<forall>h n v. (Some n, v) \<in> set (hm_into_iter hl h) \<longleftrightarrow> hm_get hl h n = Some v)
      \<and> (\<forall>h. distinct (filter (\<lambda>n. n \<noteq> None) (map fst (hm_into_iter hl h))))
      \<and> (\<forall>s v. hv_from_str hl s = Some v \<longrightarrow> v = s)
      \<and> (\<forall>v s. hv_to_str hl v = Some s \<longrightarrow> s = v))"

text \<open>
  Text in header values: \<open>to_str\<close> succeeds exactly on visible ASCII, space and tab, and
  \<open>from_str\<close> accepts such text.
\<close>

definition visible :: "string \<Rightarrow> bool" where
  "visible = list_all (\<lambda>c. of_char c \<ge> (32 :: nat) \<and> of_char c < (127 :: nat) \<or> of_char c = (9 :: nat))"

definition header_text_laws :: "'h header_lib \<Rightarrow> bool" where
  "header_text_laws hl =
     ((\<forall>s. visible s \<longrightarrow> hv_from_str hl s = Some s \<and> hv_to_str hl s = Some s)
      \<and> (\<forall>v s. hv_to_str hl v = Some s \<longrightarrow> visible s))"

text \<open>
  What the connector relies on in the platform's request filter: it only removes headers, and it
  removes the private prefixes and, unless the policy allows them, the caller's credentials.
\<close>

definition request_filter_laws :: "'h header_lib \<Rightarrow> bool" where
  "request_filter_laws hl =
     (\<forall>h p n. hm_get_all hl (filter_proxy_request_headers hl h p) n \<in> {[], hm_get_all hl h n}
        \<and> ((\<exists>pre \<in> set (hp_private_prefixes p). starts_with n pre) \<longrightarrow>
             hm_get_all hl (filter_proxy_request_headers hl h p) n = [])
        \<and> (n = ''authorization'' \<and> \<not> hp_allow_authorization p \<longrightarrow>
             hm_get_all hl (filter_proxy_request_headers hl h p) n = [])
        \<and> (n = ''cookie'' \<and> \<not> hp_allow_cookie p \<longrightarrow>
             hm_get_all hl (filter_proxy_request_headers hl h p) n = []))"

section \<open>URLs, bodies, audit hashing\<close>

text \<open>\<open>before_path\<close> is the slice \<open>&url[..Position::BeforePath]\<close>.\<close>

record 'u url_lib =
  url_scheme :: "'u \<Rightarrow> string"
  url_path :: "'u \<Rightarrow> string"
  before_path :: "'u \<Rightarrow> string"
  url_parse :: "string \<Rightarrow> 'u option"

text \<open>
  Bodies and responses of the HTTP libraries: \<open>to_bytes\<close> collects a request body up to a
  limit, \<open>read_bounded\<close> a response body; a method and a status code are rebuilt from their
  wire form, and a response from its parts.
\<close>

record ('b, 'r, 'h) wire_lib =
  to_bytes :: "'b \<Rightarrow> usize \<Rightarrow> bytes option"
  method_from_bytes :: "bytes \<Rightarrow> string option"
  status_from_u16 :: "16 word \<Rightarrow> nat option"
  rs_status :: "'r \<Rightarrow> 16 word"
  rs_headers :: "'r \<Rightarrow> 'h"
  read_bounded :: "'r \<Rightarrow> u64 \<Rightarrow> bytes option"
  response_build :: "nat \<Rightarrow> (string \<times> bytes) list \<Rightarrow> bytes \<Rightarrow> bool"

definition wire_laws :: "('b, 'r, 'h) wire_lib \<Rightarrow> bool" where
  "wire_laws wl =
     ((\<forall>b n bs. to_bytes wl b n = Some bs \<longrightarrow> length bs \<le> unat n)
      \<and> (\<forall>r n bs. read_bounded wl r n = Some bs \<longrightarrow> length bs \<le> unat n)
      \<and> (\<forall>m m'. method_from_bytes wl m = Some m' \<longrightarrow> m' = m)
      \<and> (\<forall>c n. status_from_u16 wl c = Some n \<longrightarrow> n = unat c \<and> 100 \<le> n \<and> n < 1000))"

text \<open>\<open>AuditKeyHasher\<close>: a keyed hasher from an environment variable or an unkeyed one.\<close>

record 'k audit_lib =
  hasher_from_env :: "string \<Rightarrow> string + 'k"
  hasher_unkeyed_dev_only :: 'k
  audit_reference_hash :: "'k \<Rightarrow> string \<Rightarrow> string \<Rightarrow> string \<Rightarrow> string option"

section \<open>The platform\<close>

record ('u, 'h, 'k) platform =
  pf_host :: host
  pf_pki :: pki_lib
  pf_decode :: "string \<Rightarrow> string option"
  pf_headers :: "'h header_lib"
  pf_url :: "'u url_lib"
  pf_audit :: "'k audit_lib"

section \<open>Consequences of the laws\<close>

lemma header_get_insert:
  "header_map_laws hl \<Longrightarrow> hm_get hl (hm_insert hl h n v) m = (if m = n then Some v else hm_get hl h m)"
  by (simp add: header_map_laws_def)

lemma header_get_remove:
  "header_map_laws hl \<Longrightarrow> hm_get hl (hm_remove hl h n) m = (if m = n then None else hm_get hl h m)"
  by (simp add: header_map_laws_def)

lemma header_get_all_Nil_iff: "header_map_laws hl \<Longrightarrow> hm_get_all hl h n = [] \<longleftrightarrow> hm_get hl h n = None"
  by (auto simp: header_map_laws_def split: list.splits)

lemma header_into_iter_iff:
  "header_map_laws hl \<Longrightarrow> (Some n, v) \<in> set (hm_into_iter hl h) \<longleftrightarrow> hm_get hl h n = Some v"
  by (simp add: header_map_laws_def)

lemma header_value_ids:
  assumes "header_map_laws hl"
  shows "hv_from_str hl s = Some v \<Longrightarrow> v = s" and "hv_to_str hl v = Some s \<Longrightarrow> s = v"
  using assms by (simp_all add: header_map_laws_def)

lemma header_filter_get:
  assumes "header_map_laws hl" and "request_filter_laws hl"
  shows "hm_get hl (filter_proxy_request_headers hl h p) n = Some v \<Longrightarrow> hm_get hl h n = Some v"
    and "pre \<in> set (hp_private_prefixes p) \<Longrightarrow> starts_with n pre
      \<Longrightarrow> hm_get hl (filter_proxy_request_headers hl h p) n = None"
    and "\<not> hp_allow_authorization p \<Longrightarrow> hm_get hl (filter_proxy_request_headers hl h p) ''authorization'' = None"
    and "\<not> hp_allow_cookie p \<Longrightarrow> hm_get hl (filter_proxy_request_headers hl h p) ''cookie'' = None"
proof -
  let ?f = "filter_proxy_request_headers hl h p"
  have f: "hm_get_all hl ?f n \<in> {[], hm_get_all hl h n}"
      "\<exists>pre \<in> set (hp_private_prefixes p). starts_with n pre \<Longrightarrow> hm_get_all hl ?f n = []"
      "\<not> hp_allow_authorization p \<Longrightarrow> hm_get_all hl ?f ''authorization'' = []"
      "\<not> hp_allow_cookie p \<Longrightarrow> hm_get_all hl ?f ''cookie'' = []" for n
    using assms(2) unfolding request_filter_laws_def by blast+
  have g: "hm_get hl x n = (case hm_get_all hl x n of [] \<Rightarrow> None | v # _ \<Rightarrow> Some v)" for x n
    using assms(1) by (simp add: header_map_laws_def)
  show "hm_get hl ?f n = Some v \<Longrightarrow> hm_get hl h n = Some v"
    using f(1) [of n] unfolding g by auto
  show "pre \<in> set (hp_private_prefixes p) \<Longrightarrow> starts_with n pre \<Longrightarrow> hm_get hl ?f n = None"
    unfolding g using f(2) [of n] by (metis list.simps(4))
  show "\<not> hp_allow_authorization p \<Longrightarrow> hm_get hl ?f ''authorization'' = None"
    and "\<not> hp_allow_cookie p \<Longrightarrow> hm_get hl ?f ''cookie'' = None"
    unfolding g by (simp_all add: f(3,4))
qed

section \<open>Concrete instances\<close>

text \<open>Header maps as lists of names and values, in order of insertion.\<close>

type_synonym header_list = "(string \<times> bytes) list"

definition list_get_all :: "header_list \<Rightarrow> string \<Rightarrow> bytes list" where
  "list_get_all h n = map snd (filter (\<lambda>(m, _). m = n) h)"

definition list_get :: "header_list \<Rightarrow> string \<Rightarrow> bytes option" where
  "list_get h n = (case list_get_all h n of [] \<Rightarrow> None | v # _ \<Rightarrow> Some v)"

definition list_remove :: "header_list \<Rightarrow> string \<Rightarrow> header_list" where
  "list_remove h n = filter (\<lambda>(m, _). m \<noteq> n) h"

fun list_into_iter :: "string list \<Rightarrow> header_list \<Rightarrow> (string option \<times> bytes) list" where
  "list_into_iter seen [] = []"
| "list_into_iter seen ((n, v) # h) =
     (if n \<in> set seen then (None, v) else (Some n, v)) # list_into_iter (n # seen) h"

definition header_dropped :: "header_policy \<Rightarrow> string \<Rightarrow> bool" where
  "header_dropped p n =
     (list_ex (starts_with n) (hp_private_prefixes p)
      \<or> n = ''authorization'' \<and> \<not> hp_allow_authorization p
      \<or> n = ''cookie'' \<and> \<not> hp_allow_cookie p)"

definition list_headers :: "header_list header_lib" where
  "list_headers =
     \<lparr>hm_get = list_get, hm_get_all = list_get_all,
      hm_contains_key = (\<lambda>h n. list_get_all h n \<noteq> []),
      hm_insert = (\<lambda>h n v. list_remove h n @ [(n, v)]), hm_remove = list_remove,
      hm_into_iter = list_into_iter [], hm_iter = id,
      hn_from_bytes = (\<lambda>n. if n = [] \<or> \<not> visible n then None else Some (to_ascii_lowercase n)),
      hv_from_str = (\<lambda>s. if visible s then Some s else None),
      hv_to_str = (\<lambda>v. if visible v then Some v else None),
      filter_proxy_request_headers = (\<lambda>h p. filter (\<lambda>(n, _). \<not> header_dropped p n) h),
      filter_proxy_response_headers = id\<rparr>"

lemma list_get_simps [simp]:
  "list_get [] n = None" "list_get ((m, v) # h) n = (if m = n then Some v else list_get h n)"
  by (simp_all add: list_get_def list_get_all_def)

lemma list_get_all_simps [simp]:
  "list_get_all [] n = []"
  "list_get_all ((m, v) # h) n = (if m = n then [v] else []) @ list_get_all h n"
  "list_get_all (h @ h') n = list_get_all h n @ list_get_all h' n"
  by (simp_all add: list_get_all_def)

lemma list_get_all_filter:
  "list_get_all (filter (\<lambda>(m, _). P m) h) n = (if P n then list_get_all h n else [])"
  by (induction h) auto

lemma list_into_iter_mem:
  "(Some n, v) \<in> set (list_into_iter seen h) \<longleftrightarrow> n \<notin> set seen \<and> list_get h n = Some v"
  by (induction seen h rule: list_into_iter.induct) (simp_all, blast)

lemma list_into_iter_names:
  "distinct (filter (\<lambda>n. n \<noteq> None) (map fst (list_into_iter seen h)))
   \<and> (\<forall>n \<in> set seen. Some n \<notin> set (map fst (list_into_iter seen h)))"
  by (induction seen h rule: list_into_iter.induct) auto

lemma list_headers_map_laws: "header_map_laws list_headers"
  unfolding header_map_laws_def
  by (simp add: list_headers_def list_into_iter_mem list_remove_def list_get_all_filter
      list_into_iter_names [THEN conjunct1, simplified])
    (simp add: list_get_def)

lemma list_headers_filter_laws: "request_filter_laws list_headers"
  unfolding request_filter_laws_def
  by (auto simp: list_headers_def list_get_all_filter header_dropped_def list_ex_iff)

lemma list_headers_text_laws: "header_text_laws list_headers"
  by (auto simp: header_text_laws_def list_headers_def split: if_splits)

end
