(* ===== verification/Connector_Validate.thy ===== *)
theory Connector_Validate
  imports Connector_Routing Connector_Tls Connector_Platform
begin

text \<open>
  Validation of a configuration (\<open>validate_config\<close> and its helpers in \<open>src/config.rs\<close>). The
  source collects messages in a vector it passes along; here every check returns the messages it
  adds, in order, and the checks are appended as the source runs them. The properties say what a
  configuration that passes guarantees to the request handlers.
\<close>

section \<open>Field checks\<close>

definition is_blank :: "string \<Rightarrow> bool" where
  "is_blank value = (trim value = [])"

definition some_blank :: "string option \<Rightarrow> bool" where
  "some_blank value = is_some_and is_blank value"

definition err_if :: "bool \<Rightarrow> string \<Rightarrow> string list" where
  "err_if b message = (if b then [message] else [])"

definition require_file :: "host \<Rightarrow> string \<Rightarrow> string \<Rightarrow> string list" where
  "require_file h field path =
     (if path = [] then [field @ '' must not be empty'']
      else if \<not> fs_exists h path then [field @ '' '' @ quoted path @ '' does not exist'']
      else [])"

definition collect_prefix_error ::
  "(string \<Rightarrow> string option) \<Rightarrow> string \<Rightarrow> string \<Rightarrow> string \<Rightarrow> string list" where
  "collect_prefix_error pd route_id field pre =
     (case validate_route_prefix pd pre of
        Inl err \<Rightarrow> [''route '' @ quoted route_id @ '' '' @ field @ '': '' @ err]
      | Inr _ \<Rightarrow> [])"

definition is_sha256_fingerprint :: "string \<Rightarrow> bool" where
  "is_sha256_fingerprint value = (length value = 64 \<and> list_all is_ascii_hexdigit value)"

definition is_hop_by_hop_header :: "string \<Rightarrow> bool" where
  "is_hop_by_hop_header name =
     (name \<in> {''connection'', ''keep-alive'', ''proxy-authenticate'', ''proxy-authorization'',
              ''te'', ''trailer'', ''transfer-encoding'', ''upgrade''})"

definition validate_upstream_auth_header_name :: "'h header_lib \<Rightarrow> string \<Rightarrow> string list" where
  "validate_upstream_auth_header_name hl name =
     (let msg = (\<lambda>tail. ''upstream.auth_header_name '' @ quoted name @ tail) in
      case hn_from_bytes hl name of
        None \<Rightarrow> [msg '' is not a valid HTTP header name'']
      | Some header_name \<Rightarrow>
          err_if (is_hop_by_hop_header header_name) (msg '' must not be a hop-by-hop header'')
          @ err_if (starts_with header_name ''x-registry-connector-'')
              (msg '' must not use the x-registry-connector-* private prefix''))"

definition validate_private_key_permissions :: "host \<Rightarrow> string \<Rightarrow> string \<Rightarrow> string list" where
  "validate_private_key_permissions h pre path =
     (case fs_mode h path of
        None \<Rightarrow> []
      | Some m \<Rightarrow> err_if (and m 63 \<noteq> 0)
          (pre @ ''.key must not be readable or writable by group or others''))"

definition validate_identity_files ::
  "host \<Rightarrow> pki_lib \<Rightarrow> int \<Rightarrow> string \<Rightarrow> identity_files \<Rightarrow> ek_usage \<Rightarrow> string list" where
  "validate_identity_files h pki now pre identity usage =
     require_file h (pre @ ''.cert'') (if_cert identity)
     @ require_file h (pre @ ''.key'') (if_key identity)
     @ validate_private_key_permissions h pre (if_key identity)
     @ (if fs_exists h (if_cert identity) \<and> fs_exists h (if_key identity)
        then (case validate_leaf_certificate h pki now (if_cert identity) (if_key identity) usage of
                Inl err \<Rightarrow> [pre @ '': '' @ err]
              | Inr _ \<Rightarrow> [])
        else [])"

definition require_audit_hash_env :: "'k audit_lib \<Rightarrow> 'u connector_config \<Rightarrow> string list" where
  "require_audit_hash_env al config =
     (case au_hash_secret_env (cc_audit config) of
        None \<Rightarrow> []
      | Some var \<Rightarrow>
          (case hasher_from_env al var of
             Inl err \<Rightarrow> [''required audit hash env var '' @ quoted var @ '' is invalid: '' @ err]
           | Inr _ \<Rightarrow> []))"

definition is_root_url_path :: "'u url_lib \<Rightarrow> 'u \<Rightarrow> bool" where
  "is_root_url_path ul url = (url_path ul url \<in> {'''', ''/''})"

section \<open>Governed policies and trust contexts\<close>

definition governed_route_policy_has_gate :: "governed_route_policy_config \<Rightarrow> bool" where
  "governed_route_policy_has_gate policy =
     (list_ex (\<lambda>v. \<not> is_blank v) (gp_permitted_purposes policy)
      \<or> list_ex (\<lambda>v. \<not> is_blank v) (gp_permitted_jurisdictions policy)
      \<or> list_ex (\<lambda>v. \<not> is_blank v) (gp_allowed_assurance policy)
      \<or> is_some_and (\<lambda>v. \<not> is_blank v) (gp_minimum_assurance policy)
      \<or> is_some_and (\<lambda>v. v > 0) (gp_max_source_age_seconds policy)
      \<or> gp_require_legal_basis policy
      \<or> gp_require_consent policy
      \<or> list_ex (\<lambda>v. \<not> is_blank v) (gp_redaction_fields policy)
      \<or> list_ex (\<lambda>v. \<not> is_blank v) (gp_unsupported_odrl_terms policy))"

definition validate_trusted_context_fields :: "string \<Rightarrow> governed_trusted_context_config \<Rightarrow> string list" where
  "validate_trusted_context_fields pre trusted =
     err_if (some_blank (tc_jurisdiction trusted)) (pre @ ''.jurisdiction must not be empty'')
     @ err_if (some_blank (tc_asserted_assurance trusted)) (pre @ ''.asserted_assurance must not be empty'')
     @ err_if (some_blank (tc_legal_basis_ref trusted)) (pre @ ''.legal_basis_ref must not be empty'')
     @ err_if (some_blank (tc_consent_ref trusted)) (pre @ ''.consent_ref must not be empty'')
     @ err_if (tc_source_observed_age_seconds trusted = Some 0)
         (pre @ ''.source_observed_age_seconds must be greater than zero'')"

definition trusted_context_has_assertion :: "governed_trusted_context_config \<Rightarrow> bool" where
  "trusted_context_has_assertion trusted =
     (is_some_and (\<lambda>v. \<not> is_blank v) (tc_jurisdiction trusted)
      \<or> is_some_and (\<lambda>v. \<not> is_blank v) (tc_asserted_assurance trusted)
      \<or> is_some_and (\<lambda>v. \<not> is_blank v) (tc_legal_basis_ref trusted)
      \<or> is_some_and (\<lambda>v. \<not> is_blank v) (tc_consent_ref trusted)
      \<or> is_some_and (\<lambda>v. v > 0) (tc_source_observed_age_seconds trusted))"

definition blank_entries :: "string list \<Rightarrow> string \<Rightarrow> string list" where
  "blank_entries values message = concat (map (\<lambda>value. err_if (is_blank value) message) values)"

definition validate_governed_route_policy :: "string \<Rightarrow> governed_route_policy_config \<Rightarrow> string list" where
  "validate_governed_route_policy route_id policy =
     (let pre = ''route '' @ quoted route_id @ '' governed_policy'' in
      err_if (\<not> governed_route_policy_has_gate policy) (pre @ '' must enforce at least one gate'')
      @ blank_entries (gp_permitted_purposes policy) (pre @ '' contains an empty permitted_purpose'')
      @ blank_entries (gp_permitted_jurisdictions policy) (pre @ '' contains an empty permitted_jurisdiction'')
      @ blank_entries (gp_allowed_assurance policy) (pre @ '' contains an empty allowed_assurance'')
      @ err_if (some_blank (gp_minimum_assurance policy)) (pre @ '' minimum_assurance must not be empty'')
      @ err_if (gp_max_source_age_seconds policy = Some 0)
          (pre @ '' max_source_age_seconds must be greater than zero'')
      @ blank_entries (gp_redaction_fields policy) (pre @ '' contains an empty redaction_field'')
      @ blank_entries (gp_unsupported_odrl_terms policy) (pre @ '' contains an empty unsupported_odrl_term'')
      @ validate_trusted_context_fields (pre @ '' trusted_context'') (gp_trusted_context policy))"

text \<open>
  \<open>validate_trust_context_entitlement\<close> threads the set of the identities seen so far; it
  returns that set and its messages.
\<close>

definition validate_trust_context_entitlement ::
  "client_trust_config \<Rightarrow> trust_context_entitlement_config \<Rightarrow> string list \<Rightarrow> string list \<times> string list" where
  "validate_trust_context_entitlement client_trust entitlement seen =
     (let identity = trim (te_client_identity entitlement) in
      if identity = []
      then (seen, [''client_trust.trust_context_entitlements[].client_identity must not be empty''])
      else
        (identity # seen,
         err_if (identity \<in> set seen)
           (''duplicate client_trust.trust_context_entitlements client_identity ''
            @ quoted (te_client_identity entitlement))
         @ err_if (\<not> list_ex (\<lambda>allowed. trim allowed = identity) (ct_allowed_identities client_trust))
             (''client_trust.trust_context_entitlements client_identity ''
              @ quoted (te_client_identity entitlement) @ '' not in client_trust.allowed_identities'')
         @ err_if (\<not> trusted_context_has_assertion (te_trusted_context entitlement))
             (''client_trust.trust_context_entitlements for '' @ quoted (te_client_identity entitlement)
              @ '' must grant at least one trust context assertion'')
         @ validate_trusted_context_fields ''client_trust.trust_context_entitlements[].trusted_context''
             (te_trusted_context entitlement)))"

fun validate_entitlements ::
  "client_trust_config \<Rightarrow> string list \<Rightarrow> trust_context_entitlement_config list \<Rightarrow> string list" where
  "validate_entitlements client_trust seen [] = []"
| "validate_entitlements client_trust seen (entitlement # rest) =
     (let (seen', messages) = validate_trust_context_entitlement client_trust entitlement seen
      in messages @ validate_entitlements client_trust seen' rest)"

section \<open>Routes\<close>

definition route_client_identities :: "route_config \<Rightarrow> string list" where
  "route_client_identities route =
     btree_set
       ((case option_filter (\<lambda>v. v \<noteq> []) (map_option trim (rt_client_identity route)) of
           None \<Rightarrow> [] | Some identity \<Rightarrow> [identity])
        @ filter (\<lambda>v. v \<noteq> []) (map trim (rt_client_identities route)))"

definition validate_route_common :: "(string \<Rightarrow> string option) \<Rightarrow> route_config \<Rightarrow> string list" where
  "validate_route_common pd route =
     err_if (rt_methods route = []) (''route '' @ quoted (rt_id route) @ '' must declare at least one method'')
     @ (case rt_local_prefix route of None \<Rightarrow> []
        | Some pre \<Rightarrow> collect_prefix_error pd (rt_id route) ''local_prefix'' pre)
     @ (case rt_upstream_prefix route of None \<Rightarrow> []
        | Some pre \<Rightarrow> collect_prefix_error pd (rt_id route) ''upstream_prefix'' pre)
     @ blank_entries (rt_purposes route) (''route '' @ quoted (rt_id route) @ '' contains an empty purpose'')
     @ blank_entries (rt_client_identities route)
         (''route '' @ quoted (rt_id route) @ '' contains an empty client_identities entry'')
     @ (case rt_governed_policy route of None \<Rightarrow> []
        | Some policy \<Rightarrow> validate_governed_route_policy (rt_id route) policy)"

fun validate_routes_common ::
  "(string \<Rightarrow> string option) \<Rightarrow> string list \<Rightarrow> route_config list \<Rightarrow> string list" where
  "validate_routes_common pd ids [] = []"
| "validate_routes_common pd ids (route # routes) =
     (if is_blank (rt_id route) then [''route without id'']
      else if rt_id route \<in> set ids then [''duplicate route id '' @ quoted (rt_id route)]
      else [])
     @ validate_route_common pd route
     @ validate_routes_common pd (if is_blank (rt_id route) then ids else rt_id route # ids) routes"

definition validate_audit :: "audit_config \<Rightarrow> string list" where
  "validate_audit audit =
     (case au_hash_secret_env audit of
        Some value \<Rightarrow> err_if (is_blank value) ''audit.hash_secret_env must not be empty''
      | None \<Rightarrow> err_if (\<not> au_allow_unkeyed_hashing audit)
          ''audit.hash_secret_env is required unless audit.allow_unkeyed_hashing is true'')"

definition validate_common :: "(string \<Rightarrow> string option) \<Rightarrow> 'u connector_config \<Rightarrow> string list" where
  "validate_common pd config =
     (let limits = cc_limits config in
      err_if (cc_routes config = []) ''routes must not be empty''
      @ err_if (lm_upstream_timeout_seconds limits = 0)
          ''limits.upstream_timeout_seconds must be greater than zero''
      @ err_if (lm_request_timeout_seconds limits = 0)
          ''limits.request_timeout_seconds must be greater than zero''
      @ err_if (lm_tls_handshake_timeout_seconds limits = 0)
          ''limits.tls_handshake_timeout_seconds must be greater than zero''
      @ err_if (lm_http1_header_read_timeout_seconds limits = 0)
          ''limits.http1_header_read_timeout_seconds must be greater than zero''
      @ err_if (lm_max_concurrent_requests limits = 0)
          ''limits.max_concurrent_requests must be greater than zero''
      @ err_if (lm_max_concurrent_connections limits = 0)
          ''limits.max_concurrent_connections must be greater than zero''
      @ err_if (lm_max_requests_per_identity_per_minute limits = 0)
          ''limits.max_requests_per_identity_per_minute must be greater than zero''
      @ validate_audit (cc_audit config)
      @ validate_routes_common pd [] (cc_routes config))"

section \<open>Client configurations\<close>

definition validate_client_route :: "'u connector_config \<Rightarrow> route_config \<Rightarrow> string list" where
  "validate_client_route config route =
     err_if (unwrap_or [] (rt_local_prefix route) = [])
       (''client route '' @ quoted (rt_id route) @ '' requires local_prefix'')
     @ err_if (unwrap_or [] (rt_upstream_prefix route) = [])
         (''client route '' @ quoted (rt_id route) @ '' requires upstream_prefix'')
     @ err_if (rt_require_purpose route
               \<and> rt_purpose_source route = Some StaticRouteDefault
               \<and> is_blank (unwrap_or [] (df_data_purpose (cc_defaults config))))
         (''client route '' @ quoted (rt_id route)
          @ '' needs defaults.data_purpose for static_route_default'')"

definition validate_client ::
  "('u, 'h, 'k) platform \<Rightarrow> int \<Rightarrow> 'u connector_config \<Rightarrow> bool \<Rightarrow> string list" where
  "validate_client pf now config require_env =
     err_if (\<not> listen_is_loopback (cc_listen config) \<and> \<not> cc_allow_non_loopback_client_listen config)
       ''client listen on non-loopback interfaces requires allow_non_loopback_client_listen: true''
     @ (case cc_server config of
          None \<Rightarrow> [''client config requires server'']
        | Some server \<Rightarrow>
            err_if (url_scheme (pf_url pf) (cs_url server) \<noteq> ''https'') ''client server.url must use https''
            @ err_if (\<not> is_root_url_path (pf_url pf) (cs_url server))
                ''client server.url must not include a path''
            @ require_file (pf_host pf) ''server.trust_bundle'' (cs_trust_bundle server)
            @ (case cc_client_identity config of
                 None \<Rightarrow> [''client config requires client_identity'']
               | Some identity \<Rightarrow>
                   validate_identity_files (pf_host pf) (pf_pki pf) now ''client_identity'' identity ClientAuth
                   @ concat (map (validate_client_route config) (cc_routes config))
                   @ (if require_env then require_audit_hash_env (pf_audit pf) config else [])))"

section \<open>Server configurations\<close>

definition validate_anchor :: "('u, 'h, 'k) platform \<Rightarrow> int \<Rightarrow> trust_anchor_config \<Rightarrow> string list" where
  "validate_anchor pf now anchor =
     require_file (pf_host pf) ''client_trust.trust_anchors[].ca'' (ta_ca anchor)
     @ err_if (is_blank (ta_trust_domain anchor))
         ''client_trust.trust_anchors[].trust_domain must not be empty''
     @ blank_entries (ta_dns_identities anchor)
         ''client_trust.trust_anchors[].dns_identities contains an empty identity''
     @ (case validate_ca_certificate (pf_host pf) (pf_pki pf) now (ta_ca anchor) of
          Inl err \<Rightarrow> [''trust anchor '' @ quoted (ta_ca anchor) @ '': '' @ err]
        | Inr _ \<Rightarrow> [])"

definition validate_allowed_identity ::
  "'u connector_config \<Rightarrow> string list \<Rightarrow> string \<Rightarrow> string list" where
  "validate_allowed_identity config trust_domains identity =
     (if is_blank identity then [''client_trust.allowed_identities contains an empty identity'']
      else case spiffe_trust_domain identity of
        Some domain \<Rightarrow>
          err_if (domain \<notin> set trust_domains)
            (''client identity '' @ quoted identity @ '' has no trust anchor for trust domain '' @ quoted domain)
      | None \<Rightarrow>
          if \<not> cc_allow_dns_san_identity config
          then [''client identity '' @ quoted identity
                @ '' is not a SPIFFE URI and DNS SAN fallback is disabled'']
          else err_if (identity \<notin> set (dns_identity_set config))
            (''DNS client identity '' @ quoted identity
             @ '' must be bound to at least one client_trust.trust_anchors[].dns_identities entry''))"

definition required_auth_envs :: "'u upstream_config \<Rightarrow> route_config list \<Rightarrow> string list" where
  "required_auth_envs upstream routes =
     btree_set ((case up_default_auth_header_env upstream of None \<Rightarrow> [] | Some var \<Rightarrow> [var])
       @ concat (map (\<lambda>r. case rt_upstream_auth_header_env r of None \<Rightarrow> [] | Some var \<Rightarrow> [var]) routes))"

definition validate_auth_env :: "('u, 'h, 'k) platform \<Rightarrow> string \<Rightarrow> string list" where
  "validate_auth_env pf var =
     (let msg = (\<lambda>tail. ''required upstream auth env var '' @ quoted var @ tail) in
      case env_var (pf_host pf) var of
        Some value \<Rightarrow>
          if \<not> is_blank value
          then err_if (hv_from_str (pf_headers pf) value = None)
            (msg '' contains invalid characters for an HTTP header value'')
          else [msg '' is empty'']
      | None \<Rightarrow> [msg '' is missing''])"

definition validate_server_route :: "client_trust_config \<Rightarrow> route_config \<Rightarrow> string list" where
  "validate_server_route client_trust route =
     err_if (unwrap_or [] (rt_upstream_prefix route) = [])
       (''server route '' @ quoted (rt_id route) @ '' requires upstream_prefix'')
     @ (if route_client_identities route = []
        then [''server route '' @ quoted (rt_id route)
              @ '' requires client_identity so route and purpose policy are identity-bound'']
        else concat (map (\<lambda>identity.
          err_if (\<not> list_ex (\<lambda>allowed. trim allowed = identity) (ct_allowed_identities client_trust))
            (''server route '' @ quoted (rt_id route) @ '' references client_identity '' @ quoted identity
             @ '' not in client_trust.allowed_identities''))
          (route_client_identities route)))"

definition validate_upstream ::
  "('u, 'h, 'k) platform \<Rightarrow> 'u connector_config \<Rightarrow> bool \<Rightarrow> client_trust_config \<Rightarrow> 'u upstream_config \<Rightarrow> string list" where
  "validate_upstream pf config require_env client_trust upstream =
     err_if (\<not> is_root_url_path (pf_url pf) (up_base_url upstream)) ''upstream.base_url must not include a path''
     @ validate_upstream_auth_header_name (pf_headers pf) (up_auth_header_name upstream)
     @ err_if (some_blank (up_default_auth_header_env upstream))
         ''upstream.default_auth_header_env must not be empty''
     @ concat (map (\<lambda>route. err_if (some_blank (rt_upstream_auth_header_env route))
         (''server route '' @ quoted (rt_id route) @ '' upstream_auth_header_env must not be empty''))
         (cc_routes config))
     @ (if require_env
        then require_audit_hash_env (pf_audit pf) config
             @ concat (map (validate_auth_env pf) (required_auth_envs upstream (cc_routes config)))
        else [])
     @ concat (map (validate_server_route client_trust) (cc_routes config))"

definition validate_client_trust ::
  "('u, 'h, 'k) platform \<Rightarrow> int \<Rightarrow> 'u connector_config \<Rightarrow> client_trust_config \<Rightarrow> string list" where
  "validate_client_trust pf now config client_trust =
     err_if (ct_allowed_identities client_trust = []) ''client_trust.allowed_identities must not be empty''
     @ err_if (ct_trust_anchors client_trust = []) ''client_trust.trust_anchors must not be empty''
     @ concat (map (\<lambda>fingerprint. err_if (\<not> is_sha256_fingerprint fingerprint)
         ''client_trust.denied_certificate_fingerprints_sha256 contains an invalid SHA-256 fingerprint'')
         (ct_denied_certificate_fingerprints_sha256 client_trust))
     @ validate_entitlements client_trust [] (ct_trust_context_entitlements client_trust)
     @ concat (map (validate_anchor pf now) (ct_trust_anchors client_trust))
     @ concat (map (validate_allowed_identity config
         (filter (\<lambda>d. \<not> is_blank d) (map ta_trust_domain (ct_trust_anchors client_trust))))
         (ct_allowed_identities client_trust))"

definition validate_server ::
  "('u, 'h, 'k) platform \<Rightarrow> int \<Rightarrow> 'u connector_config \<Rightarrow> bool \<Rightarrow> string list" where
  "validate_server pf now config require_env =
     (case cc_server_identity config of
        None \<Rightarrow> [''server config requires server_identity'']
      | Some identity \<Rightarrow>
          validate_identity_files (pf_host pf) (pf_pki pf) now ''server_identity'' identity ServerAuth
          @ (case cc_client_trust config of
               None \<Rightarrow> [''server config requires client_trust'']
             | Some client_trust \<Rightarrow>
                 validate_client_trust pf now config client_trust
                 @ (case cc_upstream config of
                      None \<Rightarrow> [''server config requires upstream'']
                    | Some upstream \<Rightarrow> validate_upstream pf config require_env client_trust upstream)))"

definition validate_config ::
  "('u, 'h, 'k) platform \<Rightarrow> int \<Rightarrow> 'u connector_config \<Rightarrow> mode \<Rightarrow> bool \<Rightarrow> string list + unit" where
  "validate_config pf now config m require_env =
     (let errors = (case m of
          Client \<Rightarrow> validate_client pf now config require_env
        | Server \<Rightarrow> validate_server pf now config require_env)
        @ validate_common (pf_decode pf) config
      in if errors = [] then Inr () else Inl errors)"

section \<open>What an empty list of messages means\<close>

named_theorems no_errors \<open>when a check reports nothing\<close>

lemma err_if_Nil_iff [no_errors]: "err_if b m = [] \<longleftrightarrow> \<not> b"
  by (simp add: err_if_def)

lemma concat_map_Nil_iff [no_errors]: "concat (map f xs) = [] \<longleftrightarrow> (\<forall>x \<in> set xs. f x = [])"
  by (simp add: concat_eq_Nil_conv)

lemma blank_entries_Nil_iff [no_errors]:
  "blank_entries values m = [] \<longleftrightarrow> (\<forall>v \<in> set values. \<not> is_blank v)"
  by (simp add: blank_entries_def no_errors)

lemma require_file_Nil_iff [no_errors]: "require_file h f p = [] \<longleftrightarrow> p \<noteq> [] \<and> fs_exists h p"
  by (simp add: require_file_def)

lemma result_messages_Nil_iff [no_errors]:
  "(case r of Inl err \<Rightarrow> [m err] | Inr x \<Rightarrow> []) = [] \<longleftrightarrow> (\<exists>x. r = Inr x)"
  by (cases r) simp_all

lemma collect_prefix_error_Nil_iff [no_errors]:
  "collect_prefix_error pd i f p = [] \<longleftrightarrow> validate_route_prefix pd p = Inr ()"
  by (simp add: collect_prefix_error_def no_errors)

lemma is_blank_Nil [simp]: "is_blank []"
  by (simp add: is_blank_def rust_eval)

lemma validate_routes_common_Nil_iff:
  "validate_routes_common pd ids routes = [] \<longleftrightarrow>
     (\<forall>r \<in> set routes. \<not> is_blank (rt_id r) \<and> validate_route_common pd r = [])
     \<and> distinct (map rt_id routes) \<and> set (map rt_id routes) \<inter> set ids = {}"
  by (induction routes arbitrary: ids) auto

lemma validate_entitlements_Nil_iff:
  "validate_entitlements trust seen es = [] \<longleftrightarrow>
     (\<forall>e \<in> set es. \<not> is_blank (te_client_identity e)
        \<and> (\<exists>allowed \<in> set (ct_allowed_identities trust). trim allowed = trim (te_client_identity e))
        \<and> trusted_context_has_assertion (te_trusted_context e)
        \<and> validate_trusted_context_fields ''client_trust.trust_context_entitlements[].trusted_context''
            (te_trusted_context e) = [])
     \<and> distinct (map (trim \<circ> te_client_identity) es)
     \<and> set (map (trim \<circ> te_client_identity) es) \<inter> set seen = {}"
  by (induction es arbitrary: seen)
    (auto simp: validate_trust_context_entitlement_def Let_def no_errors is_blank_def list_ex_iff)

lemma validate_config_ok_iff:
  "validate_config pf now config m require_env = Inr () \<longleftrightarrow>
     (case m of Client \<Rightarrow> validate_client pf now config require_env
      | Server \<Rightarrow> validate_server pf now config require_env) = []
     \<and> validate_common (pf_decode pf) config = []"
  by (simp add: validate_config_def Let_def)

lemma validate_server_Nil_iff:
  "validate_server pf now config require_env = [] \<longleftrightarrow>
     (\<exists>identity trust upstream. cc_server_identity config = Some identity
        \<and> cc_client_trust config = Some trust \<and> cc_upstream config = Some upstream
        \<and> validate_identity_files (pf_host pf) (pf_pki pf) now ''server_identity'' identity ServerAuth = []
        \<and> validate_client_trust pf now config trust = []
        \<and> validate_upstream pf config require_env trust upstream = [])"
  by (auto simp: validate_server_def split: option.splits)

lemma validate_common_Nil:
  assumes "validate_common pd config = []"
  shows "cc_routes config \<noteq> []" "distinct (map rt_id (cc_routes config))"
    "\<And>r. r \<in> set (cc_routes config) \<Longrightarrow> validate_route_common pd r = []"
    "validate_audit (cc_audit config) = []"
    "0 < lm_max_requests_per_identity_per_minute (cc_limits config)"
    "0 < request_timeout config" "0 < upstream_timeout config"
    "0 < tls_handshake_timeout config" "0 < http1_header_read_timeout config"
    "lm_max_concurrent_requests (cc_limits config) \<noteq> 0" "lm_max_concurrent_connections (cc_limits config) \<noteq> 0"
  using assms
  by (simp_all add: validate_common_def Let_def no_errors validate_routes_common_Nil_iff request_timeout_def
      upstream_timeout_def tls_handshake_timeout_def http1_header_read_timeout_def
      duration_from_secs_def nanos_per_sec_def word_neq_0_conv unat_gt_0)

lemma validate_route_prefix_canonical:
  "validate_route_prefix pd p = Inr () \<Longrightarrow> \<exists>c. canonical_request_path pd p = Inr c"
  by (auto simp: validate_route_prefix_def validate_request_path_def result_simps split: if_splits)

lemma validated_prefixes_canonical:
  assumes "validate_common pd config = []"
  shows "prefixes_canonical pd (cc_routes config)"
  using validate_common_Nil(3) [OF assms] validate_route_prefix_canonical
  by (fastforce simp: prefixes_canonical_def validate_route_common_def no_errors)

lemma set_route_client_identities:
  "set (route_client_identities route) = {trim i | i. rt_client_identity route = Some i \<or> i \<in> set (rt_client_identities route)} - {[]}"
  by (cases "rt_client_identity route") (auto simp: route_client_identities_def option_filter_def)

lemma route_matches_client_identity_iff:
  assumes "trim cid \<noteq> []"
  shows "route_matches_client_identity route cid \<longleftrightarrow> trim cid \<in> set (route_client_identities route)"
  using assms by (auto simp: route_matches_client_identity_def Let_def set_route_client_identities list_ex_iff) metis+

lemma unwrap_or_nonempty_iff: "unwrap_or [] x \<noteq> [] \<longleftrightarrow> (\<exists>p. x = Some p \<and> p \<noteq> [])"
  by (cases x) (simp_all add: unwrap_or_def)

lemma validate_server_route_Nil_iff [no_errors]:
  "validate_server_route trust route = [] \<longleftrightarrow>
     unwrap_or [] (rt_upstream_prefix route) \<noteq> []
     \<and> route_client_identities route \<noteq> []
     \<and> set (route_client_identities route) \<subseteq> trim ` set (ct_allowed_identities trust)"
  by (auto simp: validate_server_route_def no_errors list_ex_iff)

lemma validate_allowed_identity_Nil:
  assumes "validate_allowed_identity config domains identity = []"
  shows "case spiffe_trust_domain identity of
      Some domain \<Rightarrow> domain \<in> set domains
    | None \<Rightarrow> cc_allow_dns_san_identity config \<and> identity \<in> set (dns_identity_set config)"
  using assms by (auto simp: validate_allowed_identity_def no_errors split: option.splits if_splits)

lemma validated_ca_loads:
  assumes "validate_ca_certificate h pki now path = Inr ()"
  shows "\<exists>der cert. load_single_ca_cert h pki path = Inr der \<and> x509_from_der pki der = Inr cert
    \<and> xc_basic_constraints_ca cert = Inr (Some True)
    \<and> xc_not_before cert * int nanos_per_sec \<le> now \<and> now \<le> xc_not_after cert * int nanos_per_sec"
proof -
  from assms obtain certs where certs: "load_certs h pki path = Inr certs"
    unfolding validate_ca_certificate_def by (auto simp: and_then_Inr_iff)
  with assms obtain der where der: "certs = [der]"
    by (auto simp: validate_ca_certificate_def split: list.splits)
  with certs assms obtain cert c where "x509_from_der pki der = Inr cert" "validate_time now cert = Inr ()"
    "xc_basic_constraints_ca cert = Inr c" and c: "c = Some True"
    by (auto simp: validate_ca_certificate_def and_then_Inr_iff map_err_Inr_iff parse_cert_der_def
        split: option.splits bool.splits)
  with certs der show ?thesis
    by (simp add: load_single_ca_cert_def validate_time_ok_iff)
qed

lemma root_store_builds:
  assumes "\<And>path. path \<in> set paths \<Longrightarrow> \<exists>der. load_single_ca_cert h pki path = Inr der"
    and "\<And>der. root_store_add pki der = Inr ()"
  shows "\<exists>roots. root_store_from_paths h pki paths = Inr roots"
  unfolding root_store_from_paths_Inr_iff by (rule list_all2_choice) (simp add: assms)

lemma stores_build:
  assumes "\<And>k paths. (k, paths) \<in> set entries \<Longrightarrow> \<exists>roots. root_store_from_paths h pki paths = Inr roots"
  shows "\<exists>stores. stores_for h pki entries = Inr stores"
  unfolding stores_for_def try_map_Inr_iff
  by (rule list_all2_choice) (use assms in \<open>auto simp: and_then_Inr_iff split: prod.splits\<close>)

text \<open>The paths in the derived maps are the anchors' files.\<close>

lemma trust_map_paths:
  assumes "cc_client_trust config = Some trust"
    and "(k, paths) \<in> set (trust_domain_map config) \<or> (k, paths) \<in> set (dns_identity_map config)"
  shows "set paths \<subseteq> ta_ca ` set (ct_trust_anchors trust)"
proof -
  from assms(2) have "map_of (trust_domain_map config) k = Some paths
      \<or> map_of (dns_identity_map config) k = Some paths"
    using btree_inv_distinct [OF trust_maps_inv(1)] btree_inv_distinct [OF trust_maps_inv(2)] by (auto intro: map_of_is_SomeI)
  then show ?thesis
    unfolding trust_domain_map_lookup [OF assms(1)] dns_identity_map_lookup [OF assms(1)] Let_def if_Some_iff
    by auto
qed


lemma allowed_identity_anchored:
  assumes "cc_client_trust config = Some trust" and "validate_client_trust pf now config trust = []"
    and "i \<in> set (ct_allowed_identities trust)" and "pi_value identity = i"
  shows "\<exists>paths. bound_ca_paths config identity = Some paths"
proof -
  let ?domains = "filter (\<lambda>d. \<not> is_blank d) (map ta_trust_domain (ct_trust_anchors trust))"
  from assms(2,3) have "validate_allowed_identity config ?domains i = []"
    by (simp add: validate_client_trust_def no_errors)
  from validate_allowed_identity_Nil [OF this] assms(1,4) show ?thesis
    by (auto simp: bound_ca_paths_def trust_domain_map_lookup dns_identity_set_def
        weak_map_of_SomeI split: option.splits)
qed

lemma trust_policy_builds:
  assumes "cc_client_trust config = Some trust" and "validate_client_trust pf now config trust = []"
    and "\<And>der. root_store_add (pf_pki pf) der = Inr ()"
  shows "\<exists>policy. server_trust_from_config (pf_host pf) (pf_pki pf) config = Inr policy"
proof -
  have loads: "\<exists>der. load_single_ca_cert (pf_host pf) (pf_pki pf) (ta_ca a) = Inr der"
    if "a \<in> set (ct_trust_anchors trust)" for a
    using that assms(2) validated_ca_loads
    by (fastforce simp: validate_client_trust_def validate_anchor_def no_errors)
  have roots: "\<exists>roots. root_store_from_paths (pf_host pf) (pf_pki pf) paths = Inr roots"
    if "(k, paths) \<in> set (trust_domain_map config) \<or> (k, paths) \<in> set (dns_identity_map config)" for k paths
    using trust_map_paths [OF assms(1) that] loads by (intro root_store_builds assms(3)) auto
  have "\<exists>s. stores_for (pf_host pf) (pf_pki pf) (trust_domain_map config) = Inr s"
    by (rule stores_build) (rule roots [OF disjI1])
  moreover have "\<exists>s. stores_for (pf_host pf) (pf_pki pf) (dns_identity_map config) = Inr s"
    by (rule stores_build) (rule roots [OF disjI2])
  ultimately show ?thesis by (auto simp: server_trust_from_config_def)
qed

lemma validate_identity_files_key:
  assumes "validate_identity_files h pki now pre identity usage = []"
    and "fs_mode h (if_key identity) = Some m" and "i < 6"
  shows "\<not> bit m i"
proof -
  from assms(1,2) have m: "and m 63 = 0"
    by (simp add: validate_identity_files_def validate_private_key_permissions_def no_errors)
  have "bit (63 :: 32 word) i"
    using assms(3) by (auto simp: less_Suc_eq numeral_eq_Suc bit_simps)
  with m show ?thesis by (metis bit_and_iff bit_0_eq bot_apply bot_bool_def)
qed

lemma some_blank_simps [simp]: "\<not> some_blank None" "some_blank (Some v) \<longleftrightarrow> is_blank v"
  by (simp_all add: some_blank_def)

section \<open>A concrete platform\<close>

text \<open>A URL is its text: scheme, authority and path are cut at the first slashes.\<close>

definition text_urls :: "string url_lib" where
  "text_urls =
     \<lparr>url_scheme = takeWhile (\<lambda>c. c \<noteq> CHR '':''),
      url_path = (\<lambda>u. dropWhile (\<lambda>c. c \<noteq> CHR ''/'') (drop 8 u)),
      before_path = (\<lambda>u. take 8 u @ takeWhile (\<lambda>c. c \<noteq> CHR ''/'') (drop 8 u)),
      url_parse = Some\<rparr>"

definition example_audit :: "string audit_lib" where
  "example_audit =
     \<lparr>hasher_from_env = (\<lambda>var. Inr var), hasher_unkeyed_dev_only = [],
      audit_reference_hash = (\<lambda>key class salt value. Some (key @ class @ salt @ nat_to_string (length value)))\<rparr>"

definition example_platform :: "(string, header_list, string) platform" where
  "example_platform =
     \<lparr>pf_host = example_host, pf_pki = example_pki, pf_decode = ref_decoder,
      pf_headers = list_headers, pf_url = text_urls, pf_audit = example_audit\<rparr>"

definition example_server :: "string connector_config" where
  "example_server = example_config ''https://relay'' [example_route ''r'' ''/v1'']"

lemma example_platform_simps [simp]:
  "pf_host example_platform = example_host" "pf_pki example_platform = example_pki"
  "pf_decode example_platform = ref_decoder" "pf_headers example_platform = list_headers"
  "pf_url example_platform = text_urls" "pf_audit example_platform = example_audit"
  by (simp_all add: example_platform_def)

lemma example_route_valid: "validate_route_common ref_decoder (example_route ''r'' ''/v1'') = []"
  by (simp add: validate_route_common_def example_route_def no_errors validate_route_prefix_def
      validate_request_path_def routing_eval rust_eval)

lemma example_common_valid: "validate_common ref_decoder example_server = []"
  using example_route_valid
  by (simp add: validate_common_def example_server_def example_config_def Let_def no_errors default_limits_def
      default_upstream_timeout_seconds_def default_request_timeout_seconds_def
      default_tls_handshake_timeout_seconds_def default_http1_header_read_timeout_seconds_def
      default_max_concurrent_requests_def default_max_concurrent_connections_def
      default_max_requests_per_identity_per_minute_def validate_audit_def is_blank_def rust_eval
      example_route_def)

lemma example_identity_valid:
  "validate_identity_files example_host example_pki 5 pre
     \<lparr>if_cert = ''server.pem'', if_key = ''server.key''\<rparr> ServerAuth = []"
  by (simp add: validate_identity_files_def example_host_def require_file_def
      validate_private_key_permissions_def err_if_def validate_leaf_certificate_def load_certs_def
      load_private_key_def parse_cert_der_def validate_time_def as_system_time_eq nanos_per_sec_def
      example_cert_def leaf_has_eku_def)

lemma example_anchor_valid:
  "\<not> is_blank d \<Longrightarrow> ca \<noteq> [] \<Longrightarrow> validate_anchor example_platform 5 (example_anchor d ca) = []"
  by (simp add: validate_anchor_def example_anchor_def no_errors example_host_def
      validate_ca_certificate_def load_certs_def parse_cert_der_def validate_time_def as_system_time_eq
      nanos_per_sec_def example_cert_def)

lemma example_trust_valid: "validate_client_trust example_platform 5 example_server example_trust = []"
proof -
  have "spiffe_trust_domain ''spiffe://a/b'' = Some ''a''"
    by (simp add: spiffe_trust_domain_takeWhile option_filter_def rust_eval)
  moreover have "is_sha256_fingerprint (concat (replicate 32 ''CD''))"
    by (simp add: is_sha256_fingerprint_def length_concat sum_list_replicate list_all_iff rust_eval)
  moreover have "\<not> is_blank ''a''" "\<not> is_blank ''z''" "\<not> is_blank ''spiffe://a/b''"
    by (simp_all add: is_blank_def rust_eval)
  moreover have "ta_trust_domain (example_anchor d ca) = d" for d ca
    by (simp add: example_anchor_def)
  ultimately show ?thesis
    by (simp add: validate_client_trust_def example_trust_def no_errors example_anchor_valid
        validate_allowed_identity_def)
qed

lemma example_route_identities: "route_client_identities (example_route name pre) = [''spiffe://a/b'']"
  by (simp add: route_client_identities_def example_route_def option_filter_def btree_set_def rust_eval)

lemma example_env: "env_var example_host var = Some ''value''"
  by (simp add: env_var_def example_host_def option_filter_def utf8_valid_def)

lemma example_upstream_valid:
  "validate_upstream example_platform example_server True example_trust
     \<lparr>up_base_url = ''https://relay'', up_default_auth_header_env = None,
      up_auth_header_name = ''Authorization'', up_auth_header_scheme = ''Bearer''\<rparr> = []"
proof -
  have "validate_auth_env example_platform var = []" for var
    by (simp add: validate_auth_env_def example_env Let_def no_errors is_blank_def rust_eval
        list_headers_def visible_def)
  moreover have "validate_server_route example_trust (example_route ''r'' ''/v1'') = []"
    unfolding validate_server_route_Nil_iff example_route_identities
    by (simp add: example_trust_def example_route_def unwrap_or_def rust_eval)
  moreover have "validate_upstream_auth_header_name list_headers ''Authorization'' = []"
    by (simp add: validate_upstream_auth_header_name_def list_headers_def visible_def no_errors
        is_hop_by_hop_header_def rust_eval)
  moreover have "\<not> some_blank (rt_upstream_auth_header_env (example_route ''r'' ''/v1''))"
    by (simp add: example_route_def is_blank_def rust_eval)
  moreover have "require_audit_hash_env example_audit example_server = []"
    by (simp add: require_audit_hash_env_def example_audit_def example_server_def example_config_def)
  moreover have "is_root_url_path text_urls ''https://relay''"
    by (simp add: is_root_url_path_def text_urls_def)
  moreover have "cc_routes example_server = [example_route ''r'' ''/v1'']"
    by (simp add: example_server_def example_config_def)
  ultimately show ?thesis
    by (simp add: validate_upstream_def no_errors)
qed

lemma example_server_valid: "validate_config example_platform 5 example_server Server True = Inr ()"
  using example_common_valid example_identity_valid example_trust_valid example_upstream_valid
  by (simp add: validate_config_def validate_server_def) (simp add: example_server_def example_config_def)

lemma ascii_lower_hexdigit: "is_ascii_hexdigit (ascii_lower c) \<Longrightarrow> is_ascii_hexdigit c"
  by (auto simp: ascii_lower_def is_ascii_hexdigit_def Let_def split: if_splits)

lemma example_server_trust: "cc_client_trust example_server = Some example_trust"
  by (simp add: example_server_def example_config_def)

definition example_client :: "string connector_config" where
  "example_client = example_server
     \<lparr>cc_server := Some \<lparr>cs_url = ''https://server'', cs_trust_bundle = ''bundle.pem''\<rparr>,
      cc_client_identity := Some \<lparr>if_cert = ''client.pem'', if_key = ''client.key''\<rparr>\<rparr>"

lemma example_client_valid: "validate_config example_platform 5 example_client Client True = Inr ()"
proof -
  have "validate_common ref_decoder example_client = []"
    using example_common_valid by (simp add: validate_common_def example_client_def)
  moreover have "validate_identity_files example_host example_pki 5 ''client_identity''
      \<lparr>if_cert = ''client.pem'', if_key = ''client.key''\<rparr> ClientAuth = []"
    by (simp add: validate_identity_files_def example_host_def require_file_def
        validate_private_key_permissions_def err_if_def validate_leaf_certificate_def load_certs_def
        load_private_key_def parse_cert_der_def validate_time_def as_system_time_eq nanos_per_sec_def
        example_cert_def leaf_has_eku_def)
  moreover have "validate_client_route example_client (example_route ''r'' ''/v1'') = []"
    by (simp add: validate_client_route_def no_errors example_route_def unwrap_or_def)
  moreover have "require_audit_hash_env example_audit example_client = []"
    by (simp add: require_audit_hash_env_def example_audit_def example_client_def example_server_def
        example_config_def)
  moreover have "require_file example_host f ''bundle.pem'' = []" for f
    by (simp add: require_file_def example_host_def)
  moreover have "is_root_url_path text_urls ''https://server''" "url_scheme text_urls ''https://server'' = ''https''"
    by (simp_all add: is_root_url_path_def text_urls_def)
  moreover have "listen_is_loopback (cc_listen example_client)"
    by (simp add: example_client_def example_server_def example_config_def)
  moreover have "cc_server example_client = Some \<lparr>cs_url = ''https://server'', cs_trust_bundle = ''bundle.pem''\<rparr>"
    "cc_client_identity example_client = Some \<lparr>if_cert = ''client.pem'', if_key = ''client.key''\<rparr>"
    "cc_routes example_client = [example_route ''r'' ''/v1'']"
    by (simp_all add: example_client_def example_server_def example_config_def)
  ultimately show ?thesis
    by (simp add: validate_config_def validate_client_def no_errors)
qed

lemma stores_for_entry:
  assumes "stores_for h pki entries = Inr stores" and "map_of entries k = Some paths"
  shows "\<exists>roots. root_store_from_paths h pki paths = Inr roots"
proof -
  from assms(1) have "list_all2 (\<lambda>e s. snd e = paths \<longrightarrow> (\<exists>roots. root_store_from_paths h pki paths = Inr roots))
      entries stores"
    unfolding stores_for_def try_map_Inr_iff by (rule list_all2_mono) (auto simp: result_simps)
  moreover from assms(2) have "(k, paths) \<in> set entries" by (rule map_of_SomeD)
  ultimately show ?thesis by (induction entries stores rule: list_all2_induct) auto
qed

lemma bound_ca_paths_roots:
  assumes "server_trust_from_config h pki config = Inr policy"
    and "bound_ca_paths config identity = Some paths" and "cc_client_trust config = Some trust"
  shows "\<exists>roots. root_store_from_paths h pki paths = Inr roots \<and> roots \<noteq> []"
proof -
  from assms(1) have s: "stores_for h pki (trust_domain_map config) = Inr (st_anchors_by_domain policy)"
    "stores_for h pki (dns_identity_map config) = Inr (st_anchors_by_dns_identity policy)"
    by (simp_all add: server_trust_from_config_Inr_iff)
  from assms(2) obtain k where "map_of (trust_domain_map config) k = Some paths
      \<or> map_of (dns_identity_map config) k = Some paths"
    by (auto simp: bound_ca_paths_def split: option.splits if_splits)
  then obtain roots where "root_store_from_paths h pki paths = Inr roots"
    using stores_for_entry [OF s(1)] stores_for_entry [OF s(2)] by blast
  with bound_ca_paths_nonempty [OF assms(2,3)] show ?thesis
    by (auto simp: root_store_from_paths_Inr_iff)
qed

section \<open>Properties\<close>

text \<open>
  C31. A server configuration that passes validation has everything the request handler relies
  on: an identity, client trust and an upstream; distinct route ids; canonical prefixes; every
  route bound to allowed identities; positive limits; an auth header name that is neither hop-by-hop
  nor connector-private; and a private key that group and others cannot access.
\<close>

theorem validated_server_config:
  assumes "validate_config pf now config Server require_env = Inr ()"
  shows "\<exists>identity trust upstream name.
      cc_server_identity config = Some identity \<and> cc_client_trust config = Some trust
    \<and> cc_upstream config = Some upstream
    \<and> distinct (map rt_id (cc_routes config)) \<and> cc_routes config \<noteq> []
    \<and> prefixes_canonical (pf_decode pf) (cc_routes config)
    \<and> (\<forall>r \<in> set (cc_routes config). rt_upstream_prefix r \<noteq> None \<and> route_client_identities r \<noteq> []
         \<and> set (route_client_identities r) \<subseteq> trim ` set (ct_allowed_identities trust))
    \<and> 0 < lm_max_requests_per_identity_per_minute (cc_limits config)
    \<and> 0 < request_timeout config \<and> 0 < upstream_timeout config
    \<and> hn_from_bytes (pf_headers pf) (up_auth_header_name upstream) = Some name
    \<and> \<not> is_hop_by_hop_header name \<and> \<not> starts_with name ''x-registry-connector-''
    \<and> (\<forall>m i. fs_mode (pf_host pf) (if_key identity) = Some m \<and> i < 6 \<longrightarrow> \<not> bit m i)"
proof -
  from assms have v: "validate_server pf now config require_env = []"
    and c: "validate_common (pf_decode pf) config = []"
    by (simp_all add: validate_config_ok_iff)
  from v obtain identity trust upstream where s: "cc_server_identity config = Some identity"
    "cc_client_trust config = Some trust" "cc_upstream config = Some upstream"
    "validate_identity_files (pf_host pf) (pf_pki pf) now ''server_identity'' identity ServerAuth = []"
    "validate_upstream pf config require_env trust upstream = []"
    unfolding validate_server_Nil_iff by blast
  from s(5) obtain name where "hn_from_bytes (pf_headers pf) (up_auth_header_name upstream) = Some name"
    "\<not> is_hop_by_hop_header name" "\<not> starts_with name ''x-registry-connector-''"
    by (auto simp: validate_upstream_def validate_upstream_auth_header_name_def Let_def no_errors
        split: option.splits)
  moreover from s(5) have "\<forall>r \<in> set (cc_routes config). rt_upstream_prefix r \<noteq> None
      \<and> route_client_identities r \<noteq> []
      \<and> set (route_client_identities r) \<subseteq> trim ` set (ct_allowed_identities trust)"
    by (simp add: validate_upstream_def no_errors unwrap_or_nonempty_iff) blast
  ultimately show ?thesis
    using s(1-3) validate_common_Nil [OF c] validated_prefixes_canonical [OF c]
      validate_identity_files_key [OF s(4)] by blast
qed

theorem validated_server_config_witness:
  "\<exists>identity trust upstream name.
      cc_server_identity example_server = Some identity \<and> cc_client_trust example_server = Some trust
    \<and> cc_upstream example_server = Some upstream
    \<and> distinct (map rt_id (cc_routes example_server)) \<and> cc_routes example_server \<noteq> []
    \<and> prefixes_canonical (pf_decode example_platform) (cc_routes example_server)
    \<and> (\<forall>r \<in> set (cc_routes example_server). rt_upstream_prefix r \<noteq> None \<and> route_client_identities r \<noteq> []
         \<and> set (route_client_identities r) \<subseteq> trim ` set (ct_allowed_identities trust))
    \<and> 0 < lm_max_requests_per_identity_per_minute (cc_limits example_server)
    \<and> 0 < request_timeout example_server \<and> 0 < upstream_timeout example_server
    \<and> hn_from_bytes (pf_headers example_platform) (up_auth_header_name upstream) = Some name
    \<and> \<not> is_hop_by_hop_header name \<and> \<not> starts_with name ''x-registry-connector-''
    \<and> (\<forall>m i. fs_mode (pf_host example_platform) (if_key identity) = Some m \<and> i < 6 \<longrightarrow> \<not> bit m i)"
  by (rule validated_server_config [OF example_server_valid])



text \<open>
  C37. A client configuration that passes validation connects only over TLS to a server named
  without a path, listens beyond loopback only when that is switched on explicitly, and every
  route has canonical prefixes and, when it requires a purpose from the static default, a
  default that is not blank.
\<close>

theorem validated_client_config:
  assumes "validate_config pf now config Client require_env = Inr ()"
  shows "\<exists>server identity. cc_server config = Some server \<and> cc_client_identity config = Some identity
    \<and> url_scheme (pf_url pf) (cs_url server) = ''https''
    \<and> url_path (pf_url pf) (cs_url server) \<in> {'''', ''/''}
    \<and> (listen_is_loopback (cc_listen config) \<or> cc_allow_non_loopback_client_listen config)
    \<and> prefixes_canonical (pf_decode pf) (cc_routes config)
    \<and> (\<forall>r \<in> set (cc_routes config). rt_local_prefix r \<noteq> None \<and> rt_upstream_prefix r \<noteq> None
         \<and> (rt_require_purpose r \<and> rt_purpose_source r = Some StaticRouteDefault \<longrightarrow>
              (\<exists>p. df_data_purpose (cc_defaults config) = Some p \<and> trim p \<noteq> [])))"
proof -
  from assms have v: "validate_client pf now config require_env = []"
    and c: "validate_common (pf_decode pf) config = []"
    by (simp_all add: validate_config_ok_iff)
  from v obtain server identity where s: "cc_server config = Some server"
    "cc_client_identity config = Some identity"
    by (auto simp: validate_client_def split: option.splits)
  have blank: "\<not> is_blank (unwrap_or [] x) \<Longrightarrow> \<exists>p. x = Some p \<and> trim p \<noteq> []" for x
    by (cases x) (simp_all add: unwrap_or_def is_blank_def)
  from v s have "\<forall>r \<in> set (cc_routes config). validate_client_route config r = []"
    by (simp add: validate_client_def no_errors)
  then have "\<forall>r \<in> set (cc_routes config). rt_local_prefix r \<noteq> None \<and> rt_upstream_prefix r \<noteq> None
         \<and> (rt_require_purpose r \<and> rt_purpose_source r = Some StaticRouteDefault \<longrightarrow>
              (\<exists>p. df_data_purpose (cc_defaults config) = Some p \<and> trim p \<noteq> []))"
    using blank unfolding validate_client_route_def append_is_Nil_conv err_if_Nil_iff unwrap_or_nonempty_iff
    by blast
  with v s show ?thesis
    using validated_prefixes_canonical [OF c]
    by (simp add: validate_client_def no_errors is_root_url_path_def)
qed

theorem validated_client_config_witness:
  "\<exists>server identity. cc_server example_client = Some server
    \<and> cc_client_identity example_client = Some identity
    \<and> url_scheme text_urls (cs_url server) = ''https''
    \<and> prefixes_canonical ref_decoder (cc_routes example_client)"
  using validated_client_config [OF example_client_valid] unfolding example_platform_simps by blast

text \<open>
  Fingerprints round-trip through validation: the fingerprint the connector computes for a
  certificate, written in either letter case, is one that validation accepts in the denylist.
\<close>

lemma fingerprint_format:
  assumes "length (sha256_digest pki der) = 32" and "to_ascii_lowercase fp = sha256_hex pki der"
  shows "is_sha256_fingerprint fp"
proof -
  from assms(2) have fp: "map ascii_lower fp = hex_encode (sha256_digest pki der)"
    by (simp add: sha256_hex_def to_ascii_lowercase_def)
  from arg_cong [OF fp, of length] assms(1) have "length fp = 64"
    by (simp add: hex_encode_length)
  moreover have "is_ascii_hexdigit c" if "c \<in> set fp" for c
  proof -
    from that have "ascii_lower c \<in> set (map ascii_lower fp)" by simp
    then have "is_ascii_hexdigit (ascii_lower c)" unfolding fp using hex_encode_chars by blast
    then show ?thesis by (rule ascii_lower_hexdigit)
  qed
  ultimately show ?thesis by (simp add: is_sha256_fingerprint_def list_all_iff)
qed

end
