(* ===== verification/Connector_Policy.thy ===== *)
theory Connector_Policy
  imports Connector_Validate
begin

text \<open>
  Purposes and governed policies (the policy part of \<open>src/proxy.rs\<close>): how the client connector
  chooses a purpose, how the server connector turns a request into a question to the policy
  decision point, which parts of the trust context a peer may assert, and the hash of a route's
  policy with its cache. The policy decision point is a library: its decision function and its
  problem codes are the record \<open>pdp_lib\<close>.
\<close>

section \<open>Constants\<close>

definition DATA_PURPOSE :: string where
  "DATA_PURPOSE = ''data-purpose''"

definition REQUEST_ID :: string where
  "REQUEST_ID = ''x-request-id''"

definition CONNECTOR_ID :: string where
  "CONNECTOR_ID = ''x-registry-connector-id''"

definition CONNECTOR_VERSION :: string where
  "CONNECTOR_VERSION = ''x-registry-connector-version''"

definition CONNECTOR_CLIENT_IDENTITY :: string where
  "CONNECTOR_CLIENT_IDENTITY = ''x-registry-connector-client-identity''"

definition TRUST_JURISDICTION :: string where
  "TRUST_JURISDICTION = ''x-registry-trust-jurisdiction''"

definition TRUST_ASSURANCE :: string where
  "TRUST_ASSURANCE = ''x-registry-trust-assurance''"

definition TRUST_LEGAL_BASIS :: string where
  "TRUST_LEGAL_BASIS = ''x-registry-trust-legal-basis''"

definition TRUST_CONSENT :: string where
  "TRUST_CONSENT = ''x-registry-trust-consent''"

definition TRUST_SOURCE_OBSERVED_AGE_SECONDS :: string where
  "TRUST_SOURCE_OBSERVED_AGE_SECONDS = ''x-registry-source-observed-age-seconds''"

section \<open>The policy decision point\<close>

datatype pdp_code =
  CONTEXT_REQUIRED | PURPOSE_NOT_PERMITTED | ASSURANCE_INSUFFICIENT | EVIDENCE_STALE
| LEGAL_BASIS_REQUIRED | CONSENT_REQUIRED | JURISDICTION_NOT_PERMITTED | RELATIONSHIP_NOT_PERMITTED
| REQUESTED_FACT_NOT_PERMITTED | DISCLOSURE_NOT_PERMITTED | CREDENTIAL_FORMAT_NOT_PERMITTED
| SOURCE_BINDING_NOT_PERMITTED | ROUTE_IDENTITY_NOT_PERMITTED | CHECKED_SCOPE_REQUIRED
| UNSUPPORTED_POLICY_TERM | POLICY_REQUIRED | POLICY_ID_REQUIRED | POLICY_HASH_INVALID

datatype policy_gate =
  PolicyIdentity | RequestedFact | RequestedDisclosure | SourceBinding | RouteIdentity | Purpose
| Jurisdiction | AssuranceAllowedSet | MinimumAssurance | SourceFreshness | LegalBasisRequired
| ConsentRequired | OdrlTerms | Redaction

record pdp_context =
  px_purpose :: string
  px_legal_basis_ref :: "string option"
  px_consent_ref :: "string option"
  px_asserted_assurance :: "string option"
  px_jurisdiction :: "string option"
  px_requester_identity :: "string option"
  px_subject_ref :: "string option"
  px_relationship :: "string option"
  px_on_behalf_of :: "string option"
  px_requested_fact :: "string option"
  px_requested_disclosure :: "string option"
  px_requested_credential_format :: "string option"
  px_source_binding :: "string option"
  px_route_identity :: "string option"
  px_checked_scopes :: "string list"
  px_source_observed_at_unix_seconds :: "u64 option"
  px_source_observed_age_seconds :: "u64 option"

record pdp_policy =
  pp_policy_id :: string
  pp_policy_hash :: string
  pp_ecosystem_binding_id :: "string option"
  pp_ecosystem_binding_version :: "string option"
  pp_rule_ids :: "string list"
  pp_rule_ids_by_gate :: "policy_gate \<rightharpoonup> string list"
  pp_permit_unconstrained :: bool
  pp_required_context :: "string list"
  pp_odrl_constraint_terms :: "string list"
  pp_purpose_constraints :: "string list list"
  pp_permitted_jurisdictions :: "string list"
  pp_allowed_assurance :: "string list"
  pp_minimum_assurance :: "string option"
  pp_max_source_age_seconds :: "u64 option"
  pp_require_legal_basis :: bool
  pp_require_consent :: bool
  pp_allowed_legal_basis_refs :: "string list"
  pp_allowed_consent_refs :: "string list"
  pp_redaction_fields :: "string list"
  pp_allowed_relationships :: "string list"
  pp_relationship_purpose_constraints :: "string list"
  pp_allowed_requested_facts :: "string list"
  pp_allowed_requested_disclosures :: "string list"
  pp_allowed_credential_formats :: "string list"
  pp_allowed_source_bindings :: "string list"
  pp_allowed_route_identities :: "string list"
  pp_required_checked_scopes :: "string list"
  pp_unsupported_odrl_terms :: "string list"

record pdp_audit =
  pa_policy_id :: string
  pa_policy_hash :: string
  pa_evaluated_rule_ids :: "string list"

datatype pdp_decision =
  Permit pdp_audit
| PermitWithRedaction pdp_audit "string list"
| Deny pdp_audit string

record pdp_lib =
  pdp_decide :: "pdp_context \<Rightarrow> pdp_policy \<Rightarrow> pdp_decision"
  pdp_text :: "pdp_code \<Rightarrow> string"

section \<open>Log and state\<close>

text \<open>
  The events the handlers log, with the fields they log, and the state that policy evaluation
  touches: the cells of the policy hash caches and the log. The request handlers extend this
  record.
\<close>

record completed_event =
  ev_mode :: mode
  ev_method :: string
  ev_path_len :: nat
  ev_query_present :: bool
  ev_request_id :: string
  ev_status :: nat
  ev_status_class :: nat
  ev_outcome :: string
  ev_problem_code :: string
  ev_denial_stage :: string
  ev_denial_reason :: string

datatype log_event =
  PdpPermitted string pdp_audit
| PdpRedactionDenied string pdp_audit "string list" string
| PdpDeniedPurpose string pdp_audit string
| ServerAuthorized string string string string
| RequestCompleted completed_event

record audit_state =
  as_cells :: hash_store
  as_log :: "log_event list"

definition log_info :: "log_event \<Rightarrow> ('m audit_state_scheme, 'e, unit) step" where
  "log_info event st = (Inr (), st\<lparr>as_log := as_log st @ [event]\<rparr>)"

section \<open>Purposes\<close>

definition header_str :: "'h header_lib \<Rightarrow> 'h \<Rightarrow> string \<Rightarrow> string option" where
  "header_str hl headers name = Option.bind (hm_get hl headers name) (hv_to_str hl)"

definition resolve_client_purpose ::
  "'h header_lib \<Rightarrow> 'u connector_config \<Rightarrow> route_match \<Rightarrow> 'h \<Rightarrow> connector_problem + string option" where
  "resolve_client_purpose hl config route_match headers =
     (if rt_require_purpose (rm_route route_match)
      then (case unwrap_or DeniedMissing (rt_purpose_source (rm_route route_match)) of
              StaticRouteDefault \<Rightarrow>
                ok_or PurposeRequired
                  (map_option Some (option_filter (\<lambda>value. trim value \<noteq> []) (df_data_purpose (cc_defaults config))))
            | ClientProvided \<Rightarrow>
                ok_or PurposeRequired
                  (map_option Some (option_filter (\<lambda>value. trim value \<noteq> []) (header_str hl headers DATA_PURPOSE)))
            | DeniedMissing \<Rightarrow> Inl PurposeRequired)
      else Inr (option_filter (\<lambda>value. trim value \<noteq> []) (header_str hl headers DATA_PURPOSE)))"

definition single_data_purpose :: "'h header_lib \<Rightarrow> 'h \<Rightarrow> connector_problem + string option" where
  "single_data_purpose hl headers =
     (case List.map_filter
             (\<lambda>value. option_filter (\<lambda>v. v \<noteq> []) (map_option trim (hv_to_str hl value)))
             (hm_get_all hl headers DATA_PURPOSE) of
        [] \<Rightarrow> Inr None
      | [first] \<Rightarrow> Inr (Some first)
      | _ \<Rightarrow> Inl PurposeDenied)"

section \<open>Trust context\<close>

definition trust_header_value :: "'h header_lib \<Rightarrow> 'h \<Rightarrow> string \<Rightarrow> string option" where
  "trust_header_value hl headers name =
     option_filter (\<lambda>v. v \<noteq> []) (map_option trim (header_str hl headers name))"

definition trust_context_scope :: "string \<Rightarrow> string \<Rightarrow> string" where
  "trust_context_scope field value = ''registry:trust:'' @ field @ '':'' @ value"

definition verified_trust_header_value ::
  "'h header_lib \<Rightarrow> 'h \<Rightarrow> string list \<Rightarrow> string \<Rightarrow> string \<Rightarrow> string option" where
  "verified_trust_header_value hl headers scopes name field =
     Option.bind (trust_header_value hl headers name) (\<lambda>value.
       if trust_context_scope field value \<in> set scopes then Some value else None)"

definition scope_if :: "string \<Rightarrow> string option \<Rightarrow> string list" where
  "scope_if field value = (case value of None \<Rightarrow> [] | Some v \<Rightarrow> [trust_context_scope field v])"

definition context_scopes :: "governed_trusted_context_config \<Rightarrow> string list" where
  "context_scopes context =
     btree_set
       (scope_if ''jurisdiction'' (tc_jurisdiction context)
        @ scope_if ''assurance'' (tc_asserted_assurance context)
        @ scope_if ''legal_basis'' (tc_legal_basis_ref context)
        @ scope_if ''consent'' (tc_consent_ref context)
        @ scope_if ''source_observed_age_seconds''
            (map_option (\<lambda>n. nat_to_string (unat n)) (tc_source_observed_age_seconds context)))"

definition peer_trusted_context_scopes :: "client_trust_config option \<Rightarrow> string \<Rightarrow> string list" where
  "peer_trusted_context_scopes client_trust client_identity =
     (case find (\<lambda>e. trim (te_client_identity e) = client_identity)
             (case client_trust of None \<Rightarrow> [] | Some trust \<Rightarrow> ct_trust_context_entitlements trust) of
        None \<Rightarrow> []
      | Some entitlement \<Rightarrow> context_scopes (te_trusted_context entitlement))"

definition trusted_context_scopes ::
  "governed_route_policy_config option \<Rightarrow> client_trust_config option \<Rightarrow> string \<Rightarrow> string list" where
  "trusted_context_scopes policy client_trust client_identity =
     (let peer_scopes = peer_trusted_context_scopes client_trust client_identity;
          route_scopes = (case policy of None \<Rightarrow> [] | Some p \<Rightarrow> context_scopes (gp_trusted_context p))
      in if route_scopes = [] then peer_scopes
         else filter (\<lambda>s. s \<in> set route_scopes) peer_scopes)"

definition source_observed_age_limit_seconds :: "string list \<Rightarrow> u64 option" where
  "source_observed_age_limit_seconds scopes =
     (case List.map_filter parse_u64
             (List.map_filter (\<lambda>s. strip_prefix s ''registry:trust:source_observed_age_seconds:'') scopes) of
        [] \<Rightarrow> None
      | n # ns \<Rightarrow> Some (fold max ns n))"

definition source_observed_at_with_age ::
  "'h header_lib \<Rightarrow> (pdp_code \<Rightarrow> string) \<Rightarrow> int \<Rightarrow> 'h \<Rightarrow> string list \<Rightarrow> connector_problem + (u64 \<times> u64) option" where
  "source_observed_at_with_age hl pc now_ns headers scopes =
     (case trust_header_value hl headers ''x-registry-source-observed-at-unix-seconds'' of
        None \<Rightarrow> Inr None
      | Some value \<Rightarrow>
          (case source_observed_age_limit_seconds scopes of
             None \<Rightarrow> Inr None
           | Some limit \<Rightarrow>
               and_then (ok_or (PdpDenied (pc EVIDENCE_STALE)) (parse_u64 value)) (\<lambda>observed_at.
               and_then (if now_ns < 0 then Inl (PdpDenied (pc EVIDENCE_STALE))
                         else Inr (of_int (now_ns div int nanos_per_sec) :: u64)) (\<lambda>now.
               let age_seconds = (if observed_at \<le> now then now - observed_at else 0) in
               if observed_at > now \<or> age_seconds > limit then Inr None
               else Inr (Some (observed_at, age_seconds))))))"

definition source_observed_at_unix_seconds ::
  "'h header_lib \<Rightarrow> (pdp_code \<Rightarrow> string) \<Rightarrow> int \<Rightarrow> 'h \<Rightarrow> string list \<Rightarrow> connector_problem + u64 option" where
  "source_observed_at_unix_seconds hl pc now_ns headers scopes =
     and_then (source_observed_at_with_age hl pc now_ns headers scopes) (\<lambda>observed.
       Inr (map_option fst observed))"

definition source_observed_age_seconds ::
  "'h header_lib \<Rightarrow> (pdp_code \<Rightarrow> string) \<Rightarrow> int \<Rightarrow> 'h \<Rightarrow> string list \<Rightarrow> connector_problem + u64 option" where
  "source_observed_age_seconds hl pc now_ns headers scopes =
     (case trust_header_value hl headers TRUST_SOURCE_OBSERVED_AGE_SECONDS of
        Some value \<Rightarrow>
          (case source_observed_age_limit_seconds scopes of
             None \<Rightarrow> Inr None
           | Some limit \<Rightarrow>
               and_then (ok_or (PdpDenied (pc EVIDENCE_STALE)) (parse_u64 value)) (\<lambda>age_seconds.
               if age_seconds > limit then Inr None else Inr (Some age_seconds)))
      | None \<Rightarrow>
          and_then (source_observed_at_with_age hl pc now_ns headers scopes) (\<lambda>observed.
            Inr (map_option snd observed)))"

definition request_pdp_context ::
  "'h header_lib \<Rightarrow> (pdp_code \<Rightarrow> string) \<Rightarrow> int \<Rightarrow> string \<Rightarrow> 'h \<Rightarrow> peer_identity \<Rightarrow> string list
   \<Rightarrow> string \<Rightarrow> string \<Rightarrow> connector_problem + pdp_context" where
  "request_pdp_context hl pc now_ns purpose headers identity scopes route_identity source_binding =
     and_then (source_observed_at_unix_seconds hl pc now_ns headers scopes) (\<lambda>observed_at.
     and_then (source_observed_age_seconds hl pc now_ns headers scopes) (\<lambda>observed_age.
     Inr \<lparr>px_purpose = purpose,
          px_legal_basis_ref = verified_trust_header_value hl headers scopes TRUST_LEGAL_BASIS ''legal_basis'',
          px_consent_ref = verified_trust_header_value hl headers scopes TRUST_CONSENT ''consent'',
          px_asserted_assurance = verified_trust_header_value hl headers scopes TRUST_ASSURANCE ''assurance'',
          px_jurisdiction = verified_trust_header_value hl headers scopes TRUST_JURISDICTION ''jurisdiction'',
          px_requester_identity = Some (pi_value identity),
          px_subject_ref = trust_header_value hl headers ''x-registry-subject-ref'',
          px_relationship = trust_header_value hl headers ''x-registry-relationship'',
          px_on_behalf_of = trust_header_value hl headers ''x-registry-on-behalf-of'',
          px_requested_fact = Some source_binding,
          px_requested_disclosure = Some ''proxy_forward'',
          px_requested_credential_format = trust_header_value hl headers ''x-registry-credential-format'',
          px_source_binding = Some source_binding,
          px_route_identity = Some route_identity,
          px_checked_scopes = [],
          px_source_observed_at_unix_seconds = observed_at,
          px_source_observed_age_seconds = observed_age\<rparr>))"

section \<open>Rule identifiers and problem codes\<close>

definition rule_id :: "string \<Rightarrow> string \<Rightarrow> string list" where
  "rule_id route_id gate = [''trust-connector.route.'' @ route_id @ ''.'' @ gate]"

definition insert_if :: "bool \<Rightarrow> 'k \<Rightarrow> 'v \<Rightarrow> ('k \<rightharpoonup> 'v) \<Rightarrow> ('k \<rightharpoonup> 'v)" where
  "insert_if b k v m = (if b then m(k \<mapsto> v) else m)"

definition route_pdp_rule_ids_by_gate ::
  "route_config \<Rightarrow> governed_route_policy_config option \<Rightarrow> policy_gate \<rightharpoonup> string list" where
  "route_pdp_rule_ids_by_gate route governed =
     (let rid = rule_id (rt_id route);
          base = [PolicyIdentity \<mapsto> rid ''policy_identity'',
                  RequestedFact \<mapsto> rid ''requested_fact'',
                  RequestedDisclosure \<mapsto> rid ''requested_disclosure'',
                  SourceBinding \<mapsto> rid ''source_binding'',
                  RouteIdentity \<mapsto> rid ''route_identity''];
          purpose = insert_if
            (rt_purposes route \<noteq> [] \<or> is_some_and (\<lambda>p. gp_permitted_purposes p \<noteq> []) governed)
            Purpose (rid ''purpose'') base
      in case governed of
           None \<Rightarrow> purpose
         | Some policy \<Rightarrow>
             insert_if (gp_redaction_fields policy \<noteq> []) Redaction (rid ''redaction'')
             (insert_if (gp_unsupported_odrl_terms policy \<noteq> []) OdrlTerms (rid ''odrl_terms'')
             (insert_if (gp_require_consent policy) ConsentRequired (rid ''consent'')
             (insert_if (gp_require_legal_basis policy) LegalBasisRequired (rid ''legal_basis'')
             (insert_if (gp_max_source_age_seconds policy \<noteq> None) SourceFreshness (rid ''source_freshness'')
             (insert_if (gp_minimum_assurance policy \<noteq> None) MinimumAssurance (rid ''minimum_assurance'')
             (insert_if (gp_allowed_assurance policy \<noteq> []) AssuranceAllowedSet (rid ''assurance'')
             (insert_if (gp_permitted_jurisdictions policy \<noteq> []) Jurisdiction (rid ''jurisdiction'')
              purpose))))))))"

definition pdp_codes :: "pdp_code list" where
  "pdp_codes =
     [CONTEXT_REQUIRED, PURPOSE_NOT_PERMITTED, ASSURANCE_INSUFFICIENT, EVIDENCE_STALE,
      LEGAL_BASIS_REQUIRED, CONSENT_REQUIRED, JURISDICTION_NOT_PERMITTED, RELATIONSHIP_NOT_PERMITTED,
      REQUESTED_FACT_NOT_PERMITTED, DISCLOSURE_NOT_PERMITTED, CREDENTIAL_FORMAT_NOT_PERMITTED,
      SOURCE_BINDING_NOT_PERMITTED, ROUTE_IDENTITY_NOT_PERMITTED, CHECKED_SCOPE_REQUIRED,
      UNSUPPORTED_POLICY_TERM, POLICY_REQUIRED, POLICY_ID_REQUIRED, POLICY_HASH_INVALID]"

definition pdp_problem_code :: "(pdp_code \<Rightarrow> string) \<Rightarrow> string \<Rightarrow> string" where
  "pdp_problem_code pc code =
     (case find (\<lambda>k. pc k = code) pdp_codes of
        Some k \<Rightarrow> pc k
      | None \<Rightarrow> pc PURPOSE_NOT_PERMITTED)"

section \<open>The policy hash\<close>

text \<open>A field of the hashed text: name, length in bytes, value, line feed.\<close>

definition push_hash_field :: "string \<Rightarrow> string \<Rightarrow> string \<Rightarrow> string" where
  "push_hash_field material name value =
     material @ name @ '':'' @ nat_to_string (length value) @ '':'' @ value @ [CHR 0x0A]"

definition push_hash_fields :: "string \<Rightarrow> string list \<Rightarrow> string \<Rightarrow> string" where
  "push_hash_fields name values material = fold (\<lambda>v m. push_hash_field m name v) values material"

definition bool_text :: "bool \<Rightarrow> string" where
  "bool_text b = (if b then ''true'' else ''false'')"

definition opt_u64_text :: "u64 option \<Rightarrow> string" where
  "opt_u64_text n = unwrap_or [] (map_option (\<lambda>v. nat_to_string (unat v)) n)"

definition governed_hash_material :: "governed_route_policy_config \<Rightarrow> string \<Rightarrow> string" where
  "governed_hash_material policy material =
     (let trusted = gp_trusted_context policy;
          m1 = push_hash_field material ''governed_policy'' ''true'';
          m2 = push_hash_field m1 ''governed_minimum_assurance'' (unwrap_or [] (gp_minimum_assurance policy));
          m3 = push_hash_field m2 ''governed_max_source_age_seconds''
                 (opt_u64_text (gp_max_source_age_seconds policy));
          m4 = push_hash_field m3 ''governed_require_legal_basis'' (bool_text (gp_require_legal_basis policy));
          m5 = push_hash_field m4 ''governed_require_consent'' (bool_text (gp_require_consent policy));
          m6 = push_hash_fields ''governed_permitted_purpose'' (btree_set (gp_permitted_purposes policy)) m5;
          m7 = push_hash_fields ''governed_permitted_jurisdiction''
                 (btree_set (gp_permitted_jurisdictions policy)) m6;
          m8 = push_hash_fields ''governed_allowed_assurance'' (btree_set (gp_allowed_assurance policy)) m7;
          m9 = push_hash_fields ''governed_redaction_field'' (btree_set (gp_redaction_fields policy)) m8;
          m10 = push_hash_fields ''governed_unsupported_odrl_term''
                  (btree_set (gp_unsupported_odrl_terms policy)) m9;
          m11 = push_hash_field m10 ''trusted_jurisdiction'' (unwrap_or [] (tc_jurisdiction trusted));
          m12 = push_hash_field m11 ''trusted_asserted_assurance'' (unwrap_or [] (tc_asserted_assurance trusted));
          m13 = push_hash_field m12 ''trusted_legal_basis_ref'' (unwrap_or [] (tc_legal_basis_ref trusted));
          m14 = push_hash_field m13 ''trusted_consent_ref'' (unwrap_or [] (tc_consent_ref trusted))
      in push_hash_field m14 ''trusted_source_observed_age_seconds''
           (opt_u64_text (tc_source_observed_age_seconds trusted)))"

definition route_hash_material :: "route_config \<Rightarrow> string" where
  "route_hash_material route =
     (let m1 = push_hash_field [] ''schema'' ''route-purpose-policy-v3'';
          m2 = push_hash_field m1 ''route_id'' (rt_id route);
          m3 = push_hash_field m2 ''client_identity'' (trim (unwrap_or [] (rt_client_identity route)));
          m4 = push_hash_fields ''client_identity''
                 (btree_set (filter (\<lambda>i. i \<noteq> []) (map trim (rt_client_identities route)))) m3;
          m5 = push_hash_field m4 ''local_prefix'' (unwrap_or [] (rt_local_prefix route));
          m6 = push_hash_field m5 ''upstream_prefix'' (unwrap_or [] (rt_upstream_prefix route));
          m7 = push_hash_field m6 ''require_purpose'' (bool_text (rt_require_purpose route));
          m8 = push_hash_fields ''method'' (btree_set (rt_methods route)) m7;
          m9 = push_hash_fields ''purpose'' (btree_set (rt_purposes route)) m8
      in case rt_governed_policy route of
           None \<Rightarrow> m9
         | Some policy \<Rightarrow> governed_hash_material policy m9)"

definition policy_digest :: "pki_lib \<Rightarrow> string \<Rightarrow> string" where
  "policy_digest pki material = ''sha256:'' @ sha256_hex pki material"

definition route_purpose_policy_hash ::
  "pki_lib \<Rightarrow> route_match \<Rightarrow> ('m audit_state_scheme, 'e, string) step" where
  "route_purpose_policy_hash pki route_match st =
     (let route = rm_route route_match;
          (hash, cell) = get_or_compute (policy_digest pki) (route_hash_material route)
            (as_cells st (rt_policy_hash route))
      in (Inr hash, st\<lparr>as_cells := (as_cells st)(rt_policy_hash route := cell)\<rparr>))"

section \<open>Authorising a purpose\<close>

definition purpose_constraints_of ::
  "route_config \<Rightarrow> governed_route_policy_config option \<Rightarrow> string list list" where
  "purpose_constraints_of route governed =
     (if rt_purposes route = [] then [] else [rt_purposes route])
     @ (case option_filter (\<lambda>ps. ps \<noteq> []) (map_option gp_permitted_purposes governed) of
          None \<Rightarrow> []
        | Some configured_purposes \<Rightarrow> [configured_purposes])"

definition pdp_policy_input ::
  "route_config \<Rightarrow> string \<Rightarrow> string \<Rightarrow> governed_route_policy_config option \<Rightarrow> pdp_policy" where
  "pdp_policy_input route policy_hash source_binding governed =
     (let listed = (\<lambda>f. case governed of None \<Rightarrow> [] | Some policy \<Rightarrow> f policy) in
      \<lparr>pp_policy_id = ''trust-connector.route.'' @ rt_id route,
       pp_policy_hash = policy_hash,
       pp_ecosystem_binding_id = None,
       pp_ecosystem_binding_version = None,
       pp_rule_ids = [''route-purpose:'' @ rt_id route],
       pp_rule_ids_by_gate = route_pdp_rule_ids_by_gate route governed,
       pp_permit_unconstrained = False,
       pp_required_context = [],
       pp_odrl_constraint_terms = [],
       pp_purpose_constraints = purpose_constraints_of route governed,
       pp_permitted_jurisdictions = listed gp_permitted_jurisdictions,
       pp_allowed_assurance = listed gp_allowed_assurance,
       pp_minimum_assurance = Option.bind governed gp_minimum_assurance,
       pp_max_source_age_seconds = Option.bind governed gp_max_source_age_seconds,
       pp_require_legal_basis = is_some_and gp_require_legal_basis governed,
       pp_require_consent = is_some_and gp_require_consent governed,
       pp_allowed_legal_basis_refs = [],
       pp_allowed_consent_refs = [],
       pp_redaction_fields = listed gp_redaction_fields,
       pp_allowed_relationships = [],
       pp_relationship_purpose_constraints = [],
       pp_allowed_requested_facts = [source_binding],
       pp_allowed_requested_disclosures = [''proxy_forward''],
       pp_allowed_credential_formats = [],
       pp_allowed_source_bindings = [source_binding],
       pp_allowed_route_identities = [rt_id route],
       pp_required_checked_scopes = [],
       pp_unsupported_odrl_terms = listed gp_unsupported_odrl_terms\<rparr>)"

text \<open>What the connector makes of a decision: only an unconditional permit lets the request pass.\<close>

definition enforce_decision ::
  "pdp_lib \<Rightarrow> string \<Rightarrow> string \<Rightarrow> pdp_decision
   \<Rightarrow> ('m audit_state_scheme, connector_problem, string option) step" where
  "enforce_decision pdp route_id purpose decision =
     (case decision of
        Permit audit \<Rightarrow>
          step_bind (log_info (PdpPermitted route_id audit)) (\<lambda>_. step_lift (Inr (Some purpose)))
      | PermitWithRedaction audit field_set \<Rightarrow>
          step_bind (log_info (PdpRedactionDenied route_id audit field_set (pdp_text pdp UNSUPPORTED_POLICY_TERM)))
            (\<lambda>_. step_lift (Inl (PdpDenied (pdp_text pdp UNSUPPORTED_POLICY_TERM))))
      | Deny audit stable_problem_code \<Rightarrow>
          step_bind (log_info (PdpDeniedPurpose route_id audit stable_problem_code))
            (\<lambda>_. step_lift (Inl (PdpDenied (pdp_problem_code (pdp_text pdp) stable_problem_code)))))"

definition source_binding_of :: "route_match \<Rightarrow> string" where
  "source_binding_of route_match = ''trust-connector:'' @ rm_upstream_path route_match"

definition authorize_server_purpose ::
  "'h header_lib \<Rightarrow> pki_lib \<Rightarrow> pdp_lib \<Rightarrow> int \<Rightarrow> route_match \<Rightarrow> 'h \<Rightarrow> peer_identity
   \<Rightarrow> client_trust_config option \<Rightarrow> ('m audit_state_scheme, connector_problem, string option) step" where
  "authorize_server_purpose hl pki pdp now_ns route_match headers identity client_trust =
     (let route = rm_route route_match;
          governed = rt_governed_policy route;
          scopes = trusted_context_scopes governed client_trust (pi_value identity);
          source_binding = source_binding_of route_match
      in
      step_bind (step_lift (single_data_purpose hl headers)) (\<lambda>purpose_opt.
      if rt_purposes route = [] \<and> \<not> rt_require_purpose route \<and> governed = None
      then step_lift (Inr purpose_opt)
      else
        step_bind (step_lift (ok_or PurposeRequired purpose_opt)) (\<lambda>purpose.
        if rt_require_purpose route \<and> purpose_constraints_of route governed = []
        then step_lift (Inl PurposeDenied)
        else
          step_bind (step_lift (request_pdp_context hl (pdp_text pdp) now_ns purpose headers identity scopes
                                  (rt_id route) source_binding)) (\<lambda>context.
          step_bind (route_purpose_policy_hash pki route_match) (\<lambda>policy_hash.
          enforce_decision pdp (rt_id route) purpose
            (pdp_decide pdp context (pdp_policy_input route policy_hash source_binding governed)))))))"

end
