(* ===== verification/Connector_Policy_Hash.thy ===== *)
theory Connector_Policy_Hash
  imports Connector_Policy
begin

text \<open>
  The hash of a route's policy: the hashed text is a sequence of self-delimiting fields, so it
  determines everything the hash is meant to commit to, and the cache in front of the hash is
  transparent.
\<close>

section \<open>Self-delimiting encodings\<close>

text \<open>
  An encoding of fields whose end can be recognised, whatever follows. Sequences of such fields
  can be read back from their concatenation.
\<close>

locale field_code =
  fixes enc :: "'f \<Rightarrow> 'c list" and ok :: "'f \<Rightarrow> bool"
  assumes enc_nonempty: "enc f \<noteq> []"
    and enc_delimited: "enc f @ x = enc g @ y \<Longrightarrow> ok f \<Longrightarrow> ok g \<Longrightarrow> f = g \<and> x = y"
begin

lemma concat_inject:
  assumes "concat (map enc fs) = concat (map enc gs)" and "\<forall>f \<in> set fs. ok f" and "\<forall>g \<in> set gs. ok g"
  shows "fs = gs"
  using assms
proof (induction fs arbitrary: gs)
  case Nil
  then show ?case by (cases gs) (simp_all add: enc_nonempty)
next
  case (Cons f fs)
  then obtain g gs' where gs: "gs = g # gs'" by (cases gs) (simp_all add: enc_nonempty)
  with Cons.prems have "f = g \<and> concat (map enc fs) = concat (map enc gs')"
    by (intro enc_delimited) simp_all
  with Cons.IH [of gs'] Cons.prems gs show ?case by simp
qed

end

section \<open>The hashed text determines the policy\<close>

definition hash_field :: "string \<times> string \<Rightarrow> string" where
  "hash_field f = push_hash_field [] (fst f) (snd f)"

definition fields_named :: "string \<Rightarrow> string list \<Rightarrow> (string \<times> string) list" where
  "fields_named name values = map (Pair name) values"

definition governed_fields :: "governed_route_policy_config \<Rightarrow> (string \<times> string) list" where
  "governed_fields p =
     (let t = gp_trusted_context p in
      [(''governed_policy'', ''true''),
       (''governed_minimum_assurance'', unwrap_or [] (gp_minimum_assurance p)),
       (''governed_max_source_age_seconds'', opt_u64_text (gp_max_source_age_seconds p)),
       (''governed_require_legal_basis'', bool_text (gp_require_legal_basis p)),
       (''governed_require_consent'', bool_text (gp_require_consent p))]
      @ fields_named ''governed_permitted_purpose'' (btree_set (gp_permitted_purposes p))
      @ fields_named ''governed_permitted_jurisdiction'' (btree_set (gp_permitted_jurisdictions p))
      @ fields_named ''governed_allowed_assurance'' (btree_set (gp_allowed_assurance p))
      @ fields_named ''governed_redaction_field'' (btree_set (gp_redaction_fields p))
      @ fields_named ''governed_unsupported_odrl_term'' (btree_set (gp_unsupported_odrl_terms p))
      @ [(''trusted_jurisdiction'', unwrap_or [] (tc_jurisdiction t)),
         (''trusted_asserted_assurance'', unwrap_or [] (tc_asserted_assurance t)),
         (''trusted_legal_basis_ref'', unwrap_or [] (tc_legal_basis_ref t)),
         (''trusted_consent_ref'', unwrap_or [] (tc_consent_ref t)),
         (''trusted_source_observed_age_seconds'', opt_u64_text (tc_source_observed_age_seconds t))])"

definition route_fields :: "route_config \<Rightarrow> (string \<times> string) list" where
  "route_fields r =
     [(''schema'', ''route-purpose-policy-v3''), (''route_id'', rt_id r),
      (''client_identity'', trim (unwrap_or [] (rt_client_identity r)))]
     @ fields_named ''client_identity'' (btree_set (filter (\<lambda>i. i \<noteq> []) (map trim (rt_client_identities r))))
     @ [(''local_prefix'', unwrap_or [] (rt_local_prefix r)),
        (''upstream_prefix'', unwrap_or [] (rt_upstream_prefix r)),
        (''require_purpose'', bool_text (rt_require_purpose r))]
     @ fields_named ''method'' (btree_set (rt_methods r))
     @ fields_named ''purpose'' (btree_set (rt_purposes r))
     @ (case rt_governed_policy r of None \<Rightarrow> [] | Some p \<Rightarrow> governed_fields p)"

lemma push_hash_field_eq: "push_hash_field m n v = m @ hash_field (n, v)"
  by (simp add: push_hash_field_def hash_field_def)

lemma push_hash_fields_eq:
  "push_hash_fields n vs m = m @ concat (map hash_field (fields_named n vs))"
  by (induction vs arbitrary: m) (simp_all add: push_hash_fields_def fields_named_def push_hash_field_eq)

lemma governed_hash_material_eq:
  "governed_hash_material p m = m @ concat (map hash_field (governed_fields p))"
  by (simp add: governed_hash_material_def governed_fields_def Let_def push_hash_field_eq push_hash_fields_eq)

lemma route_hash_material_eq: "route_hash_material r = concat (map hash_field (route_fields r))"
  by (simp add: route_hash_material_def route_fields_def Let_def push_hash_field_eq push_hash_fields_eq
      governed_hash_material_eq split: option.splits)

lemma append_sep_inject:
  assumes "a @ c # x = b @ c # y" "c \<notin> set a" "c \<notin> set b"
  shows "a = b \<and> x = y"
  using assms by (induction a arbitrary: b) (auto simp: Cons_eq_append_conv append_eq_Cons_conv)

lemma hash_field_inject:
  assumes "hash_field f @ x = hash_field g @ y" and "CHR '':'' \<notin> set (fst f)" "CHR '':'' \<notin> set (fst g)"
  shows "f = g \<and> x = y"
proof -
  obtain n v where f: "f = (n, v)" by (cases f)
  obtain n' v' where g: "g = (n', v')" by (cases g)
  have "n @ CHR '':'' # (nat_to_string (length v) @ CHR '':'' # v @ CHR 0x0A # x)
      = n' @ CHR '':'' # (nat_to_string (length v') @ CHR '':'' # v' @ CHR 0x0A # y)"
    using assms(1) by (simp add: f g hash_field_def push_hash_field_def)
  from append_sep_inject [OF this] assms(2,3) have n: "n = n'"
    and r: "nat_to_string (length v) @ CHR '':'' # v @ CHR 0x0A # x
      = nat_to_string (length v') @ CHR '':'' # v' @ CHR 0x0A # y" by (simp_all add: f g)
  from append_sep_inject [OF r] have len: "length v = length v'" and t: "v @ CHR 0x0A # x = v' @ CHR 0x0A # y"
    using nat_to_string_no_char [of "CHR '':''"] by (simp_all add: is_ascii_digit_def)
  from t len have "v = v'" "x = y" by (simp_all add: append_eq_append_conv)
  with n show ?thesis by (simp add: f g)
qed

lemma hash_field_nonempty: "hash_field f \<noteq> []"
  by (simp add: hash_field_def push_hash_field_def)

interpretation hash_code: field_code hash_field "\<lambda>f. CHR '':'' \<notin> set (fst f)"
  by unfold_locales (simp_all add: hash_field_nonempty hash_field_inject)

text \<open>
  What the hash commits to: the route's own fields and, when it has one, its governed policy, with
  lists as sets, absent strings as empty ones and client identities trimmed.
\<close>

definition governed_view where
  "governed_view p =
     (let t = gp_trusted_context p in
      ((unwrap_or [] (gp_minimum_assurance p), gp_max_source_age_seconds p,
        gp_require_legal_basis p, gp_require_consent p),
       (set (gp_permitted_purposes p), set (gp_permitted_jurisdictions p), set (gp_allowed_assurance p),
        set (gp_redaction_fields p), set (gp_unsupported_odrl_terms p)),
       (unwrap_or [] (tc_jurisdiction t), unwrap_or [] (tc_asserted_assurance t),
        unwrap_or [] (tc_legal_basis_ref t), unwrap_or [] (tc_consent_ref t),
        tc_source_observed_age_seconds t)))"

definition policy_view where
  "policy_view r =
     (rt_id r, trim (unwrap_or [] (rt_client_identity r)),
      {i \<in> trim ` set (rt_client_identities r). i \<noteq> []},
      unwrap_or [] (rt_local_prefix r), unwrap_or [] (rt_upstream_prefix r), rt_require_purpose r,
      set (rt_methods r), set (rt_purposes r), map_option governed_view (rt_governed_policy r))"

definition field_values :: "string \<Rightarrow> (string \<times> string) list \<Rightarrow> string list" where
  "field_values name fs = map snd (filter (\<lambda>f. fst f = name) fs)"

lemma field_values_simps [simp]:
  "field_values n [] = []"
  "field_values n ((m, v) # fs) = (if n = m then v # field_values n fs else field_values n fs)"
  "field_values n (fs @ gs) = field_values n fs @ field_values n gs"
  "field_values n (fields_named m vs) = (if n = m then vs else [])"
  by (simp_all add: field_values_def fields_named_def filter_map comp_def)

lemma text_inject [simp]:
  "bool_text b = bool_text c \<longleftrightarrow> b = c" "opt_u64_text x = opt_u64_text y \<longleftrightarrow> x = y"
  by (cases b; cases c; simp add: bool_text_def)
    (cases x; cases y; simp add: opt_u64_text_def unwrap_or_def nat_to_string_not_Nil [symmetric] word_unat_eq_iff)

lemma btree_filter_eq_iff:
  "btree_set (filter P (map f xs)) = btree_set (filter P (map f ys))
     \<longleftrightarrow> {x \<in> f ` set xs. P x} = {x \<in> f ` set ys. P x}"
  by (simp add: btree_set_eq_iff)

lemma governed_fields_view:
  assumes "\<And>n. field_values n (governed_fields p) = field_values n (governed_fields q)"
  shows "governed_view p = governed_view q"
  using assms [of "''governed_minimum_assurance''"] assms [of "''governed_max_source_age_seconds''"]
    assms [of "''governed_require_legal_basis''"] assms [of "''governed_require_consent''"]
    assms [of "''governed_permitted_purpose''"] assms [of "''governed_permitted_jurisdiction''"]
    assms [of "''governed_allowed_assurance''"] assms [of "''governed_redaction_field''"]
    assms [of "''governed_unsupported_odrl_term''"] assms [of "''trusted_jurisdiction''"]
    assms [of "''trusted_asserted_assurance''"] assms [of "''trusted_legal_basis_ref''"]
    assms [of "''trusted_consent_ref''"] assms [of "''trusted_source_observed_age_seconds''"]
  by (simp add: governed_fields_def governed_view_def Let_def btree_set_eq_iff)

lemma governed_view_fields:
  "governed_view p = governed_view q \<Longrightarrow> governed_fields p = governed_fields q"
  by (simp add: governed_fields_def governed_view_def Let_def flip: btree_set_eq_iff)

lemma base_values_governed:
  "field_values ''schema'' (governed_fields p) = []"
  "field_values ''route_id'' (governed_fields p) = []"
  "field_values ''client_identity'' (governed_fields p) = []"
  "field_values ''local_prefix'' (governed_fields p) = []"
  "field_values ''upstream_prefix'' (governed_fields p) = []"
  "field_values ''require_purpose'' (governed_fields p) = []"
  "field_values ''method'' (governed_fields p) = []"
  "field_values ''purpose'' (governed_fields p) = []"
  by (simp_all add: governed_fields_def Let_def)

definition base_names :: "string list" where
  "base_names = [''schema'', ''route_id'', ''client_identity'', ''local_prefix'', ''upstream_prefix'',
     ''require_purpose'', ''method'', ''purpose'']"

lemma base_names_not_governed: "n \<in> set base_names \<Longrightarrow> field_values n (governed_fields p) = []"
  unfolding base_names_def list.set by (elim insertE emptyE; hypsubst; rule base_values_governed)

lemma route_fields_governed:
  assumes "route_fields r = route_fields r'"
    and "rt_governed_policy r = Some p" and "rt_governed_policy r' = Some q"
  shows "governed_view p = governed_view q"
proof (rule governed_fields_view)
  fix n
  show "field_values n (governed_fields p) = field_values n (governed_fields q)"
  proof (cases "n \<in> set base_names")
    case True
    then show ?thesis by (simp only: base_names_not_governed)
  next
    case False
    from assms(1) have "field_values n (route_fields r) = field_values n (route_fields r')" by simp
    moreover from False have "n \<noteq> ''schema''" "n \<noteq> ''route_id''" "n \<noteq> ''client_identity''" "n \<noteq> ''local_prefix''"
      "n \<noteq> ''upstream_prefix''" "n \<noteq> ''require_purpose''" "n \<noteq> ''method''" "n \<noteq> ''purpose''"
      by (simp_all add: base_names_def)
    ultimately show ?thesis using assms(2,3) by (simp add: route_fields_def)
  qed
qed

lemma route_fields_view:
  assumes "route_fields r = route_fields r'"
  shows "policy_view r = policy_view r'"
proof -
  have eq: "field_values n (route_fields r) = field_values n (route_fields r')" for n
    using assms by simp
  have g: "map_option governed_view (rt_governed_policy r) = map_option governed_view (rt_governed_policy r')"
    by (cases "rt_governed_policy r"; cases "rt_governed_policy r'")
      (use eq [of "''governed_policy''"] route_fields_governed [OF assms] in
        \<open>simp_all add: route_fields_def governed_fields_def Let_def\<close>)
  have no: "field_values n (case rt_governed_policy x of None \<Rightarrow> [] | Some p \<Rightarrow> governed_fields p) = []"
    if "n \<in> set base_names" for n x
    using base_names_not_governed [OF that] by (simp split: option.splits)
  show ?thesis
    using eq [of "''route_id''"] eq [of "''client_identity''"] eq [of "''local_prefix''"]
      eq [of "''upstream_prefix''"] eq [of "''require_purpose''"] eq [of "''method''"] eq [of "''purpose''"] g
    by (simp add: route_fields_def policy_view_def no base_names_def btree_filter_eq_iff btree_set_eq_iff)
qed

lemma view_route_fields:
  assumes "policy_view r = policy_view r'"
  shows "route_fields r = route_fields r'"
proof -
  from assms have "btree_set (filter (\<lambda>i. i \<noteq> []) (map trim (rt_client_identities r)))
      = btree_set (filter (\<lambda>i. i \<noteq> []) (map trim (rt_client_identities r')))"
    unfolding btree_filter_eq_iff by (simp add: policy_view_def)
  moreover from assms have "map_option governed_view (rt_governed_policy r)
      = map_option governed_view (rt_governed_policy r')" by (simp add: policy_view_def)
  then have "(case rt_governed_policy r of None \<Rightarrow> [] | Some p \<Rightarrow> governed_fields p)
      = (case rt_governed_policy r' of None \<Rightarrow> [] | Some p \<Rightarrow> governed_fields p)"
    by (cases "rt_governed_policy r"; cases "rt_governed_policy r'") (auto dest: governed_view_fields)
  ultimately show ?thesis
    using assms by (simp add: route_fields_def policy_view_def flip: btree_set_eq_iff)
qed

lemma route_fields_names: "\<forall>f \<in> set (route_fields r). CHR '':'' \<notin> set (fst f)"
proof -
  have "\<forall>f \<in> set (governed_fields p). CHR '':'' \<notin> set (fst f)" for p
    by (simp add: governed_fields_def Let_def fields_named_def ball_Un)
  then show ?thesis
    by (cases "rt_governed_policy r") (simp_all add: route_fields_def fields_named_def ball_Un)
qed

lemma route_hash_material_inject:
  "route_hash_material r = route_hash_material r' \<longleftrightarrow> policy_view r = policy_view r'"
  unfolding route_hash_material_eq
  using hash_code.concat_inject [OF _ route_fields_names route_fields_names] route_fields_view view_route_fields
  by metis

section \<open>The cache is transparent\<close>

text \<open>Every cell holds a hash that was computed from the text next to it.\<close>

definition cells_valid :: "pki_lib \<Rightarrow> 'm audit_state_scheme \<Rightarrow> bool" where
  "cells_valid pki st = (\<forall>addr. cell_valid (policy_digest pki) (as_cells st addr))"

lemma route_purpose_policy_hash_value:
  assumes "cells_valid pki st"
  shows "fst (route_purpose_policy_hash pki rm st) = Inr (policy_digest pki (route_hash_material (rm_route rm)))"
    and "cells_valid pki (snd (route_purpose_policy_hash pki rm st))"
proof -
  let ?r = "rm_route rm"
  from assms have v: "cell_valid (policy_digest pki) (as_cells st (rt_policy_hash ?r))"
    by (simp add: cells_valid_def)
  from policy_cache.get_value [OF v]
  show "fst (route_purpose_policy_hash pki rm st) = Inr (policy_digest pki (route_hash_material ?r))"
    by (simp add: route_purpose_policy_hash_def Let_def split_beta)
  from policy_cache.get_valid [OF v] assms
  show "cells_valid pki (snd (route_purpose_policy_hash pki rm st))"
    by (simp add: route_purpose_policy_hash_def Let_def split_beta cells_valid_def)
qed

lemma route_purpose_policy_hash_frame:
  "route_purpose_policy_hash pki rm st = (r, st') \<Longrightarrow> as_log st' = as_log st \<and> audit_state.more st' = audit_state.more st"
  by (auto simp: route_purpose_policy_hash_def Let_def split_beta)

definition empty_audit_state :: audit_state where
  "empty_audit_state = \<lparr>as_cells = (\<lambda>_. None), as_log = []\<rparr>"

lemma empty_cells_valid: "cells_valid pki empty_audit_state"
  by (simp add: cells_valid_def empty_audit_state_def cell_valid_def)

fun policy_hashes :: "pki_lib \<Rightarrow> route_match list \<Rightarrow> 'm audit_state_scheme \<Rightarrow> string list" where
  "policy_hashes pki [] st = []"
| "policy_hashes pki (m # ms) st =
     (case route_purpose_policy_hash pki m st of
        (Inr h, st') \<Rightarrow> h # policy_hashes pki ms st'
      | (Inl (), st') \<Rightarrow> policy_hashes pki ms st')"

lemma policy_hashes_valid:
  "cells_valid pki st \<Longrightarrow>
     policy_hashes pki ms st = map (\<lambda>m. policy_digest pki (route_hash_material (rm_route m))) ms"
proof (induction ms arbitrary: st)
  case (Cons m ms)
  note h = route_purpose_policy_hash_value [OF Cons.prems, of m]
  let ?s = "route_purpose_policy_hash pki m st :: (unit + string) \<times> _"
  have "fst ?s = Inr (policy_digest pki (route_hash_material (rm_route m)))" "cells_valid pki (snd ?s)"
    by (rule h)+
  with Cons.IH [of "snd ?s"] show ?case by (cases ?s) simp
qed simp

section \<open>Properties\<close>



text \<open>
  C34. The cache never changes an answer: any sequence of hash requests, in any order and for any
  routes, even routes that share a cell, started with empty cells returns for each route the hash
  computed from scratch.
\<close>

theorem policy_cache_transparent:
  "policy_hashes pki ms empty_audit_state
     = map (\<lambda>m. policy_digest pki (route_hash_material (rm_route m))) ms"
  by (rule policy_hashes_valid [OF empty_cells_valid])

end
