(* ===== verification/Connector_Authorization.thy ===== *)
theory Connector_Authorization
  imports Connector_Policy_Hash
begin

text \<open>
  What policy evaluation guarantees: which assertions of a peer reach the policy decision point,
  what a request that passes has been checked for, and which problems authorisation reports. The
  only assumption about the policy decision point is its contract \<open>pdp_enforces\<close>.
\<close>

section \<open>Scopes\<close>

lemma trust_context_scope_inject:
  assumes "trust_context_scope f v = trust_context_scope f' v'" "CHR '':'' \<notin> set f" "CHR '':'' \<notin> set f'"
  shows "f = f' \<and> v = v'"
  using assms append_sep_inject [of f "CHR '':''" v f' v'] by (simp add: trust_context_scope_def)

lemma scope_if_mem: "s \<in> set (scope_if f x) \<longleftrightarrow> (\<exists>v. x = Some v \<and> s = trust_context_scope f v)"
  by (cases x) (auto simp: scope_if_def)

text \<open>The scopes of a context are exactly the assertions it makes.\<close>

lemma context_scopes_mem:
  "trust_context_scope ''jurisdiction'' v \<in> set (context_scopes c) \<longleftrightarrow> tc_jurisdiction c = Some v"
  "trust_context_scope ''assurance'' v \<in> set (context_scopes c) \<longleftrightarrow> tc_asserted_assurance c = Some v"
  "trust_context_scope ''legal_basis'' v \<in> set (context_scopes c) \<longleftrightarrow> tc_legal_basis_ref c = Some v"
  "trust_context_scope ''consent'' v \<in> set (context_scopes c) \<longleftrightarrow> tc_consent_ref c = Some v"
  "trust_context_scope ''source_observed_age_seconds'' v \<in> set (context_scopes c) \<longleftrightarrow>
     (\<exists>n. tc_source_observed_age_seconds c = Some n \<and> v = nat_to_string (unat n))"
  by (auto simp: context_scopes_def scope_if_mem dest: trust_context_scope_inject)

lemma context_scopes_age:
  assumes "s \<in> set (context_scopes c)"
    and "strip_prefix s ''registry:trust:source_observed_age_seconds:'' = Some v"
  shows "\<exists>n. tc_source_observed_age_seconds c = Some n \<and> v = nat_to_string (unat n)"
proof -
  from assms(2) have "s = trust_context_scope ''source_observed_age_seconds'' v"
    by (simp add: strip_prefix_Some_iff trust_context_scope_def)
  with assms(1) show ?thesis by (simp add: context_scopes_mem)
qed

text \<open>
  An assertion is granted to a peer for a route: an entitlement of the client trust names the peer
  and makes the assertion, and so does the route's own trusted context if it has any.
\<close>

definition granted ::
  "governed_route_policy_config option \<Rightarrow> client_trust_config option \<Rightarrow> string
   \<Rightarrow> (governed_trusted_context_config \<Rightarrow> 'a option) \<Rightarrow> 'a \<Rightarrow> bool" where
  "granted governed client_trust cid field value =
     (\<exists>trust e. client_trust = Some trust \<and> e \<in> set (ct_trust_context_entitlements trust)
        \<and> trim (te_client_identity e) = cid \<and> field (te_trusted_context e) = Some value
        \<and> (\<forall>p. governed = Some p \<and> context_scopes (gp_trusted_context p) \<noteq> [] \<longrightarrow>
             field (gp_trusted_context p) = Some value))"

lemma find_SomeD: "find P xs = Some x \<Longrightarrow> x \<in> set xs \<and> P x"
  by (induction xs) (auto split: if_splits)

lemma peer_scopes_mem:
  "s \<in> set (peer_trusted_context_scopes client_trust cid) \<Longrightarrow>
     \<exists>trust e. client_trust = Some trust \<and> e \<in> set (ct_trust_context_entitlements trust)
       \<and> trim (te_client_identity e) = cid \<and> s \<in> set (context_scopes (te_trusted_context e))"
  unfolding peer_trusted_context_scopes_def
  by (cases client_trust) (auto dest!: find_SomeD [OF sym] split: option.splits)

lemma trusted_scopes_mem:
  assumes "s \<in> set (trusted_context_scopes governed client_trust cid)"
  shows "s \<in> set (peer_trusted_context_scopes client_trust cid)"
    and "governed = Some p \<Longrightarrow> context_scopes (gp_trusted_context p) \<noteq> [] \<Longrightarrow>
      s \<in> set (context_scopes (gp_trusted_context p))"
  using assms by (auto simp: trusted_context_scopes_def Let_def split: if_splits option.splits)

lemma granted_scope:
  assumes "trust_context_scope f v \<in> set (trusted_context_scopes governed client_trust cid)"
    and "\<And>c. trust_context_scope f v \<in> set (context_scopes c) \<longleftrightarrow> field c = Some v"
  shows "granted governed client_trust cid field v"
  using peer_scopes_mem [OF trusted_scopes_mem(1) [OF assms(1)]] trusted_scopes_mem(2) [OF assms(1)]
  unfolding granted_def assms(2) by blast

lemma fold_max_mem: "fold max ns (n :: 'a :: linorder) \<in> set (n # ns)"
  by (induction ns arbitrary: n) (auto simp: max_def split: if_splits)

lemma age_limit_mem:
  assumes "source_observed_age_limit_seconds scopes = Some limit"
  shows "\<exists>s v. s \<in> set scopes \<and> parse_u64 v = Some limit
    \<and> strip_prefix s ''registry:trust:source_observed_age_seconds:'' = Some v"
proof -
  from assms have "limit \<in> set (List.map_filter parse_u64
      (List.map_filter (\<lambda>s. strip_prefix s ''registry:trust:source_observed_age_seconds:'') scopes))"
    unfolding source_observed_age_limit_seconds_def using fold_max_mem by (auto split: list.splits)
  then show ?thesis by (auto simp: List.map_filter_def)
qed

lemma age_limit_granted:
  assumes "source_observed_age_limit_seconds (trusted_context_scopes governed client_trust cid) = Some limit"
  shows "granted governed client_trust cid tc_source_observed_age_seconds limit"
proof -
  from age_limit_mem [OF assms] obtain s v where s: "s \<in> set (trusted_context_scopes governed client_trust cid)"
    "parse_u64 v = Some limit" "strip_prefix s ''registry:trust:source_observed_age_seconds:'' = Some v" by blast
  have limit: "tc_source_observed_age_seconds c = Some limit" if "s \<in> set (context_scopes c)" for c
    using context_scopes_age [OF that s(3)] s(2) by auto
  from peer_scopes_mem [OF trusted_scopes_mem(1) [OF s(1)]] obtain trust e where
    "client_trust = Some trust" "e \<in> set (ct_trust_context_entitlements trust)"
    "trim (te_client_identity e) = cid" "s \<in> set (context_scopes (te_trusted_context e))" by blast
  with limit trusted_scopes_mem(2) [OF s(1)] show ?thesis
    unfolding granted_def by (intro exI conjI allI impI) auto
qed

section \<open>What reaches the policy decision point\<close>

lemma verified_value:
  "verified_trust_header_value hl headers scopes name field = Some v \<longleftrightarrow>
     trust_header_value hl headers name = Some v \<and> trust_context_scope field v \<in> set scopes"
  by (auto simp: verified_trust_header_value_def bind_eq_Some_conv split: if_splits)

lemma if_none_iff: "(if b then Inr None else Inr (Some x)) = Inr (Some y) \<longleftrightarrow> \<not> b \<and> x = y"
  by simp

lemma observed_at_with_age:
  assumes "source_observed_at_with_age hl pc now_ns headers scopes = Inr (Some (t, age))"
  shows "\<exists>limit. source_observed_age_limit_seconds scopes = Some limit \<and> age \<le> limit
    \<and> t \<le> of_int (now_ns div int nanos_per_sec) \<and> age = of_int (now_ns div int nanos_per_sec) - t \<and> 0 \<le> now_ns"
proof (cases "trust_header_value hl headers ''x-registry-source-observed-at-unix-seconds''";
    cases "source_observed_age_limit_seconds scopes")
  fix raw limit
  assume "trust_header_value hl headers ''x-registry-source-observed-at-unix-seconds'' = Some raw"
    and limit: "source_observed_age_limit_seconds scopes = Some limit"
  with assms show ?thesis
    unfolding source_observed_at_with_age_def
    by (auto simp: and_then_Inr_iff ok_or_Inr_iff Let_def if_err_Inr_iff if_none_iff not_less)
qed (use assms in \<open>simp_all add: source_observed_at_with_age_def\<close>)

lemma observed_age:
  assumes "source_observed_age_seconds hl pc now_ns headers scopes = Inr (Some age)"
  shows "\<exists>limit. source_observed_age_limit_seconds scopes = Some limit \<and> age \<le> limit"
proof (cases "trust_header_value hl headers TRUST_SOURCE_OBSERVED_AGE_SECONDS")
  case None
  with assms obtain t where "source_observed_at_with_age hl pc now_ns headers scopes = Inr (Some (t, age))"
    by (auto simp: source_observed_age_seconds_def result_simps)
  from observed_at_with_age [OF this] show ?thesis by blast
next
  case (Some raw)
  with assms show ?thesis
    by (auto simp: source_observed_age_seconds_def result_simps not_less split: option.splits if_splits)
qed

lemma observed_error:
  "source_observed_at_with_age hl pc now_ns headers scopes = Inl e \<Longrightarrow> e = PdpDenied (pc EVIDENCE_STALE)"
  "source_observed_age_seconds hl pc now_ns headers scopes = Inl e \<Longrightarrow> e = PdpDenied (pc EVIDENCE_STALE)"
proof -
  show 1: "source_observed_at_with_age hl pc now_ns headers scopes = Inl e \<Longrightarrow> e = PdpDenied (pc EVIDENCE_STALE)" for e
    unfolding source_observed_at_with_age_def
    by (auto simp: result_simps Let_def split: option.splits if_splits)
  show "source_observed_age_seconds hl pc now_ns headers scopes = Inl e \<Longrightarrow> e = PdpDenied (pc EVIDENCE_STALE)"
    unfolding source_observed_age_seconds_def
    by (auto simp: result_simps dest: 1 split: option.splits if_splits)
qed

lemma request_pdp_context_Inr_iff:
  "request_pdp_context hl pc now_ns purpose headers identity scopes rid binding = Inr ctx \<longleftrightarrow>
     source_observed_at_unix_seconds hl pc now_ns headers scopes = Inr (px_source_observed_at_unix_seconds ctx)
     \<and> source_observed_age_seconds hl pc now_ns headers scopes = Inr (px_source_observed_age_seconds ctx)
     \<and> px_purpose ctx = purpose
     \<and> px_legal_basis_ref ctx = verified_trust_header_value hl headers scopes TRUST_LEGAL_BASIS ''legal_basis''
     \<and> px_consent_ref ctx = verified_trust_header_value hl headers scopes TRUST_CONSENT ''consent''
     \<and> px_asserted_assurance ctx = verified_trust_header_value hl headers scopes TRUST_ASSURANCE ''assurance''
     \<and> px_jurisdiction ctx = verified_trust_header_value hl headers scopes TRUST_JURISDICTION ''jurisdiction''
     \<and> px_requester_identity ctx = Some (pi_value identity)
     \<and> px_subject_ref ctx = trust_header_value hl headers ''x-registry-subject-ref''
     \<and> px_relationship ctx = trust_header_value hl headers ''x-registry-relationship''
     \<and> px_on_behalf_of ctx = trust_header_value hl headers ''x-registry-on-behalf-of''
     \<and> px_requested_fact ctx = Some binding \<and> px_requested_disclosure ctx = Some ''proxy_forward''
     \<and> px_requested_credential_format ctx = trust_header_value hl headers ''x-registry-credential-format''
     \<and> px_source_binding ctx = Some binding \<and> px_route_identity ctx = Some rid \<and> px_checked_scopes ctx = []"
  by (cases ctx) (auto simp: request_pdp_context_def result_simps)

lemma request_pdp_context_error:
  "request_pdp_context hl pc now_ns purpose headers identity scopes rid binding = Inl e \<Longrightarrow>
     e = PdpDenied (pc EVIDENCE_STALE)"
  by (auto simp: request_pdp_context_def source_observed_at_unix_seconds_def result_simps dest: observed_error)

section \<open>Decisions\<close>

lemma single_data_purpose_iff:
  "single_data_purpose hl headers = Inr (Some p) \<Longrightarrow> p \<noteq> [] \<and> trim p = p
     \<and> (\<exists>raw s. raw \<in> set (hm_get_all hl headers DATA_PURPOSE) \<and> hv_to_str hl raw = Some s \<and> p = trim s)"
  (is "?l \<Longrightarrow> _")
proof -
  let ?f = "\<lambda>raw. option_filter (\<lambda>v. v \<noteq> []) (map_option trim (hv_to_str hl raw))"
  assume ?l
  then have "List.map_filter ?f (hm_get_all hl headers DATA_PURPOSE) = [p]"
    by (simp add: single_data_purpose_def split: list.splits)
  then have "p \<in> set (List.map_filter ?f (hm_get_all hl headers DATA_PURPOSE))" by simp
  then obtain raw where raw: "raw \<in> set (hm_get_all hl headers DATA_PURPOSE)" "?f raw = Some p"
    by (auto simp: List.map_filter_def)
  from raw(2) obtain s where "hv_to_str hl raw = Some s" "p = trim s" "p \<noteq> []"
    by (auto simp: option_filter_Some_iff)
  with raw(1) show ?thesis using trim_idem by blast
qed

lemma enforce_decision_Inr_iff:
  "enforce_decision pdp rid purpose d st = (Inr p, st') \<longleftrightarrow>
     (\<exists>audit. d = Permit audit \<and> p = Some purpose
        \<and> st' = st\<lparr>as_log := as_log st @ [PdpPermitted rid audit]\<rparr>)"
  by (cases d) (auto simp: enforce_decision_def log_info_def result_simps step_bind_def step_lift_def)

lemma pdp_problem_code_range: "pdp_problem_code pc code \<in> range pc"
  by (auto simp: pdp_problem_code_def split: option.splits)

lemma enforce_decision_Inl:
  "enforce_decision pdp rid purpose d st = (Inl e, st') \<Longrightarrow> \<exists>k. e = PdpDenied (pdp_text pdp k)"
  using pdp_problem_code_range [of "pdp_text pdp"]
  by (cases d) (auto simp: enforce_decision_def log_info_def step_bind_def step_lift_def image_def)

text \<open>Routes on which the policy decision point is asked.\<close>

definition policy_gated :: "route_config \<Rightarrow> bool" where
  "policy_gated route =
     (rt_purposes route \<noteq> [] \<or> rt_require_purpose route \<or> rt_governed_policy route \<noteq> None)"

lemma authorize_ungated:
  assumes "\<not> policy_gated (rm_route rm)"
  shows "authorize_server_purpose hl pki pdp now_ns rm headers identity client_trust st
    = (single_data_purpose hl headers, st)"
  using assms
  by (simp add: authorize_server_purpose_def policy_gated_def Let_def step_bind_def step_lift_def
      split: sum.splits)

lemma authorize_gated_Inr:
  assumes "authorize_server_purpose hl pki pdp now_ns rm headers identity client_trust st = (Inr p, st')"
    and "policy_gated (rm_route rm)"
  shows "\<exists>purpose ctx hash st1 audit. p = Some purpose
    \<and> single_data_purpose hl headers = Inr (Some purpose)
    \<and> request_pdp_context hl (pdp_text pdp) now_ns purpose headers identity
        (trusted_context_scopes (rt_governed_policy (rm_route rm)) client_trust (pi_value identity))
        (rt_id (rm_route rm)) (source_binding_of rm) = Inr ctx
    \<and> route_purpose_policy_hash pki rm st = ((Inr hash :: connector_problem + string), st1)
    \<and> pdp_decide pdp ctx (pdp_policy_input (rm_route rm) hash (source_binding_of rm)
        (rt_governed_policy (rm_route rm))) = Permit audit
    \<and> (rt_require_purpose (rm_route rm) \<longrightarrow>
         purpose_constraints_of (rm_route rm) (rt_governed_policy (rm_route rm)) \<noteq> [])
    \<and> st' = st1\<lparr>as_log := as_log st1 @ [PdpPermitted (rt_id (rm_route rm)) audit]\<rparr>"
proof -
  from assms(2) have g: "\<not> (rt_purposes (rm_route rm) = [] \<and> \<not> rt_require_purpose (rm_route rm)
      \<and> rt_governed_policy (rm_route rm) = None)" by (simp add: policy_gated_def)
  from assms(1) obtain purpose_opt where o: "single_data_purpose hl headers = Inr purpose_opt"
    unfolding authorize_server_purpose_def Let_def by (auto simp: step_bind_Inr_iff step_lift_iff)
  with assms(1) obtain purpose where p: "purpose_opt = Some purpose"
    and c: "\<not> (rt_require_purpose (rm_route rm)
      \<and> purpose_constraints_of (rm_route rm) (rt_governed_policy (rm_route rm)) = [])"
    unfolding authorize_server_purpose_def Let_def if_not_P [OF g]
    by (auto simp: step_bind_Inr_iff step_lift_iff ok_or_Inr_iff split: if_split_asm)
  from assms(1) show ?thesis
    unfolding authorize_server_purpose_def Let_def if_not_P [OF g] o p step_bind_lift ok_or_simps if_not_P [OF c]
    using c by (auto simp: step_bind_Inr_iff step_lift_iff enforce_decision_Inr_iff)
qed

lemma single_data_purpose_error: "single_data_purpose hl headers = Inl e \<Longrightarrow> e = PurposeDenied"
  by (auto simp: single_data_purpose_def split: list.splits)

lemma hash_step_not_error: "route_purpose_policy_hash pki rm st \<noteq> (Inl e, st')"
  by (simp add: route_purpose_policy_hash_def Let_def split_beta)

lemma ok_or_error: "ok_or e x = Inl e' \<Longrightarrow> e' = e"
  by (simp add: ok_or_Inl_iff)

lemma authorize_Inl:
  assumes "authorize_server_purpose hl pki pdp now_ns rm headers identity client_trust st = (Inl e, st')"
  shows "e \<in> {PurposeRequired, PurposeDenied} \<union> range (\<lambda>k. PdpDenied (pdp_text pdp k))"
  using assms unfolding authorize_server_purpose_def Let_def
  by (auto simp: step_bind_Inl_iff step_lift_iff hash_step_not_error split: if_split_asm
      dest!: single_data_purpose_error ok_or_error request_pdp_context_error enforce_decision_Inl)

lemma enforce_frame:
  "enforce_decision pdp rid purpose d st = (r, st') \<Longrightarrow>
     audit_state.more st' = audit_state.more st \<and> as_cells st' = as_cells st \<and> prefix (as_log st) (as_log st')"
  by (cases d) (auto simp: enforce_decision_def log_info_def step_bind_def step_lift_def)

text \<open>Policy evaluation changes the cells and the log only, keeps the cells valid and only appends to the log.\<close>

definition policy_frame :: "pki_lib \<Rightarrow> 'm audit_state_scheme \<Rightarrow> 'm audit_state_scheme \<Rightarrow> bool" where
  "policy_frame pki st st' =
     (audit_state.more st' = audit_state.more st \<and> prefix (as_log st) (as_log st')
      \<and> (cells_valid pki st \<longrightarrow> cells_valid pki st'))"

lemma policy_frame_refl [simp]: "policy_frame pki st st"
  by (simp add: policy_frame_def)

lemma policy_frame_trans: "policy_frame pki a b \<Longrightarrow> policy_frame pki b c \<Longrightarrow> policy_frame pki a c"
  by (auto simp: policy_frame_def dest: prefix_order.trans)

lemma policy_frame_hash:
  fixes r :: "'e + string"
  assumes "route_purpose_policy_hash pki rm st = (r, st')"
  shows "policy_frame pki st st'"
proof -
  have "cells_valid pki (snd (route_purpose_policy_hash pki rm st :: ('e + string) \<times> _))"
    if "cells_valid pki st" by (rule route_purpose_policy_hash_value(2) [OF that])
  with assms route_purpose_policy_hash_frame [OF assms] show ?thesis by (simp add: policy_frame_def)
qed

lemma policy_frame_enforce: "enforce_decision pdp rid purpose d st = (r, st') \<Longrightarrow> policy_frame pki st st'"
  using enforce_frame [of pdp rid purpose d st r st'] by (auto simp: policy_frame_def cells_valid_def)


lemma policy_frame_bind:
  assumes "step_bind m f st = (r, st')"
    and "\<And>r1 st1. m st = (r1, st1) \<Longrightarrow> policy_frame pki st st1"
    and "\<And>a st1. m st = (Inr a, st1) \<Longrightarrow> f a st1 = (r, st') \<Longrightarrow> policy_frame pki st1 st'"
  shows "policy_frame pki st st'"
  using assms by (cases "m st") (auto simp: step_bind_def split: sum.splits intro: policy_frame_trans)

lemma authorize_frame:
  assumes "authorize_server_purpose hl pki pdp now_ns rm headers identity client_trust st = (r, st')"
  shows "policy_frame pki st st'"
  using assms unfolding authorize_server_purpose_def Let_def
  by (auto elim!: policy_frame_bind simp: step_lift_iff split: if_split_asm)
    (erule policy_frame_hash | erule policy_frame_enforce)+

section \<open>The policy decision point's contract\<close>

text \<open>
  What the connector relies on in an unconditional permit: every constraint of the policy holds of
  the request's context, and nothing is left that the connector would have to enforce itself.
\<close>

definition pdp_enforces :: "pdp_lib \<Rightarrow> bool" where
  "pdp_enforces pdp =
     (\<forall>ctx pol audit. pdp_decide pdp ctx pol = Permit audit \<longrightarrow>
        (\<forall>c \<in> set (pp_purpose_constraints pol). px_purpose ctx \<in> set c)
        \<and> (pp_permitted_jurisdictions pol \<noteq> [] \<longrightarrow>
             (\<exists>j. px_jurisdiction ctx = Some j \<and> j \<in> set (pp_permitted_jurisdictions pol)))
        \<and> (pp_allowed_assurance pol \<noteq> [] \<longrightarrow>
             (\<exists>a. px_asserted_assurance ctx = Some a \<and> a \<in> set (pp_allowed_assurance pol)))
        \<and> (pp_require_legal_basis pol \<longrightarrow> px_legal_basis_ref ctx \<noteq> None)
        \<and> (pp_require_consent pol \<longrightarrow> px_consent_ref ctx \<noteq> None)
        \<and> (\<forall>n. pp_max_source_age_seconds pol = Some n \<longrightarrow>
             (\<exists>a. px_source_observed_age_seconds ctx = Some a \<and> a \<le> n))
        \<and> pp_redaction_fields pol = [] \<and> pp_unsupported_odrl_terms pol = [])"

definition example_decide :: "pdp_context \<Rightarrow> pdp_policy \<Rightarrow> pdp_decision" where
  "example_decide ctx pol =
     (let audit = \<lparr>pa_policy_id = pp_policy_id pol, pa_policy_hash = pp_policy_hash pol,
                   pa_evaluated_rule_ids = pp_rule_ids pol\<rparr> in
      if \<not> list_all (\<lambda>c. px_purpose ctx \<in> set c) (pp_purpose_constraints pol)
      then Deny audit ''pdp.purpose_not_permitted''
      else if pp_permitted_jurisdictions pol \<noteq> []
        \<and> \<not> is_some_and (\<lambda>j. j \<in> set (pp_permitted_jurisdictions pol)) (px_jurisdiction ctx)
      then Deny audit ''pdp.jurisdiction_not_permitted''
      else if pp_allowed_assurance pol \<noteq> []
        \<and> \<not> is_some_and (\<lambda>a. a \<in> set (pp_allowed_assurance pol)) (px_asserted_assurance ctx)
      then Deny audit ''pdp.assurance_insufficient''
      else if pp_require_legal_basis pol \<and> px_legal_basis_ref ctx = None then Deny audit ''pdp.legal_basis_required''
      else if pp_require_consent pol \<and> px_consent_ref ctx = None then Deny audit ''pdp.consent_required''
      else if \<not> (case pp_max_source_age_seconds pol of None \<Rightarrow> True
                | Some n \<Rightarrow> is_some_and (\<lambda>a. a \<le> n) (px_source_observed_age_seconds ctx))
      then Deny audit ''pdp.evidence_stale''
      else if pp_unsupported_odrl_terms pol \<noteq> [] then Deny audit ''pdp.unsupported_policy_term''
      else if pp_redaction_fields pol \<noteq> [] then PermitWithRedaction audit (pp_redaction_fields pol)
      else Permit audit)"

definition example_pdp :: pdp_lib where
  "example_pdp = \<lparr>pdp_decide = example_decide, pdp_text = (\<lambda>k. if k = EVIDENCE_STALE then ''pdp.stale'' else ''pdp.denied'')\<rparr>"

lemma example_pdp_enforces: "pdp_enforces example_pdp"
  unfolding pdp_enforces_def
  by (auto simp: example_pdp_def example_decide_def Let_def list_all_iff split: if_split_asm option.split_asm)

section \<open>A governed example\<close>

definition governed_example_policy :: governed_route_policy_config where
  "governed_example_policy = default_governed_policy
     \<lparr>gp_permitted_jurisdictions := [''BF''], gp_max_source_age_seconds := Some 60\<rparr>"

definition governed_example :: route_match where
  "governed_example =
     \<lparr>rm_route = example_route ''r'' ''/v1''
        \<lparr>rt_purposes := [''care''], rt_governed_policy := Some governed_example_policy\<rparr>,
      rm_upstream_path = ''/v1/x''\<rparr>"

definition entitled_trust :: client_trust_config where
  "entitled_trust = example_trust
     \<lparr>ct_trust_context_entitlements :=
        [\<lparr>te_client_identity = '' spiffe://a/b'',
          te_trusted_context = default_trusted_context
            \<lparr>tc_jurisdiction := Some ''BF'', tc_source_observed_age_seconds := Some 90\<rparr>\<rparr>]\<rparr>"

definition governed_headers :: header_list where
  "governed_headers =
     [(''data-purpose'', '' care''), (''x-registry-trust-jurisdiction'', ''BF''),
      (''x-registry-source-observed-age-seconds'', ''30'')]"

lemma governed_example_purpose: "single_data_purpose list_headers governed_headers = Inr (Some ''care'')"
  by (simp add: single_data_purpose_def list_headers_def governed_headers_def DATA_PURPOSE_def visible_def
      List.map_filter_def option_filter_def rust_eval)

lemma governed_example_scopes:
  "trusted_context_scopes (Some governed_example_policy) (Some entitled_trust) ''spiffe://a/b''
   = [''registry:trust:jurisdiction:BF'', ''registry:trust:source_observed_age_seconds:90'']"
proof -
  have "trim '' spiffe://a/b'' = ''spiffe://a/b''" by (simp add: rust_eval)
  moreover have "context_scopes default_trusted_context = []"
    by (simp add: context_scopes_def default_trusted_context_def scope_if_def)
  moreover have "nat_to_string 90 = ''90''" by (simp add: rust_eval)
  ultimately show ?thesis
    by (simp add: trusted_context_scopes_def peer_trusted_context_scopes_def entitled_trust_def
        governed_example_policy_def default_governed_policy_def context_scopes_def scope_if_def
        default_trusted_context_def trust_context_scope_def btree_set_def)
qed

lemma governed_example_context:
  "request_pdp_context list_headers (pdp_text example_pdp) 5 ''care'' governed_headers example_identity
     [''registry:trust:jurisdiction:BF'', ''registry:trust:source_observed_age_seconds:90''] rid binding
   = Inr \<lparr>px_purpose = ''care'', px_legal_basis_ref = None, px_consent_ref = None, px_asserted_assurance = None,
       px_jurisdiction = Some ''BF'', px_requester_identity = Some ''spiffe://a/b'', px_subject_ref = None,
       px_relationship = None, px_on_behalf_of = None, px_requested_fact = Some binding,
       px_requested_disclosure = Some ''proxy_forward'', px_requested_credential_format = None,
       px_source_binding = Some binding, px_route_identity = Some rid, px_checked_scopes = [],
       px_source_observed_at_unix_seconds = None, px_source_observed_age_seconds = Some 30\<rparr>"
proof -
  have h: "trust_header_value list_headers governed_headers n =
      (if n = ''data-purpose'' then Some ''care''
       else if n = ''x-registry-trust-jurisdiction'' then Some ''BF''
       else if n = ''x-registry-source-observed-age-seconds'' then Some ''30'' else None)" for n
    by (simp add: trust_header_value_def header_str_def list_headers_def governed_headers_def visible_def
        option_filter_def rust_eval)
  have "parse_u64 ''30'' = Some 30" "parse_u64 ''90'' = Some 90" by (simp_all add: rust_eval)
  then show ?thesis
    by (simp add: request_pdp_context_def source_observed_at_unix_seconds_def source_observed_at_with_age_def
        source_observed_age_seconds_def verified_trust_header_value_def h TRUST_SOURCE_OBSERVED_AGE_SECONDS_def
        TRUST_JURISDICTION_def TRUST_LEGAL_BASIS_def TRUST_CONSENT_def TRUST_ASSURANCE_def example_identity_def
        trust_context_scope_def source_observed_age_limit_seconds_def List.map_filter_def)
qed

lemma governed_example_permitted:
  "\<exists>st'. authorize_server_purpose list_headers example_pki example_pdp 5 governed_example governed_headers
     example_identity (Some entitled_trust) empty_audit_state = (Inr (Some ''care''), st')"
proof -
  let ?binding = "source_binding_of governed_example"
  obtain hash st1 where hash: "route_purpose_policy_hash example_pki governed_example empty_audit_state
      = (Inr hash :: connector_problem + string, st1)"
    by (cases "route_purpose_policy_hash example_pki governed_example empty_audit_state
        :: (connector_problem + string) \<times> _") (metis hash_step_not_error sum.exhaust)
  have route: "rt_governed_policy (rm_route governed_example) = Some governed_example_policy"
    "rt_purposes (rm_route governed_example) = [''care'']" "\<not> rt_require_purpose (rm_route governed_example)"
    by (simp_all add: governed_example_def example_route_def)
  have id: "pi_value example_identity = ''spiffe://a/b''" by (simp add: example_identity_def)
  have "\<exists>audit. pdp_decide example_pdp
      \<lparr>px_purpose = ''care'', px_legal_basis_ref = None, px_consent_ref = None, px_asserted_assurance = None,
       px_jurisdiction = Some ''BF'', px_requester_identity = Some ''spiffe://a/b'', px_subject_ref = None,
       px_relationship = None, px_on_behalf_of = None, px_requested_fact = Some ?binding,
       px_requested_disclosure = Some ''proxy_forward'', px_requested_credential_format = None,
       px_source_binding = Some ?binding, px_route_identity = Some (rt_id (rm_route governed_example)),
       px_checked_scopes = [],
       px_source_observed_at_unix_seconds = None, px_source_observed_age_seconds = Some 30\<rparr>
      (pdp_policy_input (rm_route governed_example) hash ?binding (Some governed_example_policy)) = Permit audit"
    by (simp add: example_pdp_def example_decide_def pdp_policy_input_def Let_def purpose_constraints_of_def
        route governed_example_policy_def default_governed_policy_def option_filter_def)
  then show ?thesis
    unfolding authorize_server_purpose_def Let_def route id governed_example_purpose governed_example_scopes
    by (auto simp: route governed_example_context hash enforce_decision_def log_info_def step_bind_def step_lift_def)
qed

lemma verified_granted:
  assumes "verified_trust_header_value hl headers (trusted_context_scopes governed client_trust cid) name f = Some v"
    and "\<And>c v. trust_context_scope f v \<in> set (context_scopes c) \<longleftrightarrow> field c = Some v"
  shows "trust_header_value hl headers name = Some v \<and> granted governed client_trust cid field v"
  using assms(1) granted_scope [OF _ assms(2)] unfolding verified_value by blast

text \<open>Every assertion that reaches the policy decision point was sent by the peer and is granted to it.\<close>

lemma context_fields_granted:
  assumes "request_pdp_context hl pc now_ns purpose headers identity
      (trusted_context_scopes governed client_trust cid) rid binding = Inr ctx"
  shows "px_jurisdiction ctx = Some v \<Longrightarrow> trust_header_value hl headers TRUST_JURISDICTION = Some v
      \<and> granted governed client_trust cid tc_jurisdiction v"
    and "px_asserted_assurance ctx = Some v \<Longrightarrow> trust_header_value hl headers TRUST_ASSURANCE = Some v
      \<and> granted governed client_trust cid tc_asserted_assurance v"
    and "px_legal_basis_ref ctx = Some v \<Longrightarrow> trust_header_value hl headers TRUST_LEGAL_BASIS = Some v
      \<and> granted governed client_trust cid tc_legal_basis_ref v"
    and "px_consent_ref ctx = Some v \<Longrightarrow> trust_header_value hl headers TRUST_CONSENT = Some v
      \<and> granted governed client_trust cid tc_consent_ref v"
    and "px_source_observed_age_seconds ctx = Some a \<Longrightarrow>
      \<exists>limit. a \<le> limit \<and> granted governed client_trust cid tc_source_observed_age_seconds limit"
proof -
  note c = assms [unfolded request_pdp_context_Inr_iff]
  show "px_jurisdiction ctx = Some v \<Longrightarrow> trust_header_value hl headers TRUST_JURISDICTION = Some v
      \<and> granted governed client_trust cid tc_jurisdiction v"
    by (rule verified_granted [OF _ context_scopes_mem(1)]) (use c in simp)
  show "px_asserted_assurance ctx = Some v \<Longrightarrow> trust_header_value hl headers TRUST_ASSURANCE = Some v
      \<and> granted governed client_trust cid tc_asserted_assurance v"
    by (rule verified_granted [OF _ context_scopes_mem(2)]) (use c in simp)
  show "px_legal_basis_ref ctx = Some v \<Longrightarrow> trust_header_value hl headers TRUST_LEGAL_BASIS = Some v
      \<and> granted governed client_trust cid tc_legal_basis_ref v"
    by (rule verified_granted [OF _ context_scopes_mem(3)]) (use c in simp)
  show "px_consent_ref ctx = Some v \<Longrightarrow> trust_header_value hl headers TRUST_CONSENT = Some v
      \<and> granted governed client_trust cid tc_consent_ref v"
    by (rule verified_granted [OF _ context_scopes_mem(4)]) (use c in simp)
  assume "px_source_observed_age_seconds ctx = Some a"
  with c have "source_observed_age_seconds hl pc now_ns headers (trusted_context_scopes governed client_trust cid)
      = Inr (Some a)" by simp
  from observed_age [OF this] age_limit_granted
  show "\<exists>limit. a \<le> limit \<and> granted governed client_trust cid tc_source_observed_age_seconds limit" by blast
qed

text \<open>The gates a route activates, and the names of their rules.\<close>

fun gate_active :: "route_config \<Rightarrow> governed_route_policy_config option \<Rightarrow> policy_gate \<Rightarrow> bool" where
  "gate_active r g Purpose = (rt_purposes r \<noteq> [] \<or> (\<exists>p. g = Some p \<and> gp_permitted_purposes p \<noteq> []))"
| "gate_active r g Jurisdiction = (\<exists>p. g = Some p \<and> gp_permitted_jurisdictions p \<noteq> [])"
| "gate_active r g AssuranceAllowedSet = (\<exists>p. g = Some p \<and> gp_allowed_assurance p \<noteq> [])"
| "gate_active r g MinimumAssurance = (\<exists>p. g = Some p \<and> gp_minimum_assurance p \<noteq> None)"
| "gate_active r g SourceFreshness = (\<exists>p. g = Some p \<and> gp_max_source_age_seconds p \<noteq> None)"
| "gate_active r g LegalBasisRequired = (\<exists>p. g = Some p \<and> gp_require_legal_basis p)"
| "gate_active r g ConsentRequired = (\<exists>p. g = Some p \<and> gp_require_consent p)"
| "gate_active r g OdrlTerms = (\<exists>p. g = Some p \<and> gp_unsupported_odrl_terms p \<noteq> [])"
| "gate_active r g Redaction = (\<exists>p. g = Some p \<and> gp_redaction_fields p \<noteq> [])"
| "gate_active r g _ = True"

fun gate_name :: "policy_gate \<Rightarrow> string" where
  "gate_name PolicyIdentity = ''policy_identity''"
| "gate_name RequestedFact = ''requested_fact''"
| "gate_name RequestedDisclosure = ''requested_disclosure''"
| "gate_name SourceBinding = ''source_binding''"
| "gate_name RouteIdentity = ''route_identity''"
| "gate_name Purpose = ''purpose''"
| "gate_name Jurisdiction = ''jurisdiction''"
| "gate_name AssuranceAllowedSet = ''assurance''"
| "gate_name MinimumAssurance = ''minimum_assurance''"
| "gate_name SourceFreshness = ''source_freshness''"
| "gate_name LegalBasisRequired = ''legal_basis''"
| "gate_name ConsentRequired = ''consent''"
| "gate_name OdrlTerms = ''odrl_terms''"
| "gate_name Redaction = ''redaction''"

lemma insert_if_apply: "insert_if b k v m g = (if b \<and> g = k then Some v else m g)"
  by (simp add: insert_if_def)

lemma gate_name_inject: "gate_name g = gate_name g' \<longleftrightarrow> g = g'"
  by (cases g; cases g'; simp)

section \<open>Properties\<close>

text \<open>
  C27. Authorisation fails closed. On a route that lists purposes, requires one or has a governed
  policy, a request passes only with exactly one purpose and only on an unconditional permit of the
  policy decision point, asked with that purpose, the verified peer's identity, the route, and
  the hash of the route's policy; a permit with redactions does not pass. The decision is logged.
\<close>

theorem authorization_fail_closed:
  assumes "authorize_server_purpose hl pki pdp now_ns rm headers identity client_trust st = (Inr p, st')"
    and "policy_gated (rm_route rm)" and "cells_valid pki st"
  shows "\<exists>purpose ctx audit. p = Some purpose \<and> single_data_purpose hl headers = Inr (Some purpose)
    \<and> pdp_decide pdp ctx (pdp_policy_input (rm_route rm)
        (policy_digest pki (route_hash_material (rm_route rm))) (source_binding_of rm)
        (rt_governed_policy (rm_route rm))) = Permit audit
    \<and> px_purpose ctx = purpose \<and> px_requester_identity ctx = Some (pi_value identity)
    \<and> px_route_identity ctx = Some (rt_id (rm_route rm))
    \<and> as_log st' = as_log st @ [PdpPermitted (rt_id (rm_route rm)) audit]"
proof -
  from authorize_gated_Inr [OF assms(1,2)] obtain purpose ctx hash st1 audit where a:
    "p = Some purpose" "single_data_purpose hl headers = Inr (Some purpose)"
    "request_pdp_context hl (pdp_text pdp) now_ns purpose headers identity
        (trusted_context_scopes (rt_governed_policy (rm_route rm)) client_trust (pi_value identity))
        (rt_id (rm_route rm)) (source_binding_of rm) = Inr ctx"
    "route_purpose_policy_hash pki rm st = ((Inr hash :: connector_problem + string), st1)"
    "pdp_decide pdp ctx (pdp_policy_input (rm_route rm) hash (source_binding_of rm)
        (rt_governed_policy (rm_route rm))) = Permit audit"
    "st' = st1\<lparr>as_log := as_log st1 @ [PdpPermitted (rt_id (rm_route rm)) audit]\<rparr>" by blast
  have "fst (route_purpose_policy_hash pki rm st :: (connector_problem + string) \<times> _)
      = Inr (policy_digest pki (route_hash_material (rm_route rm)))"
    by (rule route_purpose_policy_hash_value(1) [OF assms(3)])
  with a(4) have "hash = policy_digest pki (route_hash_material (rm_route rm))" by simp
  moreover from route_purpose_policy_hash_frame [OF a(4)] a(6)
  have "as_log st' = as_log st @ [PdpPermitted (rt_id (rm_route rm)) audit]" by simp
  moreover from a(3) have "px_purpose ctx = purpose" "px_requester_identity ctx = Some (pi_value identity)"
    "px_route_identity ctx = Some (rt_id (rm_route rm))" by (simp_all add: request_pdp_context_Inr_iff)
  ultimately show ?thesis using a(1,2,5) by blast
qed

theorem authorization_fail_closed_witness:
  "\<exists>(st' :: audit_state) purpose ctx audit. Some ''care'' = Some purpose
    \<and> single_data_purpose list_headers governed_headers = Inr (Some purpose)
    \<and> pdp_decide example_pdp ctx (pdp_policy_input (rm_route governed_example)
        (policy_digest example_pki (route_hash_material (rm_route governed_example)))
        (source_binding_of governed_example) (rt_governed_policy (rm_route governed_example))) = Permit audit
    \<and> px_purpose ctx = purpose \<and> px_requester_identity ctx = Some (pi_value example_identity)
    \<and> px_route_identity ctx = Some (rt_id (rm_route governed_example))
    \<and> as_log st' = as_log empty_audit_state @ [PdpPermitted (rt_id (rm_route governed_example)) audit]"
proof -
  obtain st' where a: "authorize_server_purpose list_headers example_pki example_pdp 5 governed_example
      governed_headers example_identity (Some entitled_trust) empty_audit_state = (Inr (Some ''care''), st')"
    using governed_example_permitted by blast
  have g: "policy_gated (rm_route governed_example)"
    by (simp add: policy_gated_def governed_example_def)
  show ?thesis by (rule exI [of _ st'], rule authorization_fail_closed [OF a g empty_cells_valid])
qed



text \<open>
  C38. The only problems authorisation reports are a missing purpose, an ambiguous or unlisted
  purpose, and a problem code of the policy decision point; all of them are answered with a client
  error and audited as denied.
\<close>

theorem authorization_problems:
  assumes "authorize_server_purpose hl pki pdp now_ns rm headers identity client_trust st = (Inl e, st')"
  shows "(e = PurposeRequired \<or> e = PurposeDenied \<or> (\<exists>k. e = PdpDenied (pdp_text pdp k)))
    \<and> problem_status e \<in> {400, 403} \<and> audit_outcome e = ''denied''"
proof -
  from authorize_Inl [OF assms] have "e = PurposeRequired \<or> e = PurposeDenied \<or> (\<exists>k. e = PdpDenied (pdp_text pdp k))"
    by blast
  then show ?thesis by (auto simp: audit_outcome_def is_server_error_def)
qed

theorem authorization_problems_witness:
  "authorize_server_purpose list_headers example_pki example_pdp 5 governed_example [] example_identity None
     empty_audit_state = (Inl PurposeRequired, empty_audit_state)
   \<and> problem_status PurposeRequired \<in> {400, 403} \<and> audit_outcome PurposeRequired = ''denied''"
proof -
  have a: "authorize_server_purpose list_headers example_pki example_pdp 5 governed_example [] example_identity None
      empty_audit_state = (Inl PurposeRequired, empty_audit_state)"
    by (simp add: authorize_server_purpose_def Let_def single_data_purpose_def list_headers_def List.map_filter_def
        governed_example_def step_lift_def)
  from authorization_problems [OF a] a show ?thesis by blast
qed

text \<open>
  C39. Freshness from a source timestamp: the accepted timestamp is not in the future, the age is
  the exact difference to the current time without wrap-around, and it is within the limit granted
  to the peer.
\<close>

theorem source_timestamp_age:
  assumes "source_observed_at_with_age hl pc now_ns headers
      (trusted_context_scopes governed client_trust cid) = Inr (Some (t, age))"
    and "now_ns < 2 ^ 64 * int nanos_per_sec"
  shows "uint t + uint age = now_ns div int nanos_per_sec
    \<and> (\<exists>limit. age \<le> limit \<and> granted governed client_trust cid tc_source_observed_age_seconds limit)"
proof -
  from observed_at_with_age [OF assms(1)] obtain limit where l:
    "source_observed_age_limit_seconds (trusted_context_scopes governed client_trust cid) = Some limit"
    "age \<le> limit" "t \<le> of_int (now_ns div int nanos_per_sec)"
    "age = of_int (now_ns div int nanos_per_sec) - t" "0 \<le> now_ns" by blast
  from l(5) assms(2) have range: "0 \<le> now_ns div int nanos_per_sec" "now_ns div int nanos_per_sec < 2 ^ 64"
    by (simp_all add: nanos_per_sec_def)
  then have "uint (of_int (now_ns div int nanos_per_sec) :: u64) = now_ns div int nanos_per_sec"
    by (simp add: uint_word_of_int)
  moreover from l(3,4) have "uint age = uint (of_int (now_ns div int nanos_per_sec) :: u64) - uint t"
    by (simp add: uint_minus_simple_alt)
  ultimately show ?thesis using age_limit_granted [OF l(1)] l(2) by auto
qed

theorem source_timestamp_age_witness:
  "uint (90 :: u64) + uint (10 :: u64) = 100000000000 div int nanos_per_sec
   \<and> (\<exists>limit \<ge> (10 :: u64). granted (Some governed_example_policy) (Some entitled_trust) ''spiffe://a/b''
        tc_source_observed_age_seconds limit)"
proof -
  let ?headers = "[(''x-registry-source-observed-at-unix-seconds'', ''90'')]"
  have "trust_header_value list_headers ?headers ''x-registry-source-observed-at-unix-seconds'' = Some ''90''"
    by (simp add: trust_header_value_def header_str_def list_headers_def visible_def option_filter_def rust_eval)
  moreover have "parse_u64 ''90'' = Some 90" by (simp add: rust_eval)
  moreover have "source_observed_age_limit_seconds
      [''registry:trust:jurisdiction:BF'', ''registry:trust:source_observed_age_seconds:90''] = Some 90"
    using calculation(2) by (simp add: source_observed_age_limit_seconds_def List.map_filter_def)
  ultimately have s: "source_observed_at_with_age list_headers (pdp_text example_pdp) 100000000000 ?headers
      (trusted_context_scopes (Some governed_example_policy) (Some entitled_trust) ''spiffe://a/b'') = Inr (Some (90, 10))"
    unfolding governed_example_scopes source_observed_at_with_age_def
    by (simp add: nanos_per_sec_def)
  have n: "100000000000 < 2 ^ 64 * int nanos_per_sec" by (simp add: nanos_per_sec_def)
  from source_timestamp_age [OF s n] show ?thesis by blast
qed

text \<open>
  The client connector's purpose: on a route that requires one, a request goes on only with a
  purpose that is not blank and that comes from the configured source; a route without a
  configured source never lets a request pass; on other routes the caller's purpose is optional.
\<close>

lemma client_purpose_source:
  "resolve_client_purpose hl config rm headers = Inr p \<longleftrightarrow>
     (if rt_require_purpose (rm_route rm)
      then (\<exists>v. p = Some v \<and> trim v \<noteq> []
        \<and> (rt_purpose_source (rm_route rm) = Some StaticRouteDefault \<and> df_data_purpose (cc_defaults config) = Some v
           \<or> rt_purpose_source (rm_route rm) = Some ClientProvided \<and> header_str hl headers DATA_PURPOSE = Some v))
      else (case header_str hl headers DATA_PURPOSE of
              None \<Rightarrow> p = None
            | Some v \<Rightarrow> p = (if trim v = [] then None else Some v)))"
proof (cases "rt_require_purpose (rm_route rm)")
  case False
  then show ?thesis
    by (auto simp: resolve_client_purpose_def option_filter_def split: option.splits)
next
  case True
  show ?thesis
  proof (cases "rt_purpose_source (rm_route rm)")
    case None
    with True show ?thesis by (simp add: resolve_client_purpose_def unwrap_or_def)
  next
    case (Some source)
    with True show ?thesis
      by (cases source) (auto simp: resolve_client_purpose_def unwrap_or_def ok_or_Inr_iff option_filter_Some_iff)
  qed
qed

text \<open>
  Rule identifiers for audit: exactly the gates the route and its governed policy activate have
  a rule identifier, it names the route and the gate, and no two gates of a route share one.
\<close>

lemma gate_rule_ids:
  "route_pdp_rule_ids_by_gate route governed gate
     = (if gate_active route governed gate then Some (rule_id (rt_id route) (gate_name gate)) else None)
   \<and> (rule_id (rt_id route) (gate_name gate) = rule_id (rt_id route) (gate_name gate') \<longleftrightarrow> gate = gate')"
proof
  show "route_pdp_rule_ids_by_gate route governed gate
     = (if gate_active route governed gate then Some (rule_id (rt_id route) (gate_name gate)) else None)"
    unfolding route_pdp_rule_ids_by_gate_def Let_def
    by (cases governed; cases gate) (simp_all add: insert_if_apply)
  show "rule_id (rt_id route) (gate_name gate) = rule_id (rt_id route) (gate_name gate') \<longleftrightarrow> gate = gate'"
    by (simp add: rule_id_def gate_name_inject)
qed

end
