(* ===== verification/Connector_Redaction.thy ===== *)
theory Connector_Redaction
  imports Connector_Authorization
begin

text \<open>
  What identifies a client never reaches the log in clear (\<open>src/redaction.rs\<close>), and the choice
  of the log format (\<open>src/logging.rs\<close>). A hash that the source takes with \<open>expect\<close> is an
  option here: \<open>None\<close> stands for the panic.
\<close>

definition audit_key_hasher :: "'k audit_lib \<Rightarrow> 'u connector_config \<Rightarrow> connector_error + 'k" where
  "audit_key_hasher al config =
     (case au_hash_secret_env (cc_audit config) of
        Some var \<Rightarrow>
          map_err (\<lambda>err. InvalidConfig (''audit hash secret is invalid: '' @ err)) (hasher_from_env al var)
      | None \<Rightarrow>
          if au_allow_unkeyed_hashing (cc_audit config) then Inr (hasher_unkeyed_dev_only al)
          else Inl (InvalidConfig
            ''audit.hash_secret_env is required unless audit.allow_unkeyed_hashing is true''))"

definition identity_hash_for_log :: "'k audit_lib \<Rightarrow> 'k \<Rightarrow> string \<Rightarrow> string option" where
  "identity_hash_for_log al hasher value =
     audit_reference_hash al hasher ''registry-trust-connector-client-identity-v1'' [] value"

definition certificate_hash_for_log :: "'k audit_lib \<Rightarrow> 'k \<Rightarrow> string \<Rightarrow> string option" where
  "certificate_hash_for_log al hasher fingerprint_sha256 =
     audit_reference_hash al hasher ''registry-trust-connector-client-cert-v1'' [] fingerprint_sha256"

definition sanitized_path :: "string \<Rightarrow> string" where
  "sanitized_path path = path"

definition has_sensitive_headers :: "'h header_lib \<Rightarrow> 'h \<Rightarrow> bool" where
  "has_sensitive_headers hl headers =
     (hm_contains_key hl headers ''authorization'' \<or> hm_contains_key hl headers ''cookie'')"

text \<open>What the hasher's documentation promises: a class and an input that are not empty have a hash.\<close>

definition audit_hash_total :: "'k audit_lib \<Rightarrow> bool" where
  "audit_hash_total al =
     (\<forall>hasher class salt value. class \<noteq> [] \<and> value \<noteq> [] \<longrightarrow>
        (\<exists>hash. audit_reference_hash al hasher class salt value = Some hash))"

section \<open>Log format\<close>

datatype log_format = Text | Json

definition log_format_of :: "host \<Rightarrow> log_format" where
  "log_format_of h =
     (let name = to_ascii_lowercase (unwrap_or [] (env_var h ''REGISTRY_TRUST_CONNECTOR_LOG_FORMAT''))
      in if name = ''json'' \<or> name = ''jsonl'' then Json else Text)"

text \<open>\<open>init_tracing\<close>: the filter from the environment, if it parses, or \<open>info\<close>; output on stderr.\<close>

record tracing_setup =
  ts_filter :: string
  ts_json :: bool

definition init_tracing :: "host \<Rightarrow> string option \<Rightarrow> tracing_setup" where
  "init_tracing h filter_from_env =
     (let filter_text = unwrap_or ''info'' filter_from_env
      in case log_format_of h of
           Json \<Rightarrow> \<lparr>ts_filter = filter_text, ts_json = True\<rparr>
         | Text \<Rightarrow> \<lparr>ts_filter = filter_text, ts_json = False\<rparr>)"

end
