(* ===== verification/Connector_Rate_Limit.thy ===== *)
theory Connector_Rate_Limit
  imports Connector_Config
begin

text \<open>
  The request rate limiter (\<open>RequestRateLimiter\<close> in \<open>src/proxy.rs\<close>): one fixed window per
  client identity and route, in a map behind a mutex. A check reads the clock before it takes
  the lock, so the sequence of checks is given in lock order with the time each one carries.
  An \<open>Instant\<close> is a number of nanoseconds; \<open>duration_since\<close> saturates at zero, as
  subtraction on \<^typ>\<open>nat\<close> does. The counter is a 32-bit word.
\<close>

section \<open>State and check\<close>

record rate_window =
  rw_started :: nat
  rw_count :: u32

record rate_limiter =
  rl_windows :: "string \<rightharpoonup> rate_window"
  rl_poisoned :: bool

definition rate_limiter_default :: rate_limiter where
  "rate_limiter_default = \<lparr>rl_windows = Map.empty, rl_poisoned = False\<rparr>"

definition rate_key :: "string \<Rightarrow> string \<Rightarrow> string" where
  "rate_key identity route_id = identity @ [CHR 0x00] @ route_id"

definition duration_as_secs :: "nat \<Rightarrow> nat" where
  "duration_as_secs d = d div nanos_per_sec"

text \<open>The work on one map entry: insert if absent, start a new window after 60 seconds, count.\<close>

definition window_check ::
  "nat \<Rightarrow> u32 \<Rightarrow> rate_window option \<Rightarrow> (connector_problem + unit) \<times> rate_window" where
  "window_check now limit entry =
     (let window = (case entry of Some w \<Rightarrow> w | None \<Rightarrow> \<lparr>rw_started = now, rw_count = 0\<rparr>);
          window = (if duration_as_secs (now - rw_started window) \<ge> 60
                    then \<lparr>rw_started = now, rw_count = 0\<rparr> else window)
      in if rw_count window \<ge> limit then (Inl RateLimited, window)
         else (Inr (), window\<lparr>rw_count := rw_count window + 1\<rparr>))"

definition rate_check ::
  "nat \<Rightarrow> string \<Rightarrow> string \<Rightarrow> u32 \<Rightarrow> (rate_limiter, connector_problem, unit) step" where
  "rate_check now identity route_id limit rl =
     (if rl_poisoned rl then (Inl ConfigInvalid, rl)
      else let key = rate_key identity route_id;
               (result, window) = window_check now limit (rl_windows rl key)
           in (result, rl\<lparr>rl_windows := (rl_windows rl)(key \<mapsto> window)\<rparr>))"

text \<open>A sequence of checks in lock order, each with its time, identity and route.\<close>

type_synonym rate_event = "nat \<times> string \<times> string"

fun run_checks :: "u32 \<Rightarrow> rate_event list \<Rightarrow> rate_limiter
    \<Rightarrow> (connector_problem + unit) list \<times> rate_limiter" where
  "run_checks limit [] rl = ([], rl)"
| "run_checks limit ((now, identity, route_id) # events) rl =
     (let (result, rl') = rate_check now identity route_id limit rl;
          (results, rl'') = run_checks limit events rl'
      in (result # results, rl''))"

definition event_key :: "rate_event \<Rightarrow> string" where
  "event_key e = rate_key (fst (snd e)) (snd (snd e))"

section \<open>The interface of a fixed-window counter\<close>

text \<open>
  What the bound on admitted requests needs of one window: a step at or after the end of the
  window starts a new one at the step's time, any other step counts against the current
  window, and a step is admitted exactly when the count is below the limit.
\<close>

fun admitted_times :: "(nat \<Rightarrow> 's \<Rightarrow> bool \<times> 's) \<Rightarrow> 's \<Rightarrow> nat list \<Rightarrow> nat list" where
  "admitted_times step s [] = []"
| "admitted_times step s (now # ts) =
     (let (ok, s') = step now s
      in if ok then now # admitted_times step s' ts else admitted_times step s' ts)"

definition in_window :: "nat \<Rightarrow> nat \<Rightarrow> nat list \<Rightarrow> nat" where
  "in_window period t ts = length (filter (\<lambda>x. t \<le> x \<and> x < t + period) ts)"

lemma in_window_append: "in_window period t (xs @ ys) = in_window period t xs + in_window period t ys"
  by (simp add: in_window_def)

locale fixed_window =
  fixes step :: "nat \<Rightarrow> 's \<Rightarrow> bool \<times> 's"
    and start :: "'s \<Rightarrow> nat option"
    and count :: "'s \<Rightarrow> nat"
    and limit :: nat
    and period :: nat
  assumes step_fresh:
      "start s = None \<or> (\<exists>S. start s = Some S \<and> S + period \<le> now) \<Longrightarrow>
         fst (step now s) = (0 < limit) \<and> start (snd (step now s)) = Some now
         \<and> count (snd (step now s)) = (if 0 < limit then 1 else 0)"
    and step_within:
      "start s = Some S \<Longrightarrow> now < S + period \<Longrightarrow>
         fst (step now s) = (count s < limit) \<and> start (snd (step now s)) = Some S
         \<and> count (snd (step now s)) = (if count s < limit then Suc (count s) else count s)"
begin

lemma admitted_Cons:
  "admitted_times step s (now # ts) =
     (if fst (step now s) then [now] else []) @ admitted_times step (snd (step now s)) ts"
  by (simp add: split_beta Let_def)

lemma admitted_subset: "set (admitted_times step s ts) \<subseteq> set ts"
  by (induction ts arbitrary: s) (auto simp: split_beta Let_def)

lemma in_window_late:
  assumes "\<And>x. x \<in> set ts \<Longrightarrow> t + period \<le> x"
  shows "in_window period t (admitted_times step s ts) = 0"
  using assms admitted_subset [of s ts] by (fastforce simp: in_window_def filter_empty_conv)

lemma window_bound_started:
  assumes "start s = Some S" and "S \<le> lo" and "sorted (lo # ts)" and "count s \<le> limit"
  shows "in_window period t (admitted_times step s ts) \<le>
    (if t \<le> S then limit - count s else if t \<le> lo then 2 * limit - count s else 2 * limit)"
  using assms
proof (induction ts arbitrary: s S lo)
  case Nil
  then show ?case by (simp add: in_window_def)
next
  case (Cons now ts)
  let ?s = "snd (step now s)"
  have now: "lo \<le> now" "sorted (now # ts)" using Cons.prems(3) by auto
  have one: "in_window period t (if fst (step now s) then [now] else [])
      = (if fst (step now s) \<and> t \<le> now \<and> now < t + period then 1 else 0)"
    by (simp add: in_window_def)
  show ?case
  proof (cases "S + period \<le> now")
    case True
    with Cons.prems(1) have step: "fst (step now s) = (0 < limit)" "start ?s = Some now"
      "count ?s = (if 0 < limit then 1 else 0)"
      using step_fresh [of s now] by auto
    show ?thesis
    proof (cases "t \<le> S")
      case True
      with \<open>S + period \<le> now\<close> have "t + period \<le> now" by simp
      with now(2) have "in_window period t (admitted_times step s (now # ts)) = 0"
        by (intro in_window_late) auto
      then show ?thesis by simp
    next
      case False
      have "in_window period t (admitted_times step ?s ts) \<le>
          (if t \<le> now then limit - count ?s else 2 * limit)"
        using Cons.IH [OF step(2) order_refl now(2)] step(3) by (auto split: if_splits)
      with False now step Cons.prems(4) one show ?thesis
        unfolding admitted_Cons in_window_append by (auto split: if_splits)
    qed
  next
    case False
    then have step: "fst (step now s) = (count s < limit)" "start ?s = Some S"
      "count ?s = (if count s < limit then Suc (count s) else count s)"
      using step_within [OF Cons.prems(1), of now] by auto
    have "in_window period t (admitted_times step ?s ts) \<le>
        (if t \<le> S then limit - count ?s else if t \<le> now then 2 * limit - count ?s else 2 * limit)"
      using Cons.IH [OF step(2) _ now(2)] Cons.prems(2,4) now(1) step(3) by (auto split: if_splits)
    with step now Cons.prems(2,4) one show ?thesis
      unfolding admitted_Cons in_window_append by (auto split: if_splits)
  qed
qed

lemma window_bound:
  assumes "start s = None" and "sorted ts"
  shows "in_window period t (admitted_times step s ts) \<le> 2 * limit"
proof (cases ts)
  case Nil
  then show ?thesis by (simp add: in_window_def)
next
  case (Cons now rest)
  let ?s = "snd (step now s)"
  have step: "fst (step now s) = (0 < limit)" "start ?s = Some now"
    "count ?s = (if 0 < limit then 1 else 0)"
    using step_fresh [of s now] assms(1) by auto
  have "in_window period t (admitted_times step ?s rest) \<le>
      (if t \<le> now then limit - count ?s else 2 * limit)"
    using window_bound_started [OF step(2) order_refl, of rest t] assms(2) step(3)
    by (auto simp: Cons split: if_splits)
  then show ?thesis
    unfolding Cons admitted_Cons in_window_append
    using step by (auto simp: in_window_def split: if_splits)
qed

end

section \<open>The model's window meets the interface\<close>

definition window_step :: "u32 \<Rightarrow> nat \<Rightarrow> rate_window option \<Rightarrow> bool \<times> rate_window option" where
  "window_step limit now w = (let (r, w') = window_check now limit w in (r = Inr (), Some w'))"

definition window_count :: "rate_window option \<Rightarrow> nat" where
  "window_count w = (case w of None \<Rightarrow> 0 | Some w \<Rightarrow> unat (rw_count w))"

abbreviation minute :: nat where
  "minute \<equiv> 60 * nanos_per_sec"

lemma as_secs_ge_60: "60 \<le> duration_as_secs d \<longleftrightarrow> minute \<le> d"
  by (simp add: duration_as_secs_def nanos_per_sec_def less_eq_div_iff_mult_less_eq)

lemma unat_Suc_below: "c < (limit :: u32) \<Longrightarrow> unat (c + 1) = Suc (unat c)"
proof -
  assume "c < limit"
  then have "unat c < unat limit" by (simp add: word_less_nat_alt)
  moreover have "unat limit < 2 ^ LENGTH(32)" by (rule unsigned_less)
  ultimately show ?thesis by (simp add: unat_word_ariths)
qed

lemma window_check_fresh:
  "entry = None \<or> (\<exists>w. entry = Some w \<and> rw_started w + minute \<le> now) \<Longrightarrow>
     window_check now limit entry =
       (if limit = 0 then (Inl RateLimited, \<lparr>rw_started = now, rw_count = 0\<rparr>)
        else (Inr (), \<lparr>rw_started = now, rw_count = 1\<rparr>))"
  by (auto simp: window_check_def as_secs_ge_60 Let_def)

lemma window_check_within:
  "now < rw_started w + minute \<Longrightarrow>
     window_check now limit (Some w) =
       (if limit \<le> rw_count w then (Inl RateLimited, w)
        else (Inr (), w\<lparr>rw_count := rw_count w + 1\<rparr>))"
proof -
  assume "now < rw_started w + minute"
  then have "\<not> minute \<le> now - rw_started w" by (simp add: nanos_per_sec_def)
  then show ?thesis by (simp add: window_check_def as_secs_ge_60 Let_def)
qed

interpretation request_window: fixed_window
  "window_step limit" "map_option rw_started" window_count "unat limit" minute
  for limit :: u32
proof
  fix s :: "rate_window option" and now
  assume "map_option rw_started s = None \<or>
    (\<exists>S. map_option rw_started s = Some S \<and> S + minute \<le> now)"
  then have "s = None \<or> (\<exists>w. s = Some w \<and> rw_started w + minute \<le> now)" by auto
  from window_check_fresh [OF this, of limit]
  show "fst (window_step limit now s) = (0 < unat limit)
      \<and> map_option rw_started (snd (window_step limit now s)) = Some now
      \<and> window_count (snd (window_step limit now s)) = (if 0 < unat limit then 1 else 0)"
    by (auto simp: window_step_def window_count_def unat_gt_0)
next
  fix s :: "rate_window option" and S now
  assume "map_option rw_started s = Some S" and "now < S + minute"
  then obtain w where w: "s = Some w" "rw_started w = S" "now < rw_started w + minute" by auto
  from window_check_within [OF w(3), of limit] w
  show "fst (window_step limit now s) = (window_count s < unat limit)
      \<and> map_option rw_started (snd (window_step limit now s)) = Some S
      \<and> window_count (snd (window_step limit now s))
          = (if window_count s < unat limit then Suc (window_count s) else window_count s)"
    by (auto simp: window_step_def window_count_def word_le_nat_alt not_le
        unat_Suc_below word_less_nat_alt)
qed

section \<open>Lemmas: sequences of checks\<close>

lemma rate_check_healthy:
  "\<not> rl_poisoned rl \<Longrightarrow>
     rate_check now identity route_id limit rl =
       (let k = rate_key identity route_id in
        (fst (window_check now limit (rl_windows rl k)),
         rl\<lparr>rl_windows := (rl_windows rl)(k \<mapsto> snd (window_check now limit (rl_windows rl k)))\<rparr>))"
  by (simp add: rate_check_def Let_def split_beta)

lemma run_checks_Cons:
  "\<not> rl_poisoned rl \<Longrightarrow>
     run_checks limit (e # events) rl =
       (let k = event_key e; rl' = rl\<lparr>rl_windows := (rl_windows rl)(k \<mapsto>
              snd (window_check (fst e) limit (rl_windows rl k)))\<rparr>
        in (fst (window_check (fst e) limit (rl_windows rl k)) # fst (run_checks limit events rl'),
            snd (run_checks limit events rl')))"
  by (cases e) (simp add: rate_check_healthy event_key_def Let_def split_beta)

lemma run_checks_length: "length (fst (run_checks limit events rl)) = length events"
  by (induction events arbitrary: rl) (auto simp: split_beta Let_def)

lemma run_checks_healthy:
  "\<not> rl_poisoned rl \<Longrightarrow> \<not> rl_poisoned (snd (run_checks limit events rl))"
  by (induction events arbitrary: rl) (simp_all add: run_checks_Cons Let_def)

text \<open>The results of the checks of one key, within a sequence of checks of any keys.\<close>

definition results_for :: "string \<Rightarrow> rate_event list \<Rightarrow> 'r list \<Rightarrow> 'r list" where
  "results_for k events results =
     map snd (filter (\<lambda>er. event_key (fst er) = k) (zip events results))"

lemma run_checks_projection:
  assumes "\<not> rl_poisoned rl" and "\<not> rl_poisoned rl'" and "rl_windows rl k = rl_windows rl' k"
  shows "results_for k events (fst (run_checks limit events rl))
    = fst (run_checks limit (filter (\<lambda>e. event_key e = k) events) rl')"
  using assms
proof (induction events arbitrary: rl rl')
  case Nil
  then show ?case by (simp add: results_for_def)
next
  case (Cons e events)
  let ?upd = "\<lambda>rl. rl\<lparr>rl_windows := (rl_windows rl)(event_key e \<mapsto>
    snd (window_check (fst e) limit (rl_windows rl (event_key e))))\<rparr>"
  show ?case
  proof (cases "event_key e = k")
    case True
    with Cons.IH [of "?upd rl" "?upd rl'"] Cons.prems show ?thesis
      by (simp add: results_for_def run_checks_Cons Let_def)
  next
    case False
    with Cons.IH [of "?upd rl" rl'] Cons.prems show ?thesis
      by (simp add: results_for_def run_checks_Cons Let_def)
  qed
qed

lemma run_checks_admitted:
  assumes "\<not> rl_poisoned rl" and "\<And>e. e \<in> set events \<Longrightarrow> event_key e = k"
  shows "map (fst \<circ> fst) (filter (\<lambda>er. snd er = Inr ()) (zip events (fst (run_checks limit events rl))))
    = admitted_times (window_step limit) (rl_windows rl k) (map fst events)"
  using assms
proof (induction events arbitrary: rl)
  case Nil
  then show ?case by simp
next
  case (Cons e events)
  then show ?case
    by (simp add: run_checks_Cons Let_def window_step_def split_beta)
qed

lemma filter_zip_results:
  "length results = length events \<Longrightarrow>
     filter (\<lambda>er. event_key (fst er) = k) (zip events results)
       = zip (filter (\<lambda>e. event_key e = k) events) (results_for k events results)"
  by (induction results events rule: list_induct2) (auto simp: results_for_def)

lemma rate_key_inject:
  "CHR 0x00 \<notin> set i \<Longrightarrow> CHR 0x00 \<notin> set i' \<Longrightarrow>
     rate_key i r = rate_key i' r' \<longleftrightarrow> i = i' \<and> r = r'"
proof (induction i arbitrary: i')
  case Nil
  then show ?case by (cases i') (auto simp: rate_key_def)
next
  case (Cons c cs)
  then show ?case by (cases i') (auto simp: rate_key_def)
qed

definition window_inv :: "u32 \<Rightarrow> rate_limiter \<Rightarrow> bool" where
  "window_inv limit rl \<longleftrightarrow>
     \<not> rl_poisoned rl \<and> (\<forall>k w. rl_windows rl k = Some w \<longrightarrow> rw_count w \<le> limit)"

lemma window_check_count:
  "(\<And>w. entry = Some w \<Longrightarrow> rw_count w \<le> limit) \<Longrightarrow>
     rw_count (snd (window_check now limit entry)) \<le> limit"
  by (auto simp: window_check_def Let_def word_less_nat_alt word_le_nat_alt not_le
      unat_Suc_below [unfolded word_less_nat_alt] split: option.splits)

lemma rate_check_inv:
  "window_inv limit rl \<Longrightarrow> window_inv limit (snd (rate_check now identity route_id limit rl))"
  using window_check_count [of "rl_windows rl (rate_key identity route_id)" limit now]
  by (auto simp: window_inv_def rate_check_healthy Let_def)

lemma run_checks_inv: "window_inv limit rl \<Longrightarrow> window_inv limit (snd (run_checks limit events rl))"
proof (induction events arbitrary: rl)
  case Nil
  then show ?case by simp
next
  case (Cons e events)
  obtain now identity route_id where e: "e = (now, identity, route_id)" by (cases e)
  from Cons.IH [OF rate_check_inv [OF Cons.prems, of now identity route_id]] show ?case
    by (simp add: e split_beta Let_def)
qed

lemma run_checks_same_window:
  assumes "\<not> rl_poisoned rl" and "rl_windows rl (rate_key i r) = Some w"
    and "rw_count w \<le> limit" and "\<And>t. t \<in> set ts \<Longrightarrow> t < rw_started w + minute"
  shows "fst (run_checks limit (map (\<lambda>t. (t, i, r)) ts) rl) =
    replicate (min (length ts) (unat limit - unat (rw_count w))) (Inr ())
    @ replicate (length ts - (unat limit - unat (rw_count w))) (Inl RateLimited)"
  using assms
proof (induction ts arbitrary: rl w)
  case Nil
  then show ?case by simp
next
  case (Cons t ts)
  let ?k = "rate_key i r"
  let ?w = "snd (window_check t limit (Some w))"
  let ?rl = "rl\<lparr>rl_windows := (rl_windows rl)(?k \<mapsto> ?w)\<rparr>"
  have step: "window_check t limit (Some w) =
      (if limit \<le> rw_count w then (Inl RateLimited, w)
       else (Inr (), w\<lparr>rw_count := rw_count w + 1\<rparr>))"
    using Cons.prems(4) [of t] by (intro window_check_within) simp
  have run: "fst (run_checks limit (map (\<lambda>t. (t, i, r)) (t # ts)) rl)
      = fst (window_check t limit (Some w)) # fst (run_checks limit (map (\<lambda>t. (t, i, r)) ts) ?rl)"
    using Cons.prems(1,2) by (simp add: rate_check_healthy Let_def split_beta)
  show ?case
  proof (cases "limit \<le> rw_count w")
    case True
    then have "rw_count w = limit" using Cons.prems(3) by simp
    moreover have "fst (run_checks limit (map (\<lambda>t. (t, i, r)) ts) ?rl)
        = replicate (length ts) (Inl RateLimited)"
      using Cons.IH [of ?rl w] Cons.prems True step \<open>rw_count w = limit\<close> by simp
    ultimately show ?thesis unfolding run step by simp
  next
    case False
    then have c: "rw_count w < limit" "unat (rw_count w) < unat limit"
      by (simp_all add: word_less_nat_alt word_le_nat_alt not_le)
    let ?w' = "w\<lparr>rw_count := rw_count w + 1\<rparr>"
    have "rw_count ?w' \<le> limit"
      using c by (simp add: word_le_nat_alt unat_Suc_below)
    with Cons.IH [of ?rl ?w'] Cons.prems False step c
    have "fst (run_checks limit (map (\<lambda>t. (t, i, r)) ts) ?rl) =
        replicate (min (length ts) (unat limit - Suc (unat (rw_count w)))) (Inr ())
        @ replicate (length ts - (unat limit - Suc (unat (rw_count w)))) (Inl RateLimited)"
      by (simp add: unat_Suc_below)
    with False c show ?thesis
      unfolding run step by (simp add: min_def Suc_diff_Suc [symmetric])
  qed
qed

lemma admitted_in_any_minute:
  assumes "sorted (map fst events)"
  shows "length (filter (\<lambda>er. event_key (fst er) = rate_key identity route_id \<and> snd er = Inr ()
              \<and> t \<le> fst (fst er) \<and> fst (fst er) < t + 60 * nanos_per_sec)
            (zip events (fst (run_checks limit events rate_limiter_default)))) \<le> 2 * unat limit"
proof -
  let ?k = "rate_key identity route_id"
  let ?results = "fst (run_checks limit events rate_limiter_default)"
  let ?own = "filter (\<lambda>e. event_key e = ?k) events"
  let ?run = "fst (run_checks limit ?own rate_limiter_default)"
  have healthy: "\<not> rl_poisoned rate_limiter_default" and empty: "rl_windows rate_limiter_default ?k = None"
    by (simp_all add: rate_limiter_default_def)
  have "filter (\<lambda>er. event_key (fst er) = ?k) (zip events ?results) = zip ?own ?run"
    by (simp add: filter_zip_results run_checks_length
        run_checks_projection [OF healthy healthy refl])
  moreover have "filter (\<lambda>er. event_key (fst er) = ?k \<and> snd er = Inr ()
              \<and> t \<le> fst (fst er) \<and> fst (fst er) < t + minute) (zip events ?results)
      = filter (\<lambda>er. t \<le> fst (fst er) \<and> fst (fst er) < t + minute)
          (filter (\<lambda>er. snd er = Inr ())
            (filter (\<lambda>er. event_key (fst er) = ?k) (zip events ?results)))"
    by (simp add: filter_filter conj_assoc)
  ultimately have "filter (\<lambda>er. event_key (fst er) = ?k \<and> snd er = Inr ()
              \<and> t \<le> fst (fst er) \<and> fst (fst er) < t + minute) (zip events ?results)
      = filter (\<lambda>er. t \<le> fst (fst er) \<and> fst (fst er) < t + minute)
          (filter (\<lambda>er. snd er = Inr ()) (zip ?own ?run))"
    by (simp only:)
  then have "length (filter (\<lambda>er. event_key (fst er) = ?k \<and> snd er = Inr ()
              \<and> t \<le> fst (fst er) \<and> fst (fst er) < t + minute) (zip events ?results))
      = in_window minute t (map (fst \<circ> fst) (filter (\<lambda>er. snd er = Inr ()) (zip ?own ?run)))"
    by (simp add: in_window_def filter_map comp_def)
  also have "\<dots> = in_window minute t (admitted_times (window_step limit) None (map fst ?own))"
    using run_checks_admitted [OF healthy, of ?own ?k limit] empty by simp
  also have "\<dots> \<le> 2 * unat limit"
    using assms by (intro request_window.window_bound sorted_filter) simp_all
  finally show ?thesis .
qed

section \<open>Properties\<close>



text \<open>
  C23. Clients do not influence each other: for identities without a NUL byte, the results of
  the checks of one identity and route within any interleaving with checks of others are
  those of running its own checks alone.
\<close>

theorem rate_limit_isolated:
  assumes "\<And>e. e \<in> set events \<Longrightarrow> CHR 0x00 \<notin> set (fst (snd e))" and "CHR 0x00 \<notin> set identity"
  shows "map snd (filter (\<lambda>er. snd (fst er) = (identity, route_id))
            (zip events (fst (run_checks limit events rate_limiter_default))))
    = fst (run_checks limit (filter (\<lambda>e. snd e = (identity, route_id)) events) rate_limiter_default)"
proof -
  let ?results = "fst (run_checks limit events rate_limiter_default)"
  have key: "event_key e = rate_key identity route_id \<longleftrightarrow> snd e = (identity, route_id)"
    if "e \<in> set events" for e
    using rate_key_inject [OF assms(1) [OF that] assms(2)] by (auto simp: event_key_def prod_eq_iff)
  have "filter (\<lambda>er. snd (fst er) = (identity, route_id)) (zip events ?results)
      = filter (\<lambda>er. event_key (fst er) = rate_key identity route_id) (zip events ?results)"
    by (rule filter_cong) (auto simp: key dest: set_zip_leftD)
  moreover have "filter (\<lambda>e. snd e = (identity, route_id)) events
      = filter (\<lambda>e. event_key e = rate_key identity route_id) events"
    by (rule filter_cong) (auto simp: key)
  moreover have "\<not> rl_poisoned rate_limiter_default" by (simp add: rate_limiter_default_def)
  ultimately show ?thesis
    using run_checks_projection [of rate_limiter_default rate_limiter_default
        "rate_key identity route_id" events limit]
    by (simp add: results_for_def)
qed

theorem rate_limit_isolated_witness:
  "map snd (filter (\<lambda>er. snd (fst er) = (''b'', ''r''))
      (zip [(0 :: nat, ''a'', ''r''), (1, ''b'', ''r''), (2, ''a'', ''r'')]
        (fst (run_checks 1 [(0 :: nat, ''a'', ''r''), (1, ''b'', ''r''), (2, ''a'', ''r'')] rate_limiter_default))))
   = fst (run_checks 1 (filter (\<lambda>e. snd e = (''b'', ''r''))
        [(0 :: nat, ''a'', ''r''), (1, ''b'', ''r''), (2, ''a'', ''r'')]) rate_limiter_default)"
  by (rule rate_limit_isolated) auto

text \<open>
  C24. Within one window the limiter admits exactly the limit: of any sequence of requests of
  one identity and route in the minute after the first, the first ones up to the limit are
  admitted and all others are answered with the rate-limit problem.
\<close>

theorem rate_limit_exact:
  assumes "\<And>u. u \<in> set ts \<Longrightarrow> u < t + 60 * nanos_per_sec"
  shows "fst (run_checks limit (map (\<lambda>u. (u, identity, route_id)) (t # ts)) rate_limiter_default)
    = replicate (min (length (t # ts)) (unat limit)) (Inr ())
      @ replicate (length (t # ts) - unat limit) (Inl RateLimited)"
proof -
  let ?k = "rate_key identity route_id"
  let ?w = "\<lparr>rw_started = t, rw_count = if limit = 0 then 0 else 1\<rparr>"
  let ?rl = "rate_limiter_default\<lparr>rl_windows := (rl_windows rate_limiter_default)(?k \<mapsto> ?w)\<rparr>"
  have "window_check t limit None = ((if limit = 0 then Inl RateLimited else Inr ()), ?w)"
    using window_check_fresh [of None t limit] by auto
  then have run: "fst (run_checks limit (map (\<lambda>u. (u, identity, route_id)) (t # ts)) rate_limiter_default)
      = (if limit = 0 then Inl RateLimited else Inr ())
        # fst (run_checks limit (map (\<lambda>u. (u, identity, route_id)) ts) ?rl)"
    by (simp add: rate_check_healthy rate_limiter_default_def Let_def split_beta)
  have "rw_count ?w \<le> limit"
    by (auto simp: word_le_nat_alt Suc_leI unat_gt_0)
  then have "fst (run_checks limit (map (\<lambda>u. (u, identity, route_id)) ts) ?rl) =
      replicate (min (length ts) (unat limit - unat (rw_count ?w))) (Inr ())
      @ replicate (length ts - (unat limit - unat (rw_count ?w))) (Inl RateLimited)"
    using assms by (intro run_checks_same_window) (auto simp: rate_limiter_default_def)
  then show ?thesis
    unfolding run
    by (cases "unat limit") (auto simp: unat_eq_zero min_def)
qed

theorem rate_limit_exact_witness:
  "fst (run_checks 2 (map (\<lambda>u. (u, ''a'', ''r'')) (0 # [1, 2])) rate_limiter_default)
   = replicate (min (length [0, 1, 2 :: nat]) (unat (2 :: u32))) (Inr ())
     @ replicate (length [0, 1, 2 :: nat] - unat (2 :: u32)) (Inl RateLimited)"
  by (rule rate_limit_exact) (auto simp: nanos_per_sec_def)



end
