(* ===== verification/Connector_Proxy.thy ===== *)
theory Connector_Proxy
  imports Connector_Redaction Connector_Rate_Limit
begin

text \<open>
  The request handlers (\<open>src/proxy.rs\<close>). A handler is a step on the state the requests share:
  the policy hash cells, the log, the rate limiter and the list of requests handed to the HTTP
  client. What differs from request to request and is not in the request (clocks, a fresh
  identifier, the upstream's reply, when each awaited operation is done) is the record \<open>moment\<close>.
  The request timeout is enforced at the await points: an operation that is not done at the
  deadline ends the handler there, with the state as it is. Log events of level info are recorded
  as with the default filter.
\<close>

section \<open>Requests, responses, state\<close>

record ('h, 'b) http_request =
  rq_method :: string
  rq_path :: string
  rq_query :: "string option"
  rq_headers :: 'h
  rq_body :: 'b
  rq_peer_chain :: "peer_certificate_chain option"

record 'u outbound_request =
  ob_method :: string
  ob_url :: 'u
  ob_headers :: "(string \<times> bytes) list"
  ob_body :: bytes

record http_response =
  rp_status :: nat
  rp_headers :: "(string \<times> bytes) list"
  rp_body :: bytes

datatype response = Forwarded http_response | ProblemResponse problem_document

fun response_status :: "response \<Rightarrow> nat" where
  "response_status (Forwarded r) = rp_status r"
| "response_status (ProblemResponse d) = pd_status d"

datatype http_client = MtlsClient mtls_client | PlatformClient nat string

record ('u, 'k) proxy_state =
  ps_config :: "'u connector_config"
  ps_mode :: mode
  ps_client :: http_client
  ps_server_trust :: "server_trust_policy option"
  ps_audit_hasher :: "'k option"

definition proxy_state_client :: "'u connector_config \<Rightarrow> mtls_client \<Rightarrow> ('u, 'k) proxy_state" where
  "proxy_state_client config client =
     \<lparr>ps_config = config, ps_mode = Client, ps_client = MtlsClient client,
      ps_server_trust = None, ps_audit_hasher = None\<rparr>"

definition proxy_state_server ::
  "('u, 'h, 'k) platform \<Rightarrow> 'u connector_config \<Rightarrow> connector_error + ('u, 'k) proxy_state" where
  "proxy_state_server pf config =
     (let client = PlatformClient (upstream_timeout config) ''registry-trust-connector/0.1'' in
      and_then (server_trust_from_config (pf_host pf) (pf_pki pf) config) (\<lambda>trust.
      and_then (audit_key_hasher (pf_audit pf) config) (\<lambda>hasher.
      Inr \<lparr>ps_config = config, ps_mode = Server, ps_client = client,
           ps_server_trust = Some trust, ps_audit_hasher = Some hasher\<rparr>)))"

text \<open>The shared state: the caches and the log of policy evaluation, the limiter, and what was sent.\<close>

record 'u proxy_world = audit_state +
  pw_rate :: rate_limiter
  pw_sent :: "'u outbound_request list"

datatype await_point = AwaitBody | AwaitSend | AwaitResponseBody

text \<open>
  \<open>mo_done_after\<close>: how long after the start of the request an awaited operation is done, if
  it ever is.
\<close>

record ('u, 'r) moment =
  mo_instant :: nat
  mo_system_now :: int
  mo_ulid :: string
  mo_done_after :: "await_point \<Rightarrow> nat option"
  mo_reply :: "'u outbound_request \<Rightarrow> 'r option"

text \<open>A handler ends early with a problem it reports, or by a panic.\<close>

datatype failure = Reported connector_problem | Panicked

definition step_map_err :: "('e \<Rightarrow> 'f) \<Rightarrow> ('s, 'e, 'a) step \<Rightarrow> ('s, 'f, 'a) step" where
  "step_map_err g m s = (case m s of (r, s') \<Rightarrow> (map_err g r, s'))"

definition report :: "connector_problem + 'a \<Rightarrow> ('s, failure, 'a) step" where
  "report r = step_lift (map_err Reported r)"

definition await :: "nat \<Rightarrow> ('u, 'r) moment \<Rightarrow> await_point \<Rightarrow> ('s, failure, unit) step" where
  "await deadline mo p =
     report (case mo_done_after mo p of
               None \<Rightarrow> Inl RequestTimeout
             | Some t \<Rightarrow> if t \<le> deadline then Inr () else Inl RequestTimeout)"

section \<open>Helpers\<close>

definition valid_request_id :: "string \<Rightarrow> bool" where
  "valid_request_id value =
     (value \<noteq> [] \<and> length value \<le> 128
      \<and> list_all (\<lambda>b. is_ascii_alphanumeric b \<or> b \<in> {CHR ''-'', CHR ''_'', CHR ''.'', CHR '':''}) value)"

definition request_id :: "'h header_lib \<Rightarrow> string \<Rightarrow> 'h \<Rightarrow> string" where
  "request_id hl ulid headers =
     unwrap_or ulid (option_filter valid_request_id (header_str hl headers REQUEST_ID))"

definition header_value :: "'h header_lib \<Rightarrow> string \<Rightarrow> connector_problem + bytes" where
  "header_value hl value = ok_or ConfigInvalid (hv_from_str hl value)"

definition build_url :: "'u url_lib \<Rightarrow> 'u \<Rightarrow> string \<Rightarrow> string option \<Rightarrow> 'u option" where
  "build_url ul base path query =
     url_parse ul (before_path ul base @ path @ (case query of None \<Rightarrow> [] | Some q \<Rightarrow> ''?'' @ q))"

definition filtered_headers :: "'h header_lib \<Rightarrow> 'h \<Rightarrow> route_match \<Rightarrow> 'h" where
  "filtered_headers hl headers route_match =
     filter_proxy_request_headers hl headers
       (strict_policy
          \<lparr>hp_allow_authorization := rt_allow_forward_authorization (rm_route route_match),
           hp_allow_cookie := rt_allow_forward_cookie (rm_route route_match),
           hp_private_prefixes := [''x-registry-connector-'']\<rparr>)"

definition upstream_auth_header ::
  "('u, 'h, 'k) platform \<Rightarrow> 'u connector_config \<Rightarrow> route_match \<Rightarrow> connector_problem + bytes" where
  "upstream_auth_header pf config route_match =
     and_then (ok_or ConfigInvalid (cc_upstream config)) (\<lambda>upstream.
     and_then (ok_or UpstreamAuthMissing
                 (case rt_upstream_auth_header_env (rm_route route_match) of
                    Some var \<Rightarrow> Some var
                  | None \<Rightarrow> up_default_auth_header_env upstream)) (\<lambda>var.
     and_then (ok_or UpstreamAuthMissing
                 (option_filter (\<lambda>v. trim v \<noteq> []) (env_var (pf_host pf) var))) (\<lambda>secret.
     header_value (pf_headers pf)
       (if trim (up_auth_header_scheme upstream) = [] then secret
        else up_auth_header_scheme upstream @ '' '' @ secret))))"

definition read_limited_body ::
  "('b, 'r, 'h) wire_lib \<Rightarrow> nat \<Rightarrow> ('u, 'r) moment \<Rightarrow> 'b \<Rightarrow> usize \<Rightarrow> ('s, failure, bytes) step" where
  "read_limited_body wl deadline mo body max_bytes =
     step_bind (await deadline mo AwaitBody) (\<lambda>_. report (ok_or BodyTooLarge (to_bytes wl body max_bytes)))"

text \<open>
  \<open>send_upstream\<close>: only the entries that \<open>into_iter\<close> yields with a name are copied. The
  request counts as sent once it is handed to the client.
\<close>

definition named_headers :: "(string option \<times> bytes) list \<Rightarrow> (string \<times> bytes) list" where
  "named_headers entries =
     List.map_filter (\<lambda>(name, value). map_option (\<lambda>n. (n, value)) name) entries"

definition hand_over :: "'u outbound_request \<Rightarrow> ('u proxy_world, failure, unit) step" where
  "hand_over ob w = (Inr (), w\<lparr>pw_sent := pw_sent w @ [ob]\<rparr>)"

definition send_upstream ::
  "'h header_lib \<Rightarrow> ('b, 'r, 'h) wire_lib \<Rightarrow> nat \<Rightarrow> ('u, 'r) moment \<Rightarrow> string \<Rightarrow> 'u \<Rightarrow> 'h \<Rightarrow> bytes \<Rightarrow> usize
   \<Rightarrow> ('u proxy_world, failure, http_response) step" where
  "send_upstream hl wl deadline mo meth url headers body max_bytes =
     step_bind (report (ok_or ConfigInvalid (method_from_bytes wl meth))) (\<lambda>reqwest_method.
     let ob = \<lparr>ob_method = reqwest_method, ob_url = url,
               ob_headers = named_headers (hm_into_iter hl headers), ob_body = body\<rparr> in
     step_bind (hand_over ob) (\<lambda>_.
     step_bind (await deadline mo AwaitSend) (\<lambda>_.
     step_bind (report (ok_or UpstreamUnavailable (mo_reply mo ob))) (\<lambda>reply.
     step_bind (report (ok_or UpstreamUnavailable (status_from_u16 wl (rs_status wl reply)))) (\<lambda>status.
     let response_headers = hm_iter hl (filter_proxy_response_headers hl (rs_headers wl reply)) in
     step_bind (await deadline mo AwaitResponseBody) (\<lambda>_.
     step_bind (report (ok_or UpstreamUnavailable (read_bounded wl reply max_bytes))) (\<lambda>bytes.
     report (if response_build wl status response_headers bytes
             then Inr \<lparr>rp_status = status, rp_headers = response_headers, rp_body = bytes\<rparr>
             else Inl UpstreamUnavailable))))))))"

section \<open>The client's handler\<close>

definition CARGO_PKG_VERSION :: string where
  "CARGO_PKG_VERSION = ''0.1.0''"

definition insert_header :: "'h header_lib \<Rightarrow> string \<Rightarrow> string \<Rightarrow> 'h \<Rightarrow> connector_problem + 'h" where
  "insert_header hl name value headers =
     and_then (header_value hl value) (\<lambda>v. Inr (hm_insert hl headers name v))"

definition insert_header_opt ::
  "'h header_lib \<Rightarrow> string \<Rightarrow> string option \<Rightarrow> 'h \<Rightarrow> connector_problem + 'h" where
  "insert_header_opt hl name value headers =
     (case value of None \<Rightarrow> Inr headers | Some v \<Rightarrow> insert_header hl name v headers)"

definition client_headers ::
  "'h header_lib \<Rightarrow> 'u connector_config \<Rightarrow> route_match \<Rightarrow> 'h \<Rightarrow> string \<Rightarrow> string option \<Rightarrow> connector_problem + 'h" where
  "client_headers hl config route_match headers rid purpose =
     and_then (insert_header hl REQUEST_ID rid (filtered_headers hl headers route_match)) (\<lambda>h1.
     let h2 = hm_insert hl h1 CONNECTOR_VERSION CARGO_PKG_VERSION in
     and_then (insert_header_opt hl CONNECTOR_ID (cc_connector_id config) h2) (\<lambda>h3.
     insert_header_opt hl DATA_PURPOSE purpose h3))"

definition handle_client ::
  "('u, 'h, 'k) platform \<Rightarrow> ('b, 'r, 'h) wire_lib \<Rightarrow> nat \<Rightarrow> ('u, 'r) moment \<Rightarrow> ('u, 'k) proxy_state
   \<Rightarrow> ('h, 'b) http_request \<Rightarrow> string \<Rightarrow> ('u proxy_world, failure, http_response) step" where
  "handle_client pf wl deadline mo ps req rid =
     (let config = ps_config ps; hl = pf_headers pf in
      step_bind (report (map_err (\<lambda>_. RouteDenied)
        (find_client_route (pf_decode pf) (cc_routes config) (rq_method req) (rq_path req)))) (\<lambda>route_match.
      step_bind (report (resolve_client_purpose hl config route_match (rq_headers req))) (\<lambda>purpose.
      step_bind (read_limited_body wl deadline mo (rq_body req) (max_body_bytes config)) (\<lambda>body.
      step_bind (report (ok_or ConfigInvalid (cc_server config))) (\<lambda>server.
      step_bind (report (ok_or ConfigInvalid
        (build_url (pf_url pf) (cs_url server) (rm_upstream_path route_match) (rq_query req)))) (\<lambda>url.
      step_bind (report (client_headers hl config route_match (rq_headers req) rid purpose)) (\<lambda>headers.
      send_upstream hl wl deadline mo (rq_method req) url headers body (max_body_bytes config))))))))"

section \<open>The server's handler\<close>

definition server_headers ::
  "('u, 'h, 'k) platform \<Rightarrow> 'u connector_config \<Rightarrow> 'u upstream_config \<Rightarrow> route_match \<Rightarrow> peer_identity \<Rightarrow> 'h
   \<Rightarrow> string \<Rightarrow> string option \<Rightarrow> connector_problem + 'h" where
  "server_headers pf config upstream route_match identity headers rid purpose =
     (let hl = pf_headers pf;
          h0 = hm_remove hl
                 (filter_proxy_request_headers hl headers
                    (strict_policy\<lparr>hp_private_prefixes := [''x-registry-connector-'']\<rparr>)) DATA_PURPOSE
      in
      and_then (insert_header_opt hl DATA_PURPOSE purpose h0) (\<lambda>h1.
      and_then (insert_header hl REQUEST_ID rid h1) (\<lambda>h2.
      and_then (upstream_auth_header pf config route_match) (\<lambda>auth_value.
      and_then (ok_or ConfigInvalid (hn_from_bytes hl (up_auth_header_name upstream))) (\<lambda>name.
      let h3 = hm_insert hl h2 name auth_value in
      if rt_forward_client_identity_header (rm_route route_match)
      then insert_header hl CONNECTOR_CLIENT_IDENTITY (pi_value identity) h3
      else Inr h3)))))"

definition identity_allowed :: "'u connector_config \<Rightarrow> peer_identity \<Rightarrow> bool" where
  "identity_allowed config identity =
     (case cc_client_trust config of
        None \<Rightarrow> False
      | Some trust \<Rightarrow> list_ex (\<lambda>allowed. trim allowed = pi_value identity) (ct_allowed_identities trust))"

definition expect_some :: "'a option \<Rightarrow> ('s, failure, 'a) step" where
  "expect_some x = step_lift (ok_or Panicked x)"

definition log_authorized ::
  "('u, 'h, 'k) platform \<Rightarrow> ('u, 'k) proxy_state \<Rightarrow> route_match \<Rightarrow> peer_identity \<Rightarrow> string
   \<Rightarrow> ('u proxy_world, failure, unit) step" where
  "log_authorized pf ps route_match identity rid =
     step_bind (report (ok_or ConfigInvalid (ps_audit_hasher ps))) (\<lambda>hasher.
     step_bind (expect_some (identity_hash_for_log (pf_audit pf) hasher (pi_value identity))) (\<lambda>id_hash.
     step_bind (expect_some (certificate_hash_for_log (pf_audit pf) hasher (pi_fingerprint_sha256 identity))) (\<lambda>cert_hash.
     log_info (ServerAuthorized (rt_id (rm_route route_match)) id_hash cert_hash rid))))"

definition limit_rate ::
  "('u, 'r) moment \<Rightarrow> string \<Rightarrow> string \<Rightarrow> u32 \<Rightarrow> ('u proxy_world, failure, unit) step" where
  "limit_rate mo identity route_id limit w =
     (case rate_check (mo_instant mo) identity route_id limit (pw_rate w) of
        (r, rl) \<Rightarrow> (map_err Reported r, w\<lparr>pw_rate := rl\<rparr>))"

text \<open>
  \<open>handle_server\<close> in two parts: everything that decides whether the request is admitted, up
  to the rate limiter, and what is done with an admitted request.
\<close>

definition server_admission ::
  "('u, 'h, 'k) platform \<Rightarrow> pdp_lib \<Rightarrow> ('u, 'r) moment \<Rightarrow> ('u, 'k) proxy_state \<Rightarrow> ('h, 'b) http_request
   \<Rightarrow> ('u proxy_world, failure, peer_identity \<times> route_match \<times> string option) step" where
  "server_admission pf pdp mo ps req =
     (let config = ps_config ps in
      step_bind (report (ok_or ClientIdentityMissing (rq_peer_chain req))) (\<lambda>chain.
      step_bind (report (ok_or ConfigInvalid (ps_server_trust ps))) (\<lambda>trust.
      step_bind (report (map_err (\<lambda>_. ClientIdentityDenied)
        (verify_peer (pf_pki pf) (mo_system_now mo) trust chain))) (\<lambda>identity.
      step_bind (report (if identity_allowed config identity then Inr () else Inl ClientIdentityDenied)) (\<lambda>_.
      step_bind (report (map_err (\<lambda>_. RouteDenied)
        (find_server_route (pf_decode pf) (cc_routes config) (rq_method req) (rq_path req) (pi_value identity)))) (\<lambda>route_match.
      step_bind (step_map_err Reported
        (authorize_server_purpose (pf_headers pf) (pf_pki pf) pdp (mo_system_now mo) route_match (rq_headers req) identity
          (cc_client_trust config))) (\<lambda>purpose.
      step_bind (limit_rate mo (pi_value identity) (rt_id (rm_route route_match))
        (lm_max_requests_per_identity_per_minute (cc_limits config))) (\<lambda>_.
      report (Inr (identity, route_match, purpose))))))))))"

definition server_forward ::
  "('u, 'h, 'k) platform \<Rightarrow> ('b, 'r, 'h) wire_lib \<Rightarrow> nat \<Rightarrow> ('u, 'r) moment \<Rightarrow> ('u, 'k) proxy_state
   \<Rightarrow> ('h, 'b) http_request \<Rightarrow> string \<Rightarrow> peer_identity \<Rightarrow> route_match \<Rightarrow> string option
   \<Rightarrow> ('u proxy_world, failure, http_response) step" where
  "server_forward pf wl deadline mo ps req rid identity route_match purpose =
     (let config = ps_config ps in
      step_bind (read_limited_body wl deadline mo (rq_body req) (max_body_bytes config)) (\<lambda>body.
      step_bind (report (ok_or ConfigInvalid (cc_upstream config))) (\<lambda>upstream.
      step_bind (report (ok_or ConfigInvalid
        (build_url (pf_url pf) (up_base_url upstream) (rm_upstream_path route_match) (rq_query req)))) (\<lambda>url.
      step_bind (report (server_headers pf config upstream route_match identity (rq_headers req) rid purpose)) (\<lambda>headers.
      step_bind (log_authorized pf ps route_match identity rid) (\<lambda>_.
      send_upstream (pf_headers pf) wl deadline mo (rq_method req) url headers body (max_body_bytes config)))))))"

definition handle_server ::
  "('u, 'h, 'k) platform \<Rightarrow> ('b, 'r, 'h) wire_lib \<Rightarrow> pdp_lib \<Rightarrow> nat \<Rightarrow> ('u, 'r) moment \<Rightarrow> ('u, 'k) proxy_state
   \<Rightarrow> ('h, 'b) http_request \<Rightarrow> string \<Rightarrow> ('u proxy_world, failure, http_response) step" where
  "handle_server pf wl pdp deadline mo ps req rid =
     step_bind (server_admission pf pdp mo ps req) (\<lambda>(identity, route_match, purpose).
       server_forward pf wl deadline mo ps req rid identity route_match purpose)"

section \<open>The entry point\<close>

text \<open>
  \<open>proxy_handler\<close>: run the handler of the mode, log the completed request (the latency is the
  only field left out), answer with the response or the problem document. A panic ends the task
  without answer.
\<close>

definition completed ::
  "('u, 'k) proxy_state \<Rightarrow> ('h, 'b) http_request \<Rightarrow> string \<Rightarrow> connector_problem option \<Rightarrow> response \<Rightarrow> completed_event" where
  "completed ps req rid problem rsp =
     \<lparr>ev_mode = ps_mode ps, ev_method = rq_method req, ev_path_len = length (rq_path req),
      ev_query_present = (rq_query req \<noteq> None), ev_request_id = rid,
      ev_status = response_status rsp, ev_status_class = response_status rsp div 100,
      ev_outcome = unwrap_or ''forwarded'' (map_option audit_outcome problem),
      ev_problem_code = unwrap_or [] (map_option problem_code problem),
      ev_denial_stage = unwrap_or [] (Option.bind problem denial_stage),
      ev_denial_reason = unwrap_or [] (Option.bind problem denial_reason)\<rparr>"

definition proxy_handler ::
  "('u, 'h, 'k) platform \<Rightarrow> ('b, 'r, 'h) wire_lib \<Rightarrow> pdp_lib \<Rightarrow> ('u, 'r) moment \<Rightarrow> ('u, 'k) proxy_state
   \<Rightarrow> ('h, 'b) http_request \<Rightarrow> 'u proxy_world \<Rightarrow> response option \<times> 'u proxy_world" where
  "proxy_handler pf wl pdp mo ps req w =
     (let rid = request_id (pf_headers pf) (mo_ulid mo) (rq_headers req);
          deadline = request_timeout (ps_config ps);
          (result, w') = (case ps_mode ps of
             Client \<Rightarrow> handle_client pf wl deadline mo ps req rid w
           | Server \<Rightarrow> handle_server pf wl pdp deadline mo ps req rid w);
          finish = (\<lambda>problem rsp.
             (Some rsp, w'\<lparr>as_log := as_log w' @ [RequestCompleted (completed ps req rid problem rsp)]\<rparr>))
      in case result of
           Inr rsp \<Rightarrow> finish None (Forwarded rsp)
         | Inl (Reported problem) \<Rightarrow> finish (Some problem) (ProblemResponse (problem_response problem))
         | Inl Panicked \<Rightarrow> (None, w'))"

section \<open>Steps of the handlers\<close>

lemma report_Inr_iff [result_simps]: "report r s = (Inr a, t) \<longleftrightarrow> r = Inr a \<and> t = s"
  by (cases r) (auto simp: report_def step_lift_def)

lemma report_Inl_iff [result_simps]:
  "report r s = (Inl e, t) \<longleftrightarrow> (\<exists>p. r = Inl p \<and> e = Reported p) \<and> t = s"
  by (cases r) (auto simp: report_def step_lift_def)

lemma report_simps [simp]: "report (Inr a) s = (Inr a, s)" "report (Inl p) s = (Inl (Reported p), s)"
  by (simp_all add: report_def step_lift_def)

lemma if_err_Inr [result_simps]: "(if b then Inr a else Inl e) = Inr c \<longleftrightarrow> b \<and> c = a"
  by auto

lemma if_err_Inl [result_simps]: "(if b then Inr a else Inl e) = Inl f \<longleftrightarrow> \<not> b \<and> f = e"
  by auto

lemma step_map_err_Inr_iff [result_simps]: "step_map_err g m s = (Inr a, t) \<longleftrightarrow> m s = (Inr a, t)"
  by (auto simp: step_map_err_def result_simps split: prod.splits)

lemma step_map_err_Inl_iff [result_simps]:
  "step_map_err g m s = (Inl f, t) \<longleftrightarrow> (\<exists>e. m s = (Inl e, t) \<and> f = g e)"
  by (auto simp: step_map_err_def result_simps split: prod.splits)

text \<open>An await point is passed when the operation is done by the deadline.\<close>

definition in_time :: "nat \<Rightarrow> ('u, 'r) moment \<Rightarrow> await_point \<Rightarrow> bool" where
  "in_time deadline mo p = is_some_and (\<lambda>t. t \<le> deadline) (mo_done_after mo p)"

lemma await_eq: "await deadline mo p w = (if in_time deadline mo p then Inr () else Inl (Reported RequestTimeout), w)"
  by (auto simp: await_def in_time_def is_some_and_def split: option.splits)

lemma await_Inr_iff [result_simps]:
  "await deadline mo p w = (Inr u, w') \<longleftrightarrow> in_time deadline mo p \<and> w' = w"
  by (auto simp: await_eq)

lemma await_Inl_iff [result_simps]:
  "await deadline mo p w = (Inl e, w') \<longleftrightarrow> \<not> in_time deadline mo p \<and> e = Reported RequestTimeout \<and> w' = w"
  by (auto simp: await_eq)

lemma expect_some_Inr_iff [result_simps]: "expect_some x s = (Inr a, t) \<longleftrightarrow> x = Some a \<and> t = s"
  by (auto simp: expect_some_def result_simps)

lemma expect_some_Inl_iff [result_simps]: "expect_some x s = (Inl e, t) \<longleftrightarrow> x = None \<and> e = Panicked \<and> t = s"
  by (auto simp: expect_some_def result_simps)

lemma limit_rate_Inr_iff [result_simps]:
  "limit_rate mo i r l w = (Inr u, w') \<longleftrightarrow>
     (\<exists>rl. rate_check (mo_instant mo) i r l (pw_rate w) = (Inr (), rl) \<and> w' = w\<lparr>pw_rate := rl\<rparr>)"
  by (auto simp: limit_rate_def result_simps split: prod.splits)

lemma limit_rate_Inl_iff [result_simps]:
  "limit_rate mo i r l w = (Inl e, w') \<longleftrightarrow>
     (\<exists>p rl. rate_check (mo_instant mo) i r l (pw_rate w) = (Inl p, rl) \<and> e = Reported p \<and> w' = w\<lparr>pw_rate := rl\<rparr>)"
  by (auto simp: limit_rate_def result_simps split: prod.splits)

lemma log_info_eq: "log_info e w = (Inr (), w\<lparr>as_log := as_log w @ [e]\<rparr>)"
  by (simp add: log_info_def)

section \<open>Admission\<close>

lemma server_admission_Inr_iff:
  "server_admission pf pdp mo ps req w = (Inr (identity, rm, purpose), w') \<longleftrightarrow>
     (\<exists>chain trust w1 rl. rq_peer_chain req = Some chain \<and> ps_server_trust ps = Some trust
      \<and> verify_peer (pf_pki pf) (mo_system_now mo) trust chain = Inr identity
      \<and> identity_allowed (ps_config ps) identity
      \<and> find_server_route (pf_decode pf) (cc_routes (ps_config ps)) (rq_method req) (rq_path req) (pi_value identity) = Inr rm
      \<and> authorize_server_purpose (pf_headers pf) (pf_pki pf) pdp (mo_system_now mo) rm (rq_headers req) identity
          (cc_client_trust (ps_config ps)) w = (Inr purpose, w1)
      \<and> rate_check (mo_instant mo) (pi_value identity) (rt_id (rm_route rm))
          (lm_max_requests_per_identity_per_minute (cc_limits (ps_config ps))) (pw_rate w1) = (Inr (), rl)
      \<and> w' = w1\<lparr>pw_rate := rl\<rparr>)"
  unfolding server_admission_def Let_def
  by (simp add: result_simps) blast

lemma world_more_eq:
  "audit_state.more w' = audit_state.more w \<Longrightarrow> pw_rate w' = pw_rate w \<and> pw_sent w' = pw_sent (w :: 'u proxy_world)"
  by (cases w; cases w') simp

lemma authorize_world:
  assumes "authorize_server_purpose hl pki pdp now_ns rm headers identity client_trust (w :: 'u proxy_world) = (r, w')"
  shows "pw_rate w' = pw_rate w" "pw_sent w' = pw_sent w" "prefix (as_log w) (as_log w')"
    "cells_valid pki w \<Longrightarrow> cells_valid pki w'"
  using authorize_frame [OF assms] world_more_eq [of w' w] by (auto simp: policy_frame_def)

lemma admission_frame:
  assumes "server_admission pf pdp mo ps req w = (r, w')"
  shows "pw_sent w' = pw_sent w \<and> prefix (as_log w) (as_log w') \<and> (cells_valid (pf_pki pf) w \<longrightarrow> cells_valid (pf_pki pf) w')"
proof (cases r)
  case (Inl e)
  with assms show ?thesis
    unfolding server_admission_def Let_def
    by (auto simp: result_simps cells_valid_def dest: authorize_world)
next
  case (Inr a)
  obtain i rm p where a: "a = (i, rm, p)" by (cases a)
  from assms [unfolded Inr a server_admission_Inr_iff] show ?thesis
    by (auto simp: cells_valid_def dest: authorize_world)
qed

section \<open>Sending\<close>

definition outbound_of :: "'h header_lib \<Rightarrow> string \<Rightarrow> 'u \<Rightarrow> 'h \<Rightarrow> bytes \<Rightarrow> 'u outbound_request" where
  "outbound_of hl meth url headers body =
     \<lparr>ob_method = meth, ob_url = url, ob_headers = named_headers (hm_into_iter hl headers), ob_body = body\<rparr>"

lemma send_upstream_unknown_method:
  "method_from_bytes wl meth = None \<Longrightarrow>
     send_upstream hl wl deadline mo meth url headers body n w = (Inl (Reported ConfigInvalid), w)"
  by (simp add: send_upstream_def step_bind_def)

lemma send_upstream_sent:
  assumes "method_from_bytes wl meth = Some m"
  shows "send_upstream hl wl deadline mo meth url headers body n w
    = (let ob = outbound_of hl m url headers body in
       (if \<not> in_time deadline mo AwaitSend then Inl (Reported RequestTimeout)
        else case mo_reply mo ob of None \<Rightarrow> Inl (Reported UpstreamUnavailable)
        | Some reply \<Rightarrow> (case status_from_u16 wl (rs_status wl reply) of None \<Rightarrow> Inl (Reported UpstreamUnavailable)
        | Some status \<Rightarrow>
            if \<not> in_time deadline mo AwaitResponseBody then Inl (Reported RequestTimeout)
            else case read_bounded wl reply n of None \<Rightarrow> Inl (Reported UpstreamUnavailable)
            | Some bytes \<Rightarrow>
                let hs = hm_iter hl (filter_proxy_response_headers hl (rs_headers wl reply)) in
                if response_build wl status hs bytes
                then Inr \<lparr>rp_status = status, rp_headers = hs, rp_body = bytes\<rparr>
                else Inl (Reported UpstreamUnavailable)),
        w\<lparr>pw_sent := pw_sent w @ [ob]\<rparr>))"
  using assms
  by (simp add: send_upstream_def step_bind_def hand_over_def await_eq outbound_of_def Let_def
      split: option.splits)

lemma send_upstream_world:
  "snd (send_upstream hl wl deadline mo meth url headers body n w) =
     (case method_from_bytes wl meth of None \<Rightarrow> w
      | Some m \<Rightarrow> w\<lparr>pw_sent := pw_sent w @ [outbound_of hl m url headers body]\<rparr>)"
  by (cases "method_from_bytes wl meth")
    (simp_all add: send_upstream_unknown_method send_upstream_sent Let_def)

lemma send_upstream_error:
  "fst (send_upstream hl wl deadline mo meth url headers body n w) = Inl e \<Longrightarrow>
     e = Reported ConfigInvalid \<and> method_from_bytes wl meth = None
     \<or> e \<in> {Reported RequestTimeout, Reported UpstreamUnavailable}"
  by (cases "method_from_bytes wl meth")
    (auto simp: send_upstream_unknown_method send_upstream_sent Let_def split: if_splits option.splits)

lemma named_headers_iff: "(n, v) \<in> set (named_headers entries) \<longleftrightarrow> (Some n, v) \<in> set entries"
  by (auto simp: named_headers_def List.map_filter_def image_iff) force

lemma outbound_header_iff:
  "header_map_laws hl \<Longrightarrow> (n, v) \<in> set (ob_headers (outbound_of hl m url headers body)) \<longleftrightarrow> hm_get hl headers n = Some v"
  by (simp add: outbound_of_def named_headers_iff header_into_iter_iff)

section \<open>Properties\<close>



end
