(* ===== verification/Connector_Gateway.thy ===== *)
theory Connector_Gateway
  imports Connector_Proxy
begin

text \<open>
  What the request handlers guarantee: which requests go upstream and with which headers, which
  problems a request can end in, what is logged, and that the state the requests share never
  changes an answer except through the rate limiter.
\<close>

section \<open>Forwarding\<close>

text \<open>What is known once an admitted request is prepared: the request to send and the log entry.\<close>

definition prepared ::
  "('u, 'h, 'k) platform \<Rightarrow> ('b, 'r, 'h) wire_lib \<Rightarrow> nat \<Rightarrow> ('u, 'r) moment \<Rightarrow> ('u, 'k) proxy_state
   \<Rightarrow> ('h, 'b) http_request \<Rightarrow> string \<Rightarrow> peer_identity \<Rightarrow> route_match \<Rightarrow> string option
   \<Rightarrow> bytes \<Rightarrow> 'u \<Rightarrow> 'h \<Rightarrow> log_event \<Rightarrow> bool" where
  "prepared pf wl deadline mo ps req rid identity rm purpose body url headers event =
     (\<exists>upstream hasher id_hash cert_hash.
        in_time deadline mo AwaitBody
      \<and> to_bytes wl (rq_body req) (max_body_bytes (ps_config ps)) = Some body
      \<and> cc_upstream (ps_config ps) = Some upstream
      \<and> build_url (pf_url pf) (up_base_url upstream) (rm_upstream_path rm) (rq_query req) = Some url
      \<and> server_headers pf (ps_config ps) upstream rm identity (rq_headers req) rid purpose = Inr headers
      \<and> ps_audit_hasher ps = Some hasher
      \<and> identity_hash_for_log (pf_audit pf) hasher (pi_value identity) = Some id_hash
      \<and> certificate_hash_for_log (pf_audit pf) hasher (pi_fingerprint_sha256 identity) = Some cert_hash
      \<and> event = ServerAuthorized (rt_id (rm_route rm)) id_hash cert_hash rid)"

lemma log_authorized_Inr_iff:
  "log_authorized pf ps rm identity rid w = (Inr u, w') \<longleftrightarrow>
     (\<exists>hasher id_hash cert_hash. ps_audit_hasher ps = Some hasher
      \<and> identity_hash_for_log (pf_audit pf) hasher (pi_value identity) = Some id_hash
      \<and> certificate_hash_for_log (pf_audit pf) hasher (pi_fingerprint_sha256 identity) = Some cert_hash
      \<and> w' = w\<lparr>as_log := as_log w @ [ServerAuthorized (rt_id (rm_route rm)) id_hash cert_hash rid]\<rparr>)"
  unfolding log_authorized_def by (simp add: result_simps log_info_eq) blast

lemma log_authorized_Inl:
  "log_authorized pf ps rm identity rid w = (Inl e, w') \<Longrightarrow>
     w' = w \<and> (e = Reported ConfigInvalid \<and> ps_audit_hasher ps = None \<or> e = Panicked
       \<and> (\<exists>hasher. ps_audit_hasher ps = Some hasher
          \<and> (identity_hash_for_log (pf_audit pf) hasher (pi_value identity) = None
             \<or> certificate_hash_for_log (pf_audit pf) hasher (pi_fingerprint_sha256 identity) = None)))"
  unfolding log_authorized_def by (auto simp: result_simps log_info_eq)

lemma read_limited_body_Inr_iff [result_simps]:
  "read_limited_body wl deadline mo body n w = (Inr bs, w') \<longleftrightarrow>
     in_time deadline mo AwaitBody \<and> to_bytes wl body n = Some bs \<and> w' = w"
  unfolding read_limited_body_def by (auto simp: result_simps)

lemma read_limited_body_Inl_iff [result_simps]:
  "read_limited_body wl deadline mo body n w = (Inl e, w') \<longleftrightarrow> w' = w \<and>
     (\<not> in_time deadline mo AwaitBody \<and> e = Reported RequestTimeout
      \<or> in_time deadline mo AwaitBody \<and> to_bytes wl body n = None \<and> e = Reported BodyTooLarge)"
  unfolding read_limited_body_def by (auto simp: result_simps)

lemma server_forward_prepared:
  assumes "prepared pf wl deadline mo ps req rid identity rm purpose body url headers event"
  shows "server_forward pf wl deadline mo ps req rid identity rm purpose w =
    send_upstream (pf_headers pf) wl deadline mo (rq_method req) url headers body (max_body_bytes (ps_config ps))
      (w\<lparr>as_log := as_log w @ [event]\<rparr>)"
proof -
  from assms obtain upstream where p: "in_time deadline mo AwaitBody"
    "to_bytes wl (rq_body req) (max_body_bytes (ps_config ps)) = Some body"
    "cc_upstream (ps_config ps) = Some upstream"
    "build_url (pf_url pf) (up_base_url upstream) (rm_upstream_path rm) (rq_query req) = Some url"
    "server_headers pf (ps_config ps) upstream rm identity (rq_headers req) rid purpose = Inr headers"
    and l: "log_authorized pf ps rm identity rid w = (Inr (), w\<lparr>as_log := as_log w @ [event]\<rparr>)"
    unfolding prepared_def log_authorized_Inr_iff by auto
  have b: "read_limited_body wl deadline mo (rq_body req) (max_body_bytes (ps_config ps)) w = (Inr body, w)"
    using p by (simp add: result_simps)
  show ?thesis
    unfolding server_forward_def Let_def p ok_or_simps
    by (simp add: step_bind_def b l p)
qed

lemma server_forward_stopped:
  assumes "server_forward pf wl deadline mo ps req rid identity rm purpose w = (r, w')"
    and "\<And>body url headers event.
      \<not> prepared pf wl deadline mo ps req rid identity rm purpose body url headers event"
  shows "w' = w \<and> (\<exists>e. r = Inl e)"
proof (cases r)
  case (Inl e)
  with assms show ?thesis
    unfolding server_forward_def Let_def prepared_def
    by (auto simp: step_bind_Inl_iff report_Inr_iff report_Inl_iff read_limited_body_Inr_iff read_limited_body_Inl_iff
        ok_or_Inr_iff log_authorized_Inr_iff dest!: log_authorized_Inl) blast
next
  case (Inr a)
  with assms have False
    unfolding server_forward_def Let_def prepared_def
    by (auto simp: step_bind_Inr_iff report_Inr_iff read_limited_body_Inr_iff ok_or_Inr_iff log_authorized_Inr_iff) blast
  then show ?thesis ..
qed

section \<open>Headers sent upstream\<close>

lemma header_names_distinct [simp]:
  "DATA_PURPOSE \<noteq> REQUEST_ID" "REQUEST_ID \<noteq> DATA_PURPOSE"
  "CONNECTOR_CLIENT_IDENTITY \<noteq> REQUEST_ID" "REQUEST_ID \<noteq> CONNECTOR_CLIENT_IDENTITY"
  "CONNECTOR_CLIENT_IDENTITY \<noteq> DATA_PURPOSE" "DATA_PURPOSE \<noteq> CONNECTOR_CLIENT_IDENTITY"
  by (simp_all add: DATA_PURPOSE_def REQUEST_ID_def CONNECTOR_CLIENT_IDENTITY_def)

lemma header_value_Inr_iff:
  "header_map_laws hl \<Longrightarrow> header_value hl s = Inr v \<longleftrightarrow> v = s \<and> hv_from_str hl s = Some s"
  using header_value_ids(1) [of hl s v] by (auto simp: header_value_def result_simps)

lemma insert_header_get:
  assumes "header_map_laws hl" and "insert_header hl name s h = Inr h'"
  shows "hm_get hl h' n = (if n = name then Some s else hm_get hl h n)"
  using assms by (auto simp: insert_header_def result_simps header_value_Inr_iff header_get_insert)

lemma insert_header_opt_get:
  assumes "header_map_laws hl" and "insert_header_opt hl name s h = Inr h'"
  shows "hm_get hl h' n = (if n = name \<and> s \<noteq> None then s else hm_get hl h n)"
  using assms insert_header_get [OF assms(1)]
  by (cases s) (auto simp: insert_header_opt_def)

text \<open>The value of the upstream's credential.\<close>

definition auth_credential :: "('u, 'h, 'k) platform \<Rightarrow> 'u upstream_config \<Rightarrow> route_config \<Rightarrow> string option" where
  "auth_credential pf upstream route =
     Option.bind (case rt_upstream_auth_header_env route of
                    Some var \<Rightarrow> Some var | None \<Rightarrow> up_default_auth_header_env upstream) (\<lambda>var.
     map_option (\<lambda>secret. if trim (up_auth_header_scheme upstream) = [] then secret
        else up_auth_header_scheme upstream @ '' '' @ secret)
       (option_filter (\<lambda>v. trim v \<noteq> []) (env_var (pf_host pf) var)))"

lemma upstream_auth_header_eq:
  assumes "cc_upstream config = Some upstream"
  shows "upstream_auth_header pf config rm =
    and_then (ok_or UpstreamAuthMissing (auth_credential pf upstream (rm_route rm))) (header_value (pf_headers pf))"
  using assms unfolding upstream_auth_header_def auth_credential_def
  by (simp add: and_then_def ok_or_def option_filter_def split: option.splits)

definition strict_filter :: "'h header_lib \<Rightarrow> 'h \<Rightarrow> 'h" where
  "strict_filter hl h = filter_proxy_request_headers hl h
     (strict_policy\<lparr>hp_private_prefixes := [''x-registry-connector-'']\<rparr>)"

lemma server_headers_Inr:
  assumes "server_headers pf config upstream rm identity h rid purpose = Inr h'"
    and "header_map_laws (pf_headers pf)" and "cc_upstream config = Some upstream"
  shows "\<exists>name credential. hn_from_bytes (pf_headers pf) (up_auth_header_name upstream) = Some name
    \<and> auth_credential pf upstream (rm_route rm) = Some credential
    \<and> (\<forall>n. hm_get (pf_headers pf) h' n =
        (if n = CONNECTOR_CLIENT_IDENTITY \<and> rt_forward_client_identity_header (rm_route rm) then Some (pi_value identity)
         else if n = name then Some credential
         else if n = REQUEST_ID then Some rid
         else if n = DATA_PURPOSE then purpose
         else hm_get (pf_headers pf) (strict_filter (pf_headers pf) h) n))"
proof -
  let ?hl = "pf_headers pf"
  let ?h0 = "hm_remove ?hl (strict_filter ?hl h) DATA_PURPOSE"
  from assms(1) obtain h1 h2 v name where
    1: "insert_header_opt ?hl DATA_PURPOSE purpose ?h0 = Inr h1"
    and 2: "insert_header ?hl REQUEST_ID rid h1 = Inr h2"
    and v: "upstream_auth_header pf config rm = Inr v"
    and name: "hn_from_bytes ?hl (up_auth_header_name upstream) = Some name"
    and 3: "(if rt_forward_client_identity_header (rm_route rm)
      then insert_header ?hl CONNECTOR_CLIENT_IDENTITY (pi_value identity) (hm_insert ?hl h2 name v)
      else Inr (hm_insert ?hl h2 name v)) = Inr h'"
    unfolding server_headers_def Let_def and_then_Inr_iff ok_or_Inr_iff strict_filter_def by blast
  from v have c: "auth_credential pf upstream (rm_route rm) = Some v"
    by (simp add: upstream_auth_header_eq [OF assms(3)] result_simps header_value_Inr_iff [OF assms(2)])
  have a: "hm_get ?hl h' n = (if n = CONNECTOR_CLIENT_IDENTITY \<and> rt_forward_client_identity_header (rm_route rm)
      then Some (pi_value identity) else hm_get ?hl (hm_insert ?hl h2 name v) n)" for n
    using 3 insert_header_get [OF assms(2)] by (auto split: if_split_asm)
  have b: "hm_get ?hl ?h0 n = (if n = DATA_PURPOSE then None else hm_get ?hl (strict_filter ?hl h) n)" for n
    by (rule header_get_remove [OF assms(2)])
  have "hm_get ?hl h' n =
        (if n = CONNECTOR_CLIENT_IDENTITY \<and> rt_forward_client_identity_header (rm_route rm) then Some (pi_value identity)
         else if n = name then Some v
         else if n = REQUEST_ID then Some rid
         else if n = DATA_PURPOSE then purpose
         else hm_get ?hl (strict_filter ?hl h) n)" for n
    unfolding a header_get_insert [OF assms(2)] insert_header_get [OF assms(2) 2] insert_header_opt_get [OF assms(2) 1] b
    by (cases purpose) auto
  with name c show ?thesis by blast
qed

lemma strict_filter_get:
  assumes "header_map_laws hl" and "request_filter_laws hl"
  shows "hm_get hl (strict_filter hl h) n = Some v \<Longrightarrow> hm_get hl h n = Some v"
    and "starts_with n ''x-registry-connector-'' \<Longrightarrow> hm_get hl (strict_filter hl h) n = None"
    and "hm_get hl (strict_filter hl h) ''authorization'' = None"
    and "hm_get hl (strict_filter hl h) ''cookie'' = None"
proof -
  let ?p = "strict_policy\<lparr>hp_private_prefixes := [''x-registry-connector-'']\<rparr>"
  have p: "''x-registry-connector-'' \<in> set (hp_private_prefixes ?p)"
    "\<not> hp_allow_authorization ?p" "\<not> hp_allow_cookie ?p"
    by (simp_all add: strict_policy_def)
  show "hm_get hl (strict_filter hl h) n = Some v \<Longrightarrow> hm_get hl h n = Some v"
    unfolding strict_filter_def by (rule header_filter_get(1) [OF assms])
  show "starts_with n ''x-registry-connector-'' \<Longrightarrow> hm_get hl (strict_filter hl h) n = None"
    unfolding strict_filter_def by (rule header_filter_get(2) [OF assms p(1)])
  show "hm_get hl (strict_filter hl h) ''authorization'' = None"
    unfolding strict_filter_def by (rule header_filter_get(3) [OF assms p(2)])
  show "hm_get hl (strict_filter hl h) ''cookie'' = None"
    unfolding strict_filter_def by (rule header_filter_get(4) [OF assms p(3)])
qed

lemma validated_auth_header_name:
  assumes "validate_config pf now config Server require_env = Inr ()" and "cc_upstream config = Some upstream"
    and "hn_from_bytes (pf_headers pf) (up_auth_header_name upstream) = Some name"
  shows "\<not> starts_with name ''x-registry-connector-''"
proof -
  from assms(1,2) obtain trust where "validate_upstream pf config require_env trust upstream = []"
    by (auto simp: validate_config_ok_iff validate_server_Nil_iff)
  with assms(3) show ?thesis
    by (simp add: validate_upstream_def validate_upstream_auth_header_name_def no_errors)
qed

lemma client_identity_header_private: "starts_with CONNECTOR_CLIENT_IDENTITY ''x-registry-connector-''"
  by (simp add: CONNECTOR_CLIENT_IDENTITY_def rust_eval)

lemma purpose_header_public:
  "\<not> starts_with DATA_PURPOSE ''x-registry-connector-''" "\<not> starts_with REQUEST_ID ''x-registry-connector-''"
  by (simp_all add: DATA_PURPOSE_def REQUEST_ID_def rust_eval)

text \<open>The headers the server builds, under an authentication header that is not private.\<close>

lemma server_headers_sanitised:
  assumes "header_map_laws hl" and "request_filter_laws hl"
    and get: "\<And>n. hm_get hl h' n =
        (if n = CONNECTOR_CLIENT_IDENTITY \<and> rt_forward_client_identity_header (rm_route rm) then Some (pi_value identity)
         else if n = name then Some credential
         else if n = REQUEST_ID then Some rid
         else if n = DATA_PURPOSE then purpose
         else hm_get hl (strict_filter hl h) n)"
    and priv: "\<not> starts_with name ''x-registry-connector-''"
  shows "hm_get hl h' name = Some credential"
    and "hm_get hl h' n = Some v \<Longrightarrow> (n = name \<longrightarrow> v = credential)
    \<and> (starts_with n ''x-registry-connector-'' \<longrightarrow>
         n = CONNECTOR_CLIENT_IDENTITY \<and> rt_forward_client_identity_header (rm_route rm) \<and> v = pi_value identity)
    \<and> (n \<in> {''authorization'', ''cookie''} \<longrightarrow> n = name)
    \<and> (n = DATA_PURPOSE \<and> n \<noteq> name \<longrightarrow> purpose = Some v)
    \<and> (n = REQUEST_ID \<and> n \<noteq> name \<longrightarrow> v = rid)
    \<and> (n \<notin> {name, DATA_PURPOSE, REQUEST_ID, CONNECTOR_CLIENT_IDENTITY} \<longrightarrow> hm_get hl h n = Some v)"
proof -
  note filt = strict_filter_get [OF assms(1,2), where h = h]
  show auth: "hm_get hl h' name = Some credential"
    using priv client_identity_header_private by (auto simp: get)
  assume v: "hm_get hl h' n = Some v"
  have "n = CONNECTOR_CLIENT_IDENTITY \<and> rt_forward_client_identity_header (rm_route rm) \<and> v = pi_value identity"
    if "starts_with n ''x-registry-connector-''"
    using v that filt(2) [OF that] priv purpose_header_public by (auto simp: get split: if_split_asm)
  moreover have "n = name" if "n \<in> {''authorization'', ''cookie''}"
  proof -
    have "n \<noteq> CONNECTOR_CLIENT_IDENTITY" "n \<noteq> REQUEST_ID" "n \<noteq> DATA_PURPOSE"
      using that by (auto simp: CONNECTOR_CLIENT_IDENTITY_def REQUEST_ID_def DATA_PURPOSE_def)
    with v that filt(3,4) show ?thesis by (auto simp: get split: if_split_asm)
  qed
  moreover have "purpose = Some v" if "n = DATA_PURPOSE \<and> n \<noteq> name" using v that by (auto simp: get)
  moreover have "v = rid" if "n = REQUEST_ID \<and> n \<noteq> name" using v that by (auto simp: get)
  moreover have "hm_get hl h n = Some v" if "n \<notin> {name, DATA_PURPOSE, REQUEST_ID, CONNECTOR_CLIENT_IDENTITY}"
    using v that filt(1) by (simp add: get)
  ultimately show "(n = name \<longrightarrow> v = credential)
    \<and> (starts_with n ''x-registry-connector-'' \<longrightarrow>
         n = CONNECTOR_CLIENT_IDENTITY \<and> rt_forward_client_identity_header (rm_route rm) \<and> v = pi_value identity)
    \<and> (n \<in> {''authorization'', ''cookie''} \<longrightarrow> n = name)
    \<and> (n = DATA_PURPOSE \<and> n \<noteq> name \<longrightarrow> purpose = Some v)
    \<and> (n = REQUEST_ID \<and> n \<noteq> name \<longrightarrow> v = rid)
    \<and> (n \<notin> {name, DATA_PURPOSE, REQUEST_ID, CONNECTOR_CLIENT_IDENTITY} \<longrightarrow> hm_get hl h n = Some v)"
    using v auth by (intro conjI impI) (blast | simp)+
qed

section \<open>The handler\<close>

lemma handle_server_sent:
  assumes "handle_server pf wl pdp deadline mo ps req rid w = (r, w')" and "pw_sent w' \<noteq> pw_sent w"
  obtains identity rm purpose w1 body url headers event m where
    "server_admission pf pdp mo ps req w = (Inr (identity, rm, purpose), w1)"
    "prepared pf wl deadline mo ps req rid identity rm purpose body url headers event"
    "method_from_bytes wl (rq_method req) = Some m"
    "w' = w1\<lparr>as_log := as_log w1 @ [event],
            pw_sent := pw_sent w1 @ [outbound_of (pf_headers pf) m url headers body]\<rparr>"
proof -
  obtain a w1 where adm: "server_admission pf pdp mo ps req w = (a, w1)" by fastforce
  then have f: "pw_sent w1 = pw_sent w" by (simp add: admission_frame)
  with assms adm obtain identity rm purpose where a: "a = Inr (identity, rm, purpose)"
    by (cases a) (auto simp: handle_server_def step_bind_def)
  with assms(1) adm have s: "server_forward pf wl deadline mo ps req rid identity rm purpose w1 = (r, w')"
    by (simp add: handle_server_def step_bind_def)
  with f assms(2) obtain body url headers event where
    p: "prepared pf wl deadline mo ps req rid identity rm purpose body url headers event"
    using server_forward_stopped [OF s] by metis
  from s have w': "w' = snd (send_upstream (pf_headers pf) wl deadline mo (rq_method req) url headers body
      (max_body_bytes (ps_config ps)) (w1\<lparr>as_log := as_log w1 @ [event]\<rparr>))"
    by (simp add: server_forward_prepared [OF p])
  with f assms(2) obtain m where "method_from_bytes wl (rq_method req) = Some m"
    by (cases "method_from_bytes wl (rq_method req)") (auto simp: send_upstream_world)
  with w' adm a p that show ?thesis by (simp add: send_upstream_world)
qed

text \<open>The end of the handler: a panic, or an answer and the log entry of the completed request.\<close>

definition run_handler ::
  "('u, 'h, 'k) platform \<Rightarrow> ('b, 'r, 'h) wire_lib \<Rightarrow> pdp_lib \<Rightarrow> ('u, 'r) moment \<Rightarrow> ('u, 'k) proxy_state
   \<Rightarrow> ('h, 'b) http_request \<Rightarrow> ('u proxy_world, failure, http_response) step" where
  "run_handler pf wl pdp mo ps req =
     (let rid = request_id (pf_headers pf) (mo_ulid mo) (rq_headers req);
          deadline = request_timeout (ps_config ps)
      in case ps_mode ps of
           Client \<Rightarrow> handle_client pf wl deadline mo ps req rid
         | Server \<Rightarrow> handle_server pf wl pdp deadline mo ps req rid)"

fun answer :: "failure + http_response \<Rightarrow> response option" where
  "answer (Inr r) = Some (Forwarded r)"
| "answer (Inl (Reported p)) = Some (ProblemResponse (problem_response p))"
| "answer (Inl Panicked) = None"

fun problem_of :: "failure + http_response \<Rightarrow> connector_problem option" where
  "problem_of (Inl (Reported p)) = Some p"
| "problem_of _ = None"

lemma proxy_handler_eq:
  assumes "run_handler pf wl pdp mo ps req w = (r, w1)"
  shows "proxy_handler pf wl pdp mo ps req w =
    (answer r, case answer r of None \<Rightarrow> w1
     | Some rsp \<Rightarrow> w1\<lparr>as_log := as_log w1 @ [RequestCompleted (completed ps req
         (request_id (pf_headers pf) (mo_ulid mo) (rq_headers req)) (problem_of r) rsp)]\<rparr>)"
  using assms
  by (cases r rule: problem_of.cases)
    (auto simp: proxy_handler_def run_handler_def Let_def split: mode.splits)

lemma proxy_handler_frame:
  assumes "proxy_handler pf wl pdp mo ps req w = (rsp, w')" and "run_handler pf wl pdp mo ps req w = (r, w1)"
  shows "pw_sent w' = pw_sent w1" "pw_rate w' = pw_rate w1" "as_cells w' = as_cells w1"
  using assms(1) unfolding proxy_handler_eq [OF assms(2)] by (auto split: option.splits)

lemma proxy_state_server_Inr:
  assumes "proxy_state_server pf config = Inr ps"
  shows "ps_mode ps = Server" "ps_config ps = config"
    "\<exists>trust. ps_server_trust ps = Some trust \<and> server_trust_from_config (pf_host pf) (pf_pki pf) config = Inr trust"
    "\<exists>hasher. ps_audit_hasher ps = Some hasher \<and> audit_key_hasher (pf_audit pf) config = Inr hasher"
  using assms by (auto simp: proxy_state_server_def Let_def and_then_Inr_iff)

lemma run_handler_server:
  assumes "proxy_state_server pf config = Inr ps"
  shows "run_handler pf wl pdp mo ps req =
    handle_server pf wl pdp (request_timeout config) mo ps req
      (request_id (pf_headers pf) (mo_ulid mo) (rq_headers req))"
  by (simp add: run_handler_def proxy_state_server_Inr(1,2) [OF assms])

lemma proxy_handler_sent:
  assumes "proxy_state_server pf config = Inr ps"
    and "proxy_handler pf wl pdp mo ps req w = (rsp, w')" and "pw_sent w' \<noteq> pw_sent w"
  obtains identity rm purpose w1 body url headers event m where
    "server_admission pf pdp mo ps req w = (Inr (identity, rm, purpose), w1)"
    "prepared pf wl (request_timeout config) mo ps req
       (request_id (pf_headers pf) (mo_ulid mo) (rq_headers req)) identity rm purpose body url headers event"
    "method_from_bytes wl (rq_method req) = Some m"
    "pw_sent w' = pw_sent w @ [outbound_of (pf_headers pf) m url headers body]"
proof -
  obtain r w2 where h: "run_handler pf wl pdp mo ps req w = (r, w2)" by fastforce
  from proxy_handler_frame(1) [OF assms(2) h] assms(3) have "pw_sent w2 \<noteq> pw_sent w" by simp
  from handle_server_sent [OF h [unfolded run_handler_server [OF assms(1)]] this]
  obtain identity rm purpose w1 body url headers event m where *:
    "server_admission pf pdp mo ps req w = (Inr (identity, rm, purpose), w1)"
    "prepared pf wl (request_timeout config) mo ps req
       (request_id (pf_headers pf) (mo_ulid mo) (rq_headers req)) identity rm purpose body url headers event"
    "method_from_bytes wl (rq_method req) = Some m"
    "w2 = w1\<lparr>as_log := as_log w1 @ [event],
            pw_sent := pw_sent w1 @ [outbound_of (pf_headers pf) m url headers body]\<rparr>" .
  with proxy_handler_frame(1) [OF assms(2) h] admission_frame [OF *(1)] that show ?thesis by simp
qed

lemma identity_allowed_iff:
  "identity_allowed config identity \<longleftrightarrow>
     (\<exists>trust. cc_client_trust config = Some trust \<and> pi_value identity \<in> trim ` set (ct_allowed_identities trust))"
  by (auto simp: identity_allowed_def list_ex_iff image_iff split: option.splits) metis

section \<open>Failures\<close>

text \<open>The problems admission can end in, once the state is that of a server and the limiter is sound.\<close>

definition admission_problems :: "pdp_lib \<Rightarrow> connector_problem set" where
  "admission_problems pdp =
     {ClientIdentityMissing, ClientIdentityDenied, RouteDenied, PurposeRequired, PurposeDenied, RateLimited}
     \<union> range (\<lambda>k. PdpDenied (pdp_text pdp k))"

lemma rate_check_Inl: "rate_check now i r l rl = (Inl p, rl') \<Longrightarrow> \<not> rl_poisoned rl \<Longrightarrow> p = RateLimited"
  by (auto simp: rate_check_healthy window_check_def Let_def split: if_splits)

lemma server_admission_Inl:
  assumes "server_admission pf pdp mo ps req w = (Inl e, w')"
    and "ps_server_trust ps = Some trust" and "\<not> rl_poisoned (pw_rate w)"
  shows "e \<in> Reported ` admission_problems pdp"
  using assms unfolding server_admission_def Let_def
  by (auto simp: result_simps admission_problems_def dest!: authorize_Inl)
    (metis authorize_world(1) rate_check_Inl)

lemma credential_validated:
  assumes "validate_config pf now config Server True = Inr ()" and "cc_upstream config = Some upstream"
    and "r \<in> set (cc_routes config)" and "auth_credential pf upstream r = None"
  shows "rt_upstream_auth_header_env r = None \<and> up_default_auth_header_env upstream = None"
proof (rule ccontr)
  assume no: "\<not> ?thesis"
  define var where "var = (case rt_upstream_auth_header_env r of Some v \<Rightarrow> Some v | None \<Rightarrow> up_default_auth_header_env upstream)"
  from no obtain v where v: "var = Some v"
    by (cases "rt_upstream_auth_header_env r") (auto simp: var_def)
  from assms(1,2) obtain trust where "validate_upstream pf config True trust upstream = []"
    by (auto simp: validate_config_ok_iff validate_server_Nil_iff)
  then have "\<forall>x \<in> set (required_auth_envs upstream (cc_routes config)). validate_auth_env pf x = []"
    by (simp add: validate_upstream_def no_errors)
  moreover have "v \<in> set (required_auth_envs upstream (cc_routes config))"
    using v assms(3) by (force simp: required_auth_envs_def var_def split: option.splits)
  ultimately have "validate_auth_env pf v = []" by blast
  then obtain secret where "env_var (pf_host pf) v = Some secret" "trim secret \<noteq> []"
    by (auto simp: validate_auth_env_def Let_def is_blank_def split: option.splits if_splits)
  with v assms(4) show False by (auto simp: auth_credential_def var_def)
qed

lemma allowed_identity_nonempty:
  assumes "validate_config pf now config Server require_env = Inr ()" and "identity_allowed config identity"
  shows "pi_value identity \<noteq> []"
proof -
  from assms obtain trust where t: "cc_client_trust config = Some trust" "validate_client_trust pf now config trust = []"
    by (auto simp: validate_config_ok_iff validate_server_Nil_iff)
  with assms(2) obtain a where a: "a \<in> set (ct_allowed_identities trust)" "pi_value identity = trim a"
    by (auto simp: identity_allowed_iff)
  from t(2) a(1) have "\<not> is_blank a" by (auto simp: validate_client_trust_def no_errors validate_allowed_identity_def)
  with a(2) show ?thesis by (simp add: is_blank_def)
qed

lemma visible_trim: "visible s \<Longrightarrow> visible (trim s)"
  using set_trim [of s] by (auto simp: visible_def list_all_iff)

lemma valid_request_id_visible: "valid_request_id s \<Longrightarrow> visible s"
  by (auto simp: valid_request_id_def visible_def list_all_iff is_ascii_alphanumeric_def Let_def)

lemma request_id_visible: "visible ulid \<Longrightarrow> visible (request_id hl ulid headers)"
  by (cases "header_str hl headers REQUEST_ID") (auto simp: request_id_def valid_request_id_visible)

lemma purpose_visible:
  assumes "authorize_server_purpose hl pki pdp now_ns rm headers identity client_trust w = (Inr (Some p), w')"
    and "header_text_laws hl"
  shows "visible p"
proof -
  have "single_data_purpose hl headers = Inr (Some p)"
    using assms(1) by (cases "policy_gated (rm_route rm)") (auto simp: authorize_ungated dest: authorize_gated_Inr)
  from single_data_purpose_iff [OF this] obtain raw s where "hv_to_str hl raw = Some s" "p = trim s" by blast
  moreover from this(1) assms(2) have "visible s" unfolding header_text_laws_def by blast
  ultimately show ?thesis by (simp add: visible_trim)
qed

lemma problem_response_inject:
  "problem_response p = problem_response ConfigInvalid \<longleftrightarrow> p = ConfigInvalid"
  "problem_response p = problem_response UpstreamAuthMissing \<longleftrightarrow> p = UpstreamAuthMissing"
  by (cases p; simp add: problem_response_def)+

text \<open>The ways an admitted request fails before anything is sent.\<close>

lemma server_forward_Inl:
  assumes "server_forward pf wl deadline mo ps req rid identity rm purpose w = (Inl e, w')"
    and "header_map_laws (pf_headers pf)" and "header_text_laws (pf_headers pf)"
    and "cc_upstream (ps_config ps) = Some upstream" and "ps_audit_hasher ps = Some hasher"
    and "hn_from_bytes (pf_headers pf) (up_auth_header_name upstream) \<noteq> None"
    and "visible rid" and "\<And>p. purpose = Some p \<Longrightarrow> visible p"
  shows "e \<in> Reported ` {RequestTimeout, BodyTooLarge, UpstreamUnavailable}
    \<or> e = Reported ConfigInvalid
      \<and> (build_url (pf_url pf) (up_base_url upstream) (rm_upstream_path rm) (rq_query req) = None
         \<or> (\<exists>credential. auth_credential pf upstream (rm_route rm) = Some credential
              \<and> hv_from_str (pf_headers pf) credential = None)
         \<or> rt_forward_client_identity_header (rm_route rm) \<and> hv_from_str (pf_headers pf) (pi_value identity) = None
         \<or> method_from_bytes wl (rq_method req) = None)
    \<or> e = Reported UpstreamAuthMissing \<and> auth_credential pf upstream (rm_route rm) = None
    \<or> e = Panicked \<and> (identity_hash_for_log (pf_audit pf) hasher (pi_value identity) = None
        \<or> certificate_hash_for_log (pf_audit pf) hasher (pi_fingerprint_sha256 identity) = None)"
proof -
  let ?hl = "pf_headers pf"
  have ok: "header_value ?hl s = Inr s" if "visible s" for s
    using that assms(3) by (simp add: header_text_laws_def header_value_def)
  have purp: "insert_header_opt ?hl DATA_PURPOSE purpose h \<noteq> Inl p" for h p
    using assms(8) ok by (cases purpose) (auto simp: insert_header_opt_def insert_header_def)
  have hdr: "p = UpstreamAuthMissing \<and> auth_credential pf upstream (rm_route rm) = None
      \<or> p = ConfigInvalid \<and> ((\<exists>credential. auth_credential pf upstream (rm_route rm) = Some credential
              \<and> hv_from_str ?hl credential = None)
         \<or> rt_forward_client_identity_header (rm_route rm) \<and> hv_from_str ?hl (pi_value identity) = None)"
    if "server_headers pf (ps_config ps) upstream rm identity (rq_headers req) rid purpose = Inl p" for p
    using that assms(6) ok [OF assms(7)]
    unfolding server_headers_def Let_def upstream_auth_header_eq [OF assms(4)]
    by (auto simp: purp and_then_Inl_iff ok_or_Inl_iff ok_or_Inr_iff insert_header_def header_value_def
        split: if_split_asm dest: sym)
  have snd: "e \<in> Reported ` {RequestTimeout, UpstreamUnavailable}
      \<or> e = Reported ConfigInvalid \<and> method_from_bytes wl (rq_method req) = None"
    if "send_upstream ?hl wl deadline mo (rq_method req) url h body n w1 = (Inl e, w')" for url h body n w1
    using send_upstream_error [of ?hl wl deadline mo "rq_method req" url h body n w1 e] that by auto
  from assms(1) show ?thesis
    unfolding server_forward_def Let_def assms(4) ok_or_simps
    by (auto simp: step_bind_Inl_iff report_Inl_iff report_Inr_iff read_limited_body_Inl_iff ok_or_Inl_iff assms(5)
        dest!: hdr log_authorized_Inl snd)
qed

lemma validated_upstream:
  assumes "validate_config pf now config Server require_env = Inr ()"
  shows "\<exists>upstream name. cc_upstream config = Some upstream
    \<and> hn_from_bytes (pf_headers pf) (up_auth_header_name upstream) = Some name"
proof -
  from assms obtain trust upstream where "cc_upstream config = Some upstream"
    "validate_upstream pf config require_env trust upstream = []"
    by (auto simp: validate_config_ok_iff validate_server_Nil_iff)
  then show ?thesis
    by (auto simp: validate_upstream_def validate_upstream_auth_header_name_def Let_def split: option.splits)
qed

lemma hex_encode_Nil_iff: "hex_encode bs = [] \<longleftrightarrow> bs = []"
  by (cases bs) (simp_all add: hex_encode_def)

lemma validated_forward_Inl:
  assumes "header_map_laws (pf_headers pf)" and "header_text_laws (pf_headers pf)"
    and "audit_hash_total (pf_audit pf)" and "\<And>der. sha256_digest (pf_pki pf) der \<noteq> []"
    and "validate_config pf now config Server True = Inr ()" and "proxy_state_server pf config = Inr ps"
    and "server_admission pf pdp mo ps req w = (Inr (identity, rm, purpose), w1)" and "visible rid"
    and "server_forward pf wl deadline mo ps req rid identity rm purpose w1 = (Inl e, w2)"
    and "cc_upstream config = Some upstream"
  shows "e \<in> Reported ` {RequestTimeout, BodyTooLarge, UpstreamUnavailable}
    \<or> e = Reported ConfigInvalid
      \<and> (build_url (pf_url pf) (up_base_url upstream) (rm_upstream_path rm) (rq_query req) = None
         \<or> (\<exists>credential. auth_credential pf upstream (rm_route rm) = Some credential
              \<and> hv_from_str (pf_headers pf) credential = None)
         \<or> rt_forward_client_identity_header (rm_route rm) \<and> hv_from_str (pf_headers pf) (pi_value identity) = None
         \<or> method_from_bytes wl (rq_method req) = None)
    \<or> e = Reported UpstreamAuthMissing
      \<and> rt_upstream_auth_header_env (rm_route rm) = None \<and> up_default_auth_header_env upstream = None"
proof -
  note ps = proxy_state_server_Inr [OF assms(6)]
  from ps(4) obtain hasher where hasher: "ps_audit_hasher ps = Some hasher" by blast
  from assms(7) ps(2) obtain w3 chain trust where i: "identity_allowed config identity"
    "verify_peer (pf_pki pf) (mo_system_now mo) trust chain = Inr identity"
    "find_server_route (pf_decode pf) (cc_routes config) (rq_method req) (rq_path req) (pi_value identity) = Inr rm"
    "authorize_server_purpose (pf_headers pf) (pf_pki pf) pdp (mo_system_now mo) rm (rq_headers req) identity
        (cc_client_trust config) w = (Inr purpose, w3)"
    by (auto simp: server_admission_Inr_iff)
  from i(3) have route: "rm_route rm \<in> set (cc_routes config)" using find_server_route_sound by blast
  from i(2) obtain leaf where "pi_fingerprint_sha256 identity = sha256_hex (pf_pki pf) leaf"
    by (auto simp: verify_peer_Inr_iff extract_identity_Inr_iff)
  then have "pi_fingerprint_sha256 identity \<noteq> []" using assms(4) by (simp add: sha256_hex_def hex_encode_Nil_iff)
  with allowed_identity_nonempty [OF assms(5) i(1)] assms(3)
  have hash: "identity_hash_for_log (pf_audit pf) hasher (pi_value identity) \<noteq> None"
    "certificate_hash_for_log (pf_audit pf) hasher (pi_fingerprint_sha256 identity) \<noteq> None"
    by (auto simp: audit_hash_total_def identity_hash_for_log_def certificate_hash_for_log_def)
  have c: "cc_upstream (ps_config ps) = Some upstream" "hn_from_bytes (pf_headers pf) (up_auth_header_name upstream) \<noteq> None"
    using ps(2) assms(10) validated_upstream [OF assms(5)] by auto
  have v: "visible p" if "purpose = Some p" for p
    using purpose_visible [OF i(4) [unfolded that] assms(2)] .
  show ?thesis
    using server_forward_Inl [OF assms(9,1,2) c(1) hasher c(2) assms(8) v] hash
      credential_validated [OF assms(5,10) route]
    by auto
qed

section \<open>A concrete request\<close>

definition example_wire :: "(bytes, 16 word \<times> header_list \<times> bytes, header_list) wire_lib" where
  "example_wire =
     \<lparr>to_bytes = (\<lambda>b n. if length b \<le> unat n then Some b else None), method_from_bytes = Some,
      status_from_u16 = (\<lambda>c. if 100 \<le> unat c \<and> unat c < 1000 then Some (unat c) else None),
      rs_status = fst, rs_headers = fst \<circ> snd,
      read_bounded = (\<lambda>r n. if length (snd (snd r)) \<le> unat n then Some (snd (snd r)) else None),
      response_build = (\<lambda>_ _ _. True)\<rparr>"

definition example_moment :: "(string, 16 word \<times> header_list \<times> bytes) moment" where
  "example_moment =
     \<lparr>mo_instant = 0, mo_system_now = 5, mo_ulid = ''01ARZ'', mo_done_after = (\<lambda>_. Some 0),
      mo_reply = (\<lambda>_. Some (200, [(''content-type'', ''text/plain'')], ''ok''))\<rparr>"

definition example_request :: "(header_list, bytes) http_request" where
  "example_request =
     \<lparr>rq_method = ''GET'', rq_path = ''/v1/x'', rq_query = Some ''q=1'',
      rq_headers = [(''accept'', ''a''), (''data-purpose'', '' research ''),
        (''x-registry-connector-client-identity'', ''spoofed''), (''authorization'', ''mine'')],
      rq_body = ''body'', rq_peer_chain = Some [''b:ca-a'']\<rparr>"

definition example_state :: "(string, string) proxy_state" where
  "example_state =
     \<lparr>ps_config = example_server, ps_mode = Server,
      ps_client = PlatformClient (upstream_timeout example_server) ''registry-trust-connector/0.1'',
      ps_server_trust = Some example_policy, ps_audit_hasher = Some ''AUDIT''\<rparr>"

definition example_world :: "string proxy_world" where
  "example_world = \<lparr>as_cells = (\<lambda>_. None), as_log = [], pw_rate = rate_limiter_default, pw_sent = []\<rparr>"

definition example_match :: route_match where
  "example_match = \<lparr>rm_route = example_route ''r'' ''/v1'', rm_upstream_path = ''/v1/x''\<rparr>"

lemma example_wire_laws: "wire_laws example_wire"
  by (auto simp: wire_laws_def example_wire_def split: if_splits)

lemma example_wire_method: "method_from_bytes example_wire m = Some m"
  by (simp add: example_wire_def)

lemma example_state_built: "proxy_state_server example_platform example_server = Inr example_state"
  unfolding example_state_def proxy_state_server_def Let_def example_platform_simps
  unfolding example_server_def example_policy_built
  by (simp add: audit_key_hasher_def example_config_def example_audit_def)

lemma example_server_fields:
  "cc_routes example_server = [example_route ''r'' ''/v1'']" "cc_limits example_server = default_limits"
  "cc_upstream example_server = Some \<lparr>up_base_url = ''https://relay'', up_default_auth_header_env = None,
     up_auth_header_name = ''Authorization'', up_auth_header_scheme = ''Bearer''\<rparr>"
  by (simp_all add: example_server_def example_config_def)

lemma example_identity_value: "pi_value example_identity = ''spiffe://a/b''"
  by (simp add: example_identity_def)

lemma example_routed:
  "find_server_route ref_decoder [example_route ''r'' ''/v1''] ''GET'' ''/v1/x'' ''spiffe://a/b'' = Inr example_match"
  by (simp add: routing_eval rust_eval example_route_def example_match_def)

lemma example_purpose:
  "authorize_server_purpose list_headers pki pdp now example_match (rq_headers example_request) identity trust w
     = (Inr (Some ''research''), w)"
proof -
  have "\<not> policy_gated (rm_route example_match)" by (simp add: policy_gated_def example_match_def example_route_def)
  moreover have "single_data_purpose list_headers (rq_headers example_request) = Inr (Some ''research'')"
    by (simp add: single_data_purpose_def example_request_def list_headers_def DATA_PURPOSE_def visible_def
        List.map_filter_def rust_eval)
  ultimately show ?thesis by (simp add: authorize_ungated)
qed

lemma example_admitted:
  "\<exists>w1. server_admission example_platform pdp example_moment example_state example_request example_world
     = (Inr (example_identity, example_match, Some ''research''), w1)"
proof -
  have "identity_allowed example_server example_identity"
    by (simp add: identity_allowed_def example_server_trust example_trust_def example_identity_value rust_eval)
  moreover have "\<exists>rl. rate_check 0 ''spiffe://a/b'' (rt_id (rm_route example_match))
      (lm_max_requests_per_identity_per_minute default_limits) rate_limiter_default = (Inr (), rl)"
    by (simp add: rate_check_healthy rate_limiter_default_def window_check_fresh Let_def default_limits_def
        default_max_requests_per_identity_per_minute_def)
  moreover have "ps_config example_state = example_server" "ps_server_trust example_state = Some example_policy"
    "mo_instant example_moment = 0" "mo_system_now example_moment = 5" "pw_rate example_world = rate_limiter_default"
    by (simp_all add: example_state_def example_moment_def example_world_def)
  moreover have "rq_peer_chain example_request = Some [''b:ca-a'']" "rq_method example_request = ''GET''"
    "rq_path example_request = ''/v1/x''"
    by (simp_all add: example_request_def)
  ultimately show ?thesis
    using example_peer_verified example_routed
    by (simp add: server_admission_Inr_iff example_server_fields example_identity_value example_purpose)
qed

lemma example_prepared:
  "\<exists>url headers event. prepared example_platform example_wire (request_timeout example_server) example_moment
     example_state example_request rid example_identity example_match (Some ''research'') ''body'' url headers event"
  if "visible rid"
proof -
  have 1: "ps_config example_state = example_server" "ps_audit_hasher example_state = Some ''AUDIT''"
    "in_time deadline example_moment p" for deadline p
    by (simp_all add: example_state_def in_time_def example_moment_def)
  have 2: "to_bytes example_wire (rq_body example_request) (max_body_bytes example_server) = Some ''body''"
    by (simp add: example_wire_def example_request_def max_body_bytes_def example_server_fields default_limits_def
        default_max_body_bytes_def)
  have 3: "auth_credential example_platform \<lparr>up_base_url = ''https://relay'', up_default_auth_header_env = None,
     up_auth_header_name = ''Authorization'', up_auth_header_scheme = ''Bearer''\<rparr> (rm_route example_match)
     = Some ''Bearer value''"
  proof -
    have "trim ''value'' \<noteq> []" "trim ''Bearer'' \<noteq> []" by (simp_all add: rust_eval)
    then show ?thesis by (simp add: auth_credential_def example_match_def example_route_def example_env)
  qed
  have "\<exists>h. server_headers example_platform example_server \<lparr>up_base_url = ''https://relay'', up_default_auth_header_env = None,
     up_auth_header_name = ''Authorization'', up_auth_header_scheme = ''Bearer''\<rparr> example_match example_identity
     (rq_headers example_request) rid (Some ''research'') = Inr h"
    using that
    by (simp add: server_headers_def Let_def insert_header_opt_def insert_header_def header_value_def
        upstream_auth_header_eq [OF example_server_fields(3)] 3)
      (simp add: list_headers_def example_match_def example_route_def visible_def)
  with 1 2 show ?thesis
    by (auto simp: prepared_def example_server_fields build_url_def text_urls_def example_audit_def
      identity_hash_for_log_def certificate_hash_for_log_def)
qed

lemma example_request_id:
  "request_id list_headers (mo_ulid example_moment) (rq_headers example_request) = ''01ARZ''"
  by (simp add: request_id_def header_str_def list_headers_def example_request_def example_moment_def REQUEST_ID_def)

lemma example_run:
  "\<exists>url headers w1. run_handler example_platform example_wire pdp example_moment example_state example_request example_world
     = send_upstream list_headers example_wire (request_timeout example_server) example_moment
         (rq_method example_request) url headers ''body'' (max_body_bytes (ps_config example_state)) w1"
proof -
  obtain w1 where a: "server_admission example_platform pdp example_moment example_state example_request example_world
     = (Inr (example_identity, example_match, Some ''research''), w1)"
    using example_admitted by blast
  have "visible ''01ARZ''" by (simp add: visible_def)
  from example_prepared [OF this] obtain url headers event where
    p: "prepared example_platform example_wire (request_timeout example_server) example_moment
     example_state example_request ''01ARZ'' example_identity example_match (Some ''research'') ''body'' url headers event"
    by blast
  show ?thesis
    unfolding run_handler_server [OF example_state_built]
    by (simp add: handle_server_def example_request_id step_bind_def a server_forward_prepared [OF p]) blast
qed

lemma example_sent:
  "pw_sent (snd (proxy_handler example_platform example_wire pdp example_moment example_state example_request example_world)) \<noteq> []"
proof -
  obtain url headers w1 where run:
    "run_handler example_platform example_wire pdp example_moment example_state example_request example_world
     = send_upstream list_headers example_wire (request_timeout example_server) example_moment
         (rq_method example_request) url headers ''body'' (max_body_bytes (ps_config example_state)) w1"
    using example_run by blast
  obtain r w2 where h: "run_handler example_platform example_wire pdp example_moment example_state example_request example_world
      = (r, w2)" by fastforce
  from arg_cong [OF h, of snd] have "pw_sent w2 \<noteq> []"
    unfolding run by (auto simp: send_upstream_world example_wire_method)
  then show ?thesis by (simp add: proxy_handler_eq [OF h] split: option.splits)
qed

lemma example_answered:
  "\<exists>rsp w'. proxy_handler example_platform example_wire pdp example_moment example_state example_request example_world
     = (Some rsp, w')"
proof -
  obtain url headers w1 where run:
    "run_handler example_platform example_wire pdp example_moment example_state example_request example_world
     = send_upstream list_headers example_wire (request_timeout example_server) example_moment
         (rq_method example_request) url headers ''body'' (max_body_bytes (ps_config example_state)) w1"
    using example_run by blast
  obtain r w2 where h: "run_handler example_platform example_wire pdp example_moment example_state example_request example_world
      = (r, w2)" by fastforce
  have "r \<noteq> Inl Panicked"
  proof
    assume "r = Inl Panicked"
    with arg_cong [OF h, of fst] have "fst (send_upstream list_headers example_wire (request_timeout example_server)
        example_moment (rq_method example_request) url headers ''body'' (max_body_bytes (ps_config example_state)) w1)
        = Inl Panicked" unfolding run by simp
    from send_upstream_error [OF this] show False by simp
  qed
  then show ?thesis by (cases r rule: answer.cases) (simp_all add: proxy_handler_eq [OF h])
qed

lemma example_sent_new:
  "pw_sent (snd (proxy_handler example_platform example_wire pdp example_moment example_state example_request example_world))
     \<noteq> pw_sent example_world"
  using example_sent by (simp add: example_world_def)

section \<open>Properties\<close>

text \<open>
  C1. A request goes upstream only past every gate. Whatever the request, the caller presented a
  certificate that is not denied and whose chain verifies now against anchors bound to its identity;
  that identity is on the allowlist and bound to the most specific route for the method and the
  canonical path; its purpose is authorised; the rate limiter admitted it; and what is sent is the
  same method, the canonical path on the configured upstream and a body within the limit. Each request
  is sent at most once.
\<close>

theorem upstream_request_admitted:
  assumes "wire_laws wl" and "proxy_state_server pf config = Inr ps"
    and "cc_client_trust config = Some trust"
    and "proxy_handler pf wl pdp mo ps req w = (rsp, w')" and "pw_sent w' \<noteq> pw_sent w"
  shows "\<exists>ob leaf rest roots identity rm purpose upstream.
      pw_sent w' = pw_sent w @ [ob]
    \<and> rq_peer_chain req = Some (leaf # rest)
    \<and> extract_peer_identity_from_der (pf_pki pf) (mo_system_now mo) leaf (cc_allow_dns_san_identity config)
        = Inr identity
    \<and> pi_fingerprint_sha256 identity
        \<notin> to_ascii_lowercase ` set (ct_denied_certificate_fingerprints_sha256 trust)
    \<and> verify_client_cert (pf_pki pf) roots leaf rest (mo_system_now mo) = Inr ()
    \<and> (\<forall>root \<in> set roots. \<exists>a \<in> set (ct_trust_anchors trust).
          anchor_binds config identity a \<and> load_single_ca_cert (pf_host pf) (pf_pki pf) (ta_ca a) = Inr root)
    \<and> pi_value identity \<in> trim ` set (ct_allowed_identities trust)
    \<and> find_server_route (pf_decode pf) (cc_routes config) (rq_method req) (rq_path req) (pi_value identity) = Inr rm
    \<and> rm_route rm \<in> set (cc_routes config) \<and> rq_method req \<in> set (rt_methods (rm_route rm))
    \<and> route_matches_client_identity (rm_route rm) (pi_value identity)
    \<and> canonical_request_path (pf_decode pf) (rq_path req) = Inr (rm_upstream_path rm)
    \<and> fst (authorize_server_purpose (pf_headers pf) (pf_pki pf) pdp (mo_system_now mo) rm (rq_headers req)
        identity (Some trust) w) = Inr purpose
    \<and> fst (rate_check (mo_instant mo) (pi_value identity) (rt_id (rm_route rm))
        (lm_max_requests_per_identity_per_minute (cc_limits config)) (pw_rate w)) = Inr ()
    \<and> cc_upstream config = Some upstream
    \<and> build_url (pf_url pf) (up_base_url upstream) (rm_upstream_path rm) (rq_query req) = Some (ob_url ob)
    \<and> ob_method ob = rq_method req \<and> length (ob_body ob) \<le> unat (max_body_bytes config)"
proof -
  note ps = proxy_state_server_Inr [OF assms(2)]
  from proxy_handler_sent [OF assms(2,4,5)] obtain identity rm purpose w1 body url headers event m where
    adm: "server_admission pf pdp mo ps req w = (Inr (identity, rm, purpose), w1)"
    and pre: "prepared pf wl (request_timeout config) mo ps req
       (request_id (pf_headers pf) (mo_ulid mo) (rq_headers req)) identity rm purpose body url headers event"
    and m: "method_from_bytes wl (rq_method req) = Some m"
    and sent: "pw_sent w' = pw_sent w @ [outbound_of (pf_headers pf) m url headers body]" .
  from adm ps(2) obtain chain policy w2 rl where a: "rq_peer_chain req = Some chain"
    "ps_server_trust ps = Some policy"
    "verify_peer (pf_pki pf) (mo_system_now mo) policy chain = Inr identity"
    "identity_allowed config identity"
    "find_server_route (pf_decode pf) (cc_routes config) (rq_method req) (rq_path req) (pi_value identity) = Inr rm"
    and auth: "authorize_server_purpose (pf_headers pf) (pf_pki pf) pdp (mo_system_now mo) rm (rq_headers req)
        identity (cc_client_trust config) w = (Inr purpose, w2)"
    and rate: "rate_check (mo_instant mo) (pi_value identity) (rt_id (rm_route rm))
        (lm_max_requests_per_identity_per_minute (cc_limits config)) (pw_rate w2) = (Inr (), rl)"
    unfolding server_admission_Inr_iff by auto
  from ps(3) a(2) have pol: "server_trust_from_config (pf_host pf) (pf_pki pf) config = Inr policy" by auto
  from verify_peer_roots [OF pol assms(3) a(3)] obtain leaf rest roots where v: "chain = leaf # rest"
    "extract_peer_identity_from_der (pf_pki pf) (mo_system_now mo) leaf (cc_allow_dns_san_identity config) = Inr identity"
    "pi_fingerprint_sha256 identity
        \<notin> to_ascii_lowercase ` set (ct_denied_certificate_fingerprints_sha256 trust)"
    "verify_client_cert (pf_pki pf) roots leaf rest (mo_system_now mo) = Inr ()"
    "\<forall>root \<in> set roots. \<exists>a \<in> set (ct_trust_anchors trust).
          anchor_binds config identity a \<and> load_single_ca_cert (pf_host pf) (pf_pki pf) (ta_ca a) = Inr root"
    by blast
  from find_server_route_sound [OF a(5)] have route: "rm_route rm \<in> set (cc_routes config)"
    "canonical_request_path (pf_decode pf) (rq_path req) = Inr (rm_upstream_path rm)"
    "rq_method req \<in> set (rt_methods (rm_route rm))" "route_matches_client_identity (rm_route rm) (pi_value identity)"
    by (auto simp: server_eligible_def)
  from pre ps(2) obtain upstream where up: "cc_upstream config = Some upstream"
    "build_url (pf_url pf) (up_base_url upstream) (rm_upstream_path rm) (rq_query req) = Some url"
    "to_bytes wl (rq_body req) (max_body_bytes config) = Some body"
    by (auto simp: prepared_def)
  have "m = rq_method req" "length body \<le> unat (max_body_bytes config)"
    using assms(1) m up(3) by (auto simp: wire_laws_def)
  moreover have "pi_value identity \<in> trim ` set (ct_allowed_identities trust)"
    using a(4) assms(3) by (simp add: identity_allowed_iff)
  moreover have "pw_rate w2 = pw_rate w" by (rule authorize_world(1) [OF auth])
  ultimately show ?thesis
    using sent a(1,5) v route up auth rate assms(3)
    by (intro exI [of _ "outbound_of (pf_headers pf) m url headers body"] exI [of _ leaf] exI [of _ rest]
        exI [of _ roots] exI [of _ identity] exI [of _ rm] exI [of _ purpose] exI [of _ upstream])
      (simp add: outbound_of_def)
qed

theorem upstream_request_admitted_witness:
  "\<exists>ob leaf rest roots identity rm purpose upstream.
      pw_sent (snd (proxy_handler example_platform example_wire example_pdp example_moment example_state
        example_request example_world)) = pw_sent example_world @ [ob]
    \<and> rq_peer_chain example_request = Some (leaf # rest)
    \<and> extract_peer_identity_from_der (pf_pki example_platform) (mo_system_now example_moment) leaf
        (cc_allow_dns_san_identity example_server) = Inr identity
    \<and> pi_fingerprint_sha256 identity
        \<notin> to_ascii_lowercase ` set (ct_denied_certificate_fingerprints_sha256 example_trust)
    \<and> verify_client_cert (pf_pki example_platform) roots leaf rest (mo_system_now example_moment) = Inr ()
    \<and> (\<forall>root \<in> set roots. \<exists>a \<in> set (ct_trust_anchors example_trust).
          anchor_binds example_server identity a
          \<and> load_single_ca_cert (pf_host example_platform) (pf_pki example_platform) (ta_ca a) = Inr root)
    \<and> pi_value identity \<in> trim ` set (ct_allowed_identities example_trust)
    \<and> find_server_route (pf_decode example_platform) (cc_routes example_server) (rq_method example_request)
        (rq_path example_request) (pi_value identity) = Inr rm
    \<and> rm_route rm \<in> set (cc_routes example_server) \<and> rq_method example_request \<in> set (rt_methods (rm_route rm))
    \<and> route_matches_client_identity (rm_route rm) (pi_value identity)
    \<and> canonical_request_path (pf_decode example_platform) (rq_path example_request) = Inr (rm_upstream_path rm)
    \<and> fst (authorize_server_purpose (pf_headers example_platform) (pf_pki example_platform) example_pdp
        (mo_system_now example_moment) rm (rq_headers example_request) identity (Some example_trust) example_world)
        = Inr purpose
    \<and> fst (rate_check (mo_instant example_moment) (pi_value identity) (rt_id (rm_route rm))
        (lm_max_requests_per_identity_per_minute (cc_limits example_server)) (pw_rate example_world)) = Inr ()
    \<and> cc_upstream example_server = Some upstream
    \<and> build_url (pf_url example_platform) (up_base_url upstream) (rm_upstream_path rm) (rq_query example_request)
        = Some (ob_url ob)
    \<and> ob_method ob = rq_method example_request \<and> length (ob_body ob) \<le> unat (max_body_bytes example_server)"
  by (rule upstream_request_admitted [OF example_wire_laws example_state_built example_server_trust
      prod.collapse [symmetric] example_sent_new])

text \<open>
  C2. Headers sent upstream by a validated server connector. The configured credential is there, and
  nothing the caller sends can replace it; the connector's private headers cannot be spoofed, the
  identity header, if enabled, is the verified identity; the caller's own credentials and cookies are
  dropped; the purpose is the authorised one and the request id the connector's; every other header
  is one the caller sent.
\<close>

theorem upstream_headers_sanitised:
  assumes "header_map_laws (pf_headers pf)" and "request_filter_laws (pf_headers pf)"
    and "validate_config pf now config Server require_env = Inr ()" and "proxy_state_server pf config = Inr ps"
    and "proxy_handler pf wl pdp mo ps req w = (rsp, w')" and "pw_sent w' = pw_sent w @ [ob]"
  shows "\<exists>identity rm purpose upstream name credential.
      fst (server_admission pf pdp mo ps req w) = Inr (identity, rm, purpose)
    \<and> cc_upstream config = Some upstream
    \<and> hn_from_bytes (pf_headers pf) (up_auth_header_name upstream) = Some name
    \<and> auth_credential pf upstream (rm_route rm) = Some credential
    \<and> (name, credential) \<in> set (ob_headers ob)
    \<and> (\<forall>n v. (n, v) \<in> set (ob_headers ob) \<longrightarrow>
          (n = name \<longrightarrow> v = credential)
        \<and> (starts_with n ''x-registry-connector-'' \<longrightarrow>
             n = CONNECTOR_CLIENT_IDENTITY \<and> rt_forward_client_identity_header (rm_route rm) \<and> v = pi_value identity)
        \<and> (n \<in> {''authorization'', ''cookie''} \<longrightarrow> n = name)
        \<and> (n = DATA_PURPOSE \<and> n \<noteq> name \<longrightarrow> purpose = Some v)
        \<and> (n = REQUEST_ID \<and> n \<noteq> name \<longrightarrow> v = request_id (pf_headers pf) (mo_ulid mo) (rq_headers req))
        \<and> (n \<notin> {name, DATA_PURPOSE, REQUEST_ID, CONNECTOR_CLIENT_IDENTITY} \<longrightarrow>
             hm_get (pf_headers pf) (rq_headers req) n = Some v))"
proof -
  let ?hl = "pf_headers pf"
  from assms(6) have "pw_sent w' \<noteq> pw_sent w" by simp
  from proxy_handler_sent [OF assms(4,5) this] assms(6)
  obtain identity rm purpose w1 body url headers event m where
    adm: "server_admission pf pdp mo ps req w = (Inr (identity, rm, purpose), w1)"
    and pre: "prepared pf wl (request_timeout config) mo ps req
       (request_id ?hl (mo_ulid mo) (rq_headers req)) identity rm purpose body url headers event"
    and ob: "ob = outbound_of ?hl m url headers body"
    by (metis last_snoc)
  from pre obtain upstream where up: "cc_upstream config = Some upstream"
    and sh: "server_headers pf config upstream rm identity (rq_headers req)
      (request_id ?hl (mo_ulid mo) (rq_headers req)) purpose = Inr headers"
    by (auto simp: prepared_def proxy_state_server_Inr(2) [OF assms(4)])
  from server_headers_Inr [OF sh assms(1) up] obtain name credential where
    name: "hn_from_bytes ?hl (up_auth_header_name upstream) = Some name"
    and cred: "auth_credential pf upstream (rm_route rm) = Some credential"
    and get: "\<And>n. hm_get ?hl headers n =
        (if n = CONNECTOR_CLIENT_IDENTITY \<and> rt_forward_client_identity_header (rm_route rm) then Some (pi_value identity)
         else if n = name then Some credential
         else if n = REQUEST_ID then Some (request_id ?hl (mo_ulid mo) (rq_headers req))
         else if n = DATA_PURPOSE then purpose
         else hm_get ?hl (strict_filter ?hl (rq_headers req)) n)" by blast
  have priv: "\<not> starts_with name ''x-registry-connector-''"
    by (rule validated_auth_header_name [OF assms(3) up name])
  have mem: "(n, v) \<in> set (ob_headers ob) \<longleftrightarrow> hm_get ?hl headers n = Some v" for n v
    unfolding ob by (rule outbound_header_iff [OF assms(1)])
  note auth = server_headers_sanitised(1) [OF assms(1,2) get priv]
    and all = server_headers_sanitised(2) [OF assms(1,2) get priv]
  have adm': "fst (server_admission pf pdp mo ps req w) = Inr (identity, rm, purpose)" by (simp add: adm)
  show ?thesis
    unfolding mem
    by (intro exI conjI allI impI, rule adm', rule up, rule name, rule cred, rule auth) (drule all, blast)+
qed

theorem upstream_headers_sanitised_witness:
  "\<exists>ob. pw_sent (snd (proxy_handler example_platform example_wire example_pdp example_moment example_state
        example_request example_world)) = pw_sent example_world @ [ob]
    \<and> (\<exists>identity rm purpose upstream name credential.
      fst (server_admission example_platform example_pdp example_moment example_state example_request example_world)
        = Inr (identity, rm, purpose)
    \<and> cc_upstream example_server = Some upstream
    \<and> hn_from_bytes (pf_headers example_platform) (up_auth_header_name upstream) = Some name
    \<and> auth_credential example_platform upstream (rm_route rm) = Some credential
    \<and> (name, credential) \<in> set (ob_headers ob)
    \<and> (\<forall>n v. (n, v) \<in> set (ob_headers ob) \<longrightarrow>
          (n = name \<longrightarrow> v = credential)
        \<and> (starts_with n ''x-registry-connector-'' \<longrightarrow>
             n = CONNECTOR_CLIENT_IDENTITY \<and> rt_forward_client_identity_header (rm_route rm) \<and> v = pi_value identity)
        \<and> (n \<in> {''authorization'', ''cookie''} \<longrightarrow> n = name)
        \<and> (n = DATA_PURPOSE \<and> n \<noteq> name \<longrightarrow> purpose = Some v)
        \<and> (n = REQUEST_ID \<and> n \<noteq> name \<longrightarrow>
             v = request_id (pf_headers example_platform) (mo_ulid example_moment) (rq_headers example_request))
        \<and> (n \<notin> {name, DATA_PURPOSE, REQUEST_ID, CONNECTOR_CLIENT_IDENTITY} \<longrightarrow>
             hm_get (pf_headers example_platform) (rq_headers example_request) n = Some v)))"
proof -
  obtain rsp w' where h: "proxy_handler example_platform example_wire example_pdp example_moment example_state
      example_request example_world = (rsp, w')" by fastforce
  with example_sent_new [of example_pdp] have "pw_sent w' \<noteq> pw_sent example_world" by simp
  from proxy_handler_sent [OF example_state_built h this] obtain ob where ob: "pw_sent w' = pw_sent example_world @ [ob]"
    by metis
  have "header_map_laws (pf_headers example_platform)" "request_filter_laws (pf_headers example_platform)"
    by (simp_all add: list_headers_map_laws list_headers_filter_laws)
  from upstream_headers_sanitised [OF this example_server_valid example_state_built h ob] ob h
  show ?thesis by (intro exI [of _ ob] conjI) simp_all
qed

text \<open>
  C11. Without a verified and allowed identity a request changes nothing and learns nothing: the
  answer says only that the identity is missing or denied, whatever the method, path, headers and
  routes are; nothing is sent, no rate window is touched, no policy is evaluated, and the only trace
  is the log entry of the completed request.
\<close>

theorem unidentified_request_inert:
  assumes "proxy_state_server pf config = Inr ps"
    and "server_trust_from_config (pf_host pf) (pf_pki pf) config = Inr policy"
    and "\<And>chain identity. rq_peer_chain req = Some chain \<Longrightarrow>
      verify_peer (pf_pki pf) (mo_system_now mo) policy chain = Inr identity \<Longrightarrow> \<not> identity_allowed config identity"
  shows "proxy_handler pf wl pdp mo ps req w =
    (let problem = (if rq_peer_chain req = None then ClientIdentityMissing else ClientIdentityDenied);
         rsp = ProblemResponse (problem_response problem)
     in (Some rsp, w\<lparr>as_log := as_log w @ [RequestCompleted (completed ps req
          (request_id (pf_headers pf) (mo_ulid mo) (rq_headers req)) (Some problem) rsp)]\<rparr>))"
proof -
  let ?p = "if rq_peer_chain req = None then ClientIdentityMissing else ClientIdentityDenied"
  from proxy_state_server_Inr(2,3) [OF assms(1)] assms(2)
  have ps: "ps_config ps = config" "ps_server_trust ps = Some policy" by auto
  have "server_admission pf pdp mo ps req w = (Inl (Reported ?p), w)"
  proof (cases "rq_peer_chain req")
    case (Some chain)
    show ?thesis
      using assms(3) [OF Some]
      by (cases "verify_peer (pf_pki pf) (mo_system_now mo) policy chain")
        (simp_all add: server_admission_def Let_def step_bind_def ps Some)
  qed (simp add: server_admission_def Let_def step_bind_def)
  then have "run_handler pf wl pdp mo ps req w = (Inl (Reported ?p), w)"
    by (simp add: run_handler_server [OF assms(1)] handle_server_def step_bind_def)
  from proxy_handler_eq [OF this] show ?thesis by (simp add: Let_def)
qed

theorem unidentified_request_inert_witness:
  "proxy_handler example_platform example_wire example_pdp example_moment example_state
     (example_request\<lparr>rq_peer_chain := None\<rparr>) example_world =
    (let problem = (if rq_peer_chain (example_request\<lparr>rq_peer_chain := None\<rparr>) = None
           then ClientIdentityMissing else ClientIdentityDenied);
         rsp = ProblemResponse (problem_response problem)
     in (Some rsp, example_world\<lparr>as_log := as_log example_world @ [RequestCompleted (completed example_state
          (example_request\<lparr>rq_peer_chain := None\<rparr>)
          (request_id (pf_headers example_platform) (mo_ulid example_moment)
             (rq_headers (example_request\<lparr>rq_peer_chain := None\<rparr>))) (Some problem) rsp)]\<rparr>))"
proof (rule unidentified_request_inert [OF example_state_built])
  show "server_trust_from_config (pf_host example_platform) (pf_pki example_platform) example_server = Inr example_policy"
    unfolding example_server_def example_platform_simps by (rule example_policy_built)
qed simp

text \<open>
  C10. A validated server connector always answers, and it blames its configuration only for what
  validation cannot see. The handler never panics. It answers that the configuration is invalid only
  for an admitted request whose upstream URL does not parse, whose credential (scheme and secret
  together) or forwarded identity is not a legal header value, or whose method the HTTP client does
  not know; and that the credential is missing only on a route for which no variable is configured.
\<close>

theorem validated_server_failures:
  assumes "header_map_laws (pf_headers pf)" and "header_text_laws (pf_headers pf)"
    and "audit_hash_total (pf_audit pf)" and "\<And>der. sha256_digest (pf_pki pf) der \<noteq> []"
    and "validate_config pf now config Server True = Inr ()" and "proxy_state_server pf config = Inr ps"
    and "visible (mo_ulid mo)" and "\<not> rl_poisoned (pw_rate w)"
  shows "\<exists>rsp w'. proxy_handler pf wl pdp mo ps req w = (Some rsp, w')
    \<and> (rsp = ProblemResponse (problem_response ConfigInvalid) \<longrightarrow>
        (\<exists>identity rm purpose upstream.
           fst (server_admission pf pdp mo ps req w) = Inr (identity, rm, purpose) \<and> cc_upstream config = Some upstream
         \<and> (build_url (pf_url pf) (up_base_url upstream) (rm_upstream_path rm) (rq_query req) = None
            \<or> (\<exists>credential. auth_credential pf upstream (rm_route rm) = Some credential
                 \<and> hv_from_str (pf_headers pf) credential = None)
            \<or> rt_forward_client_identity_header (rm_route rm) \<and> hv_from_str (pf_headers pf) (pi_value identity) = None
            \<or> method_from_bytes wl (rq_method req) = None)))
    \<and> (rsp = ProblemResponse (problem_response UpstreamAuthMissing) \<longrightarrow>
        (\<exists>identity rm purpose upstream.
           fst (server_admission pf pdp mo ps req w) = Inr (identity, rm, purpose) \<and> cc_upstream config = Some upstream
         \<and> rt_upstream_auth_header_env (rm_route rm) = None \<and> up_default_auth_header_env upstream = None))"
proof -
  from proxy_state_server_Inr(3) [OF assms(6)] obtain trust where trust: "ps_server_trust ps = Some trust" by blast
  obtain r w1 where h: "run_handler pf wl pdp mo ps req w = (r, w1)" by fastforce
  obtain a w2 where adm: "server_admission pf pdp mo ps req w = (a, w2)" by fastforce
  note run = h [unfolded run_handler_server [OF assms(6)] handle_server_def step_bind_def adm]
  show ?thesis
  proof (cases a)
    case (Inl e)
    from server_admission_Inl [OF adm [unfolded Inl] trust assms(8)] obtain p where
      p: "e = Reported p" "p \<in> admission_problems pdp" by blast
    with run Inl have "r = Inl (Reported p)" by simp
    moreover from p(2) have "p \<noteq> ConfigInvalid" "p \<noteq> UpstreamAuthMissing" by (auto simp: admission_problems_def)
    ultimately show ?thesis by (simp add: proxy_handler_eq [OF h] problem_response_inject)
  next
    case (Inr irp)
    obtain identity rm purpose where irp: "irp = (identity, rm, purpose)" by (cases irp)
    from validated_upstream [OF assms(5)] obtain upstream where up: "cc_upstream config = Some upstream" by blast
    note ok = adm [unfolded Inr irp]
    show ?thesis
    proof (cases r)
      case (Inl e)
      with run \<open>a = Inr irp\<close> irp have f: "server_forward pf wl (request_timeout config) mo ps req
          (request_id (pf_headers pf) (mo_ulid mo) (rq_headers req)) identity rm purpose w2 = (Inl e, w1)" by simp
      note e = validated_forward_Inl [OF assms(1-6) ok request_id_visible [OF assms(7)] f up]
      then obtain p where "e = Reported p" by blast
      with e Inl ok up show ?thesis by (auto simp: proxy_handler_eq [OF h] problem_response_inject)
    qed (simp add: proxy_handler_eq [OF h])
  qed
qed

lemma example_hash_total: "audit_hash_total (pf_audit example_platform)"
  by (simp add: audit_hash_total_def example_audit_def)

theorem validated_server_failures_witness:
  "\<exists>rsp w'. proxy_handler example_platform example_wire example_pdp example_moment example_state example_request
      example_world = (Some rsp, w')
    \<and> (rsp = ProblemResponse (problem_response ConfigInvalid) \<longrightarrow>
        (\<exists>identity rm purpose upstream.
           fst (server_admission example_platform example_pdp example_moment example_state example_request example_world)
             = Inr (identity, rm, purpose) \<and> cc_upstream example_server = Some upstream
         \<and> (build_url (pf_url example_platform) (up_base_url upstream) (rm_upstream_path rm) (rq_query example_request) = None
            \<or> (\<exists>credential. auth_credential example_platform upstream (rm_route rm) = Some credential
                 \<and> hv_from_str (pf_headers example_platform) credential = None)
            \<or> rt_forward_client_identity_header (rm_route rm)
              \<and> hv_from_str (pf_headers example_platform) (pi_value identity) = None
            \<or> method_from_bytes example_wire (rq_method example_request) = None)))
    \<and> (rsp = ProblemResponse (problem_response UpstreamAuthMissing) \<longrightarrow>
        (\<exists>identity rm purpose upstream.
           fst (server_admission example_platform example_pdp example_moment example_state example_request example_world)
             = Inr (identity, rm, purpose) \<and> cc_upstream example_server = Some upstream
         \<and> rt_upstream_auth_header_env (rm_route rm) = None \<and> up_default_auth_header_env upstream = None))"
proof (rule validated_server_failures)
  show "header_map_laws (pf_headers example_platform)" "header_text_laws (pf_headers example_platform)"
    by (simp_all add: list_headers_map_laws list_headers_text_laws)
  show "sha256_digest (pf_pki example_platform) der \<noteq> []" for der by (simp add: example_pki_def)
  show "visible (mo_ulid example_moment)" by (simp add: example_moment_def visible_def)
  show "\<not> rl_poisoned (pw_rate example_world)" by (simp add: example_world_def rate_limiter_default_def)
qed (fact example_hash_total example_server_valid example_state_built)+


end
