(* ===== verification/Connector_Cli.thy ===== *)
theory Connector_Cli
  imports Connector_Gateway
begin

text \<open>
  The command line (\<open>src/main.rs\<close>): validating a configuration, with a text or a JSON report,
  and starting the client or the server connector up to the point where it listens. File contents,
  the YAML and JSON libraries, the texts of the report library and the sockets are the record
  \<open>cli_lib\<close>. Paths are UTF-8 strings.
\<close>

section \<open>JSON documents\<close>

text \<open>\<open>serde_json::Value\<close>; the order of an object's members carries no meaning.\<close>

datatype json =
  JNull | JBool bool | JNumber nat | JString string | JArray "json list" | JObject "(string \<times> json) list"

definition json_index :: "json \<Rightarrow> string \<Rightarrow> json" where
  "json_index v key = (case v of JObject members \<Rightarrow> unwrap_or JNull (map_of members key) | _ \<Rightarrow> JNull)"

fun as_u64 :: "json \<Rightarrow> nat option" where
  "as_u64 (JNumber n) = Some n"
| "as_u64 _ = None"

datatype report_status = StatusOk | StatusWarning | StatusError

datatype env_status = EnvPresent | EnvMissing

record 'u cli_lib =
  cl_read_to_string :: "string \<Rightarrow> string + string"
  cl_from_yaml :: "string \<Rightarrow> string + 'u connector_config"
  cl_render :: "json \<Rightarrow> string + string"
  cl_status_text :: "report_status \<Rightarrow> string"
  cl_secret_text :: string
  cl_env_status_text :: "env_status \<Rightarrow> string"
  cl_now :: string
  cl_bind :: "socket_addr \<Rightarrow> string + unit"
  cl_max_permits :: usize

section \<open>Commands\<close>

datatype cli_mode = CliClient | CliServer

fun mode_from :: "cli_mode \<Rightarrow> mode" where
  "mode_from CliClient = Client"
| "mode_from CliServer = Server"

datatype output_format = FormatText | FormatJson

datatype command =
  CmdValidate string bool "cli_mode option" output_format
| CmdClient string
| CmdServer string

definition TRUST_CONNECTOR_CONFIG_SCHEMA_VERSION :: string where
  "TRUST_CONNECTOR_CONFIG_SCHEMA_VERSION = ''registry.trust_connector.config.v1''"

definition mode_debug :: "mode \<Rightarrow> string" where
  "mode_debug m = (case m of Client \<Rightarrow> ''Client'' | Server \<Rightarrow> ''Server'')"

definition detect_mode :: "'u loaded_config \<Rightarrow> mode" where
  "detect_mode loaded =
     (let config = lc_config loaded
      in if cc_server_identity config \<noteq> None \<or> cc_client_trust config \<noteq> None \<or> cc_upstream config \<noteq> None
         then Server else Client)"

fun join_lines :: "string list \<Rightarrow> string" where
  "join_lines [] = []"
| "join_lines [l] = l"
| "join_lines (l # ls) = l @ [CHR 0x0A] @ join_lines ls"

definition validate_or_error ::
  "('u, 'h, 'k) platform \<Rightarrow> int \<Rightarrow> 'u loaded_config \<Rightarrow> mode \<Rightarrow> bool \<Rightarrow> connector_error + unit" where
  "validate_or_error pf now loaded m require_env =
     map_err (\<lambda>errors. InvalidConfig (lc_path loaded @ '' config failed validation:'' @ [CHR 0x0A]
                @ join_lines (map (\<lambda>err. ''- '' @ err) errors)))
       (validate_config pf now (lc_config loaded) m require_env)"

section \<open>The validation report\<close>

definition sha256_hash :: "pki_lib \<Rightarrow> bytes \<Rightarrow> string" where
  "sha256_hash pki bs = ''sha256:'' @ hex_encode (sha256_digest pki bs)"

definition path_for_json :: "string \<Rightarrow> string" where
  "path_for_json path = path"

definition required_env_names :: "'u connector_config \<Rightarrow> string list" where
  "required_env_names config =
     btree_set ((case au_hash_secret_env (cc_audit config) of None \<Rightarrow> [] | Some var \<Rightarrow> [var])
       @ (case cc_upstream config of None \<Rightarrow> []
          | Some upstream \<Rightarrow> (case up_default_auth_header_env upstream of None \<Rightarrow> [] | Some var \<Rightarrow> [var]))
       @ concat (map (\<lambda>r. case rt_upstream_auth_header_env r of None \<Rightarrow> [] | Some var \<Rightarrow> [var]) (cc_routes config)))"

definition required_env_report :: "host \<Rightarrow> 'u cli_lib \<Rightarrow> 'u connector_config \<Rightarrow> json list" where
  "required_env_report h cl config =
     map (\<lambda>name. JObject
       [(''name'', JString name), (''classification'', JString (cl_secret_text cl)),
        (''status'', JString (cl_env_status_text cl
           (if env_var_os h name \<noteq> None then EnvPresent else EnvMissing)))])
       (required_env_names config)"

definition diagnostic :: "string \<Rightarrow> string \<Rightarrow> string \<Rightarrow> json" where
  "diagnostic code severity message =
     JObject [(''code'', JString code), (''severity'', JString severity), (''message'', JString message)]"

definition severity_count :: "string \<Rightarrow> json list \<Rightarrow> nat" where
  "severity_count severity diagnostics =
     length (filter (\<lambda>d. json_index d ''severity'' = JString severity) diagnostics)"

definition validation_report_json ::
  "host \<Rightarrow> pki_lib \<Rightarrow> 'u cli_lib \<Rightarrow> string \<Rightarrow> string option \<Rightarrow> 'u connector_config option \<Rightarrow> json list \<Rightarrow> json" where
  "validation_report_json h pki cl config_path raw_config config diagnostics =
     (let error_count = severity_count ''error'' diagnostics;
          warning_count = severity_count ''warning'' diagnostics
      in JObject
       ([(''schema_version'', JString ''registry.config.diagnostic_report.v1''),
         (''product'', JString ''registry-trust-connector''),
         (''config_schema_version'', JString TRUST_CONNECTOR_CONFIG_SCHEMA_VERSION),
         (''source'', JObject [(''kind'', JString ''local_file''), (''path'', JString (path_for_json config_path))]),
         (''status'', JString (cl_status_text cl
            (if error_count > 0 then StatusError else if warning_count > 0 then StatusWarning else StatusOk))),
         (''summary'', JObject [(''error_count'', JNumber error_count), (''warning_count'', JNumber warning_count)]),
         (''diagnostics'', JArray diagnostics),
         (''required_env'', JArray (case config of None \<Rightarrow> [] | Some c \<Rightarrow> required_env_report h cl c)),
         (''generated_at'', JString (cl_now cl))]
        @ (case raw_config of None \<Rightarrow> []
           | Some raw \<Rightarrow> [(''hashes'', JObject [(''internal_config_hash'', JString (sha256_hash pki raw))])])))"

section \<open>Running a command\<close>

text \<open>What a command writes: lines on standard output and the expiry warnings in the log.\<close>

record cli_output =
  co_stdout :: "string list"
  co_warnings :: "(string \<times> string) list"

definition println :: "string \<Rightarrow> (cli_output, connector_error, unit) step" where
  "println line out = (Inr (), out\<lparr>co_stdout := co_stdout out @ [line]\<rparr>)"

definition json_pretty :: "'u cli_lib \<Rightarrow> json \<Rightarrow> connector_error + string" where
  "json_pretty cl v = map_err (\<lambda>err. InvalidConfig (''failed to render JSON report: '' @ err)) (cl_render cl v)"

definition load_config :: "'u cli_lib \<Rightarrow> string \<Rightarrow> connector_error + 'u loaded_config" where
  "load_config cl path = load (cl_read_to_string cl) (cl_from_yaml cl) path"

definition validation_diagnostics :: "mode \<Rightarrow> string list + unit \<Rightarrow> json list" where
  "validation_diagnostics m r =
     (case r of
        Inr _ \<Rightarrow> [diagnostic ''connector.config.valid'' ''info'' (''config valid for '' @ mode_debug m @ '' mode'')]
      | Inl errors \<Rightarrow> map (diagnostic ''connector.config.validation_error'' ''error'') errors)"

definition run_validate_json ::
  "('u, 'h, 'k) platform \<Rightarrow> 'u cli_lib \<Rightarrow> int \<Rightarrow> string \<Rightarrow> bool \<Rightarrow> cli_mode option
   \<Rightarrow> (cli_output, connector_error, unit) step" where
  "run_validate_json pf cl now config_path require_env mode_override =
     (let raw_config = (case cl_read_to_string cl config_path of Inr raw \<Rightarrow> Some raw | Inl _ \<Rightarrow> None);
          report = validation_report_json (pf_host pf) (pf_pki pf) cl config_path raw_config
      in case load_config cl config_path of
           Inl err \<Rightarrow>
             step_bind (step_lift (json_pretty cl (report None
                 [diagnostic ''connector.config.load_failed'' ''error'' (error_text err)]))) (\<lambda>text.
             step_bind (println text) (\<lambda>_.
             step_lift (Inl err)))
         | Inr loaded \<Rightarrow>
             let m = unwrap_or (detect_mode loaded) (map_option mode_from mode_override);
                 diagnostics = validation_diagnostics m (validate_config pf now (lc_config loaded) m require_env);
                 report = report (Some (lc_config loaded)) diagnostics;
                 has_errors = unwrap_or 0 (as_u64 (json_index (json_index report ''summary'') ''error_count'')) > 0
             in step_bind (step_lift (json_pretty cl report)) (\<lambda>text.
                step_bind (println text) (\<lambda>_.
                step_lift (if has_errors then Inl (InvalidConfig (lc_path loaded @ '' config failed validation''))
                           else Inr ()))))"

definition run_validate ::
  "('u, 'h, 'k) platform \<Rightarrow> 'u cli_lib \<Rightarrow> int \<Rightarrow> string \<Rightarrow> bool \<Rightarrow> cli_mode option \<Rightarrow> output_format
   \<Rightarrow> (cli_output, connector_error, unit) step" where
  "run_validate pf cl now config_path require_env mode_override fmt =
     (case fmt of
        FormatText \<Rightarrow>
          step_bind (step_lift (load_config cl config_path)) (\<lambda>loaded.
          let m = unwrap_or (detect_mode loaded) (map_option mode_from mode_override) in
          step_bind (step_lift (validate_or_error pf now loaded m require_env)) (\<lambda>_.
          println (''registry-trust-connector config valid for '' @ mode_debug m @ '' mode'')))
      | FormatJson \<Rightarrow> run_validate_json pf cl now config_path require_env mode_override)"

section \<open>Starting a connector\<close>

text \<open>
  \<open>router\<close> of \<open>src/proxy.rs\<close>: the handler's state and the limit of the concurrency layer. A
  service is what \<open>run_client\<close> and \<open>run_server\<close> have set up when they start to accept. The
  concurrency layer and the connection limit are semaphores of tokio, whose constructor panics above
  its maximum, \<open>cl_max_permits\<close>.
\<close>

datatype launch_failure = LaunchError connector_error | LaunchPanicked

definition semaphore_new :: "'u cli_lib \<Rightarrow> usize \<Rightarrow> launch_failure + unit" where
  "semaphore_new cl permits = (if cl_max_permits cl < permits then Inl LaunchPanicked else Inr ())"

record ('u, 'k) router =
  ro_state :: "('u, 'k) proxy_state"
  ro_max_concurrent_requests :: usize

definition router_of :: "('u, 'k) proxy_state \<Rightarrow> ('u, 'k) router" where
  "router_of state =
     \<lparr>ro_state = state,
      ro_max_concurrent_requests = lm_max_concurrent_requests (cc_limits (ps_config state))\<rparr>"

record ('u, 'k) server_service =
  ss_bind :: socket_addr
  ss_tls :: server_tls_config
  ss_app :: "('u, 'k) router"
  ss_connection_permits :: usize
  ss_tls_handshake_timeout :: nat
  ss_http1_header_read_timeout :: nat

datatype ('u, 'k) service =
  ClientService socket_addr "('u, 'k) router"
| ServerService "('u, 'k) server_service"

definition run_client ::
  "('u, 'h, 'k) platform \<Rightarrow> 'u cli_lib \<Rightarrow> 'u loaded_config \<Rightarrow> launch_failure + ('u, 'k) service" where
  "run_client pf cl loaded =
     (let config = lc_config loaded in
      and_then (map_err LaunchError
        (ok_or (InvalidConfig ''client mode requires client_identity'') (cc_client_identity config))) (\<lambda>identity.
      and_then (map_err LaunchError
        (ok_or (InvalidConfig ''client mode requires server'') (cc_server config))) (\<lambda>server.
      and_then (map_err LaunchError (reqwest_mtls_client (pf_host pf) (pf_pki pf) identity (cs_trust_bundle server)
                  (upstream_timeout config))) (\<lambda>client.
      and_then (map_err LaunchError (listen_as_tcp (cc_listen config))) (\<lambda>bind.
      let app = router_of (proxy_state_client config client) in
      and_then (semaphore_new cl (ro_max_concurrent_requests app)) (\<lambda>_.
      and_then (map_err (LaunchError \<circ> IoError) (cl_bind cl bind)) (\<lambda>_.
      Inr (ClientService bind app))))))))"

definition run_server ::
  "('u, 'h, 'k) platform \<Rightarrow> 'u cli_lib \<Rightarrow> 'u loaded_config \<Rightarrow> launch_failure + ('u, 'k) service" where
  "run_server pf cl loaded =
     (let config = lc_config loaded in
      and_then (map_err LaunchError (listen_as_tcp (cc_listen config))) (\<lambda>bind.
      and_then (map_err LaunchError (server_config (pf_host pf) (pf_pki pf) config)) (\<lambda>tls_config.
      and_then (map_err LaunchError (proxy_state_server pf config)) (\<lambda>state.
      let app = router_of state in
      and_then (semaphore_new cl (ro_max_concurrent_requests app)) (\<lambda>_.
      and_then (map_err (LaunchError \<circ> IoError) (cl_bind cl bind)) (\<lambda>_.
      and_then (semaphore_new cl (lm_max_concurrent_connections (cc_limits config))) (\<lambda>_.
      Inr (ServerService
        \<lparr>ss_bind = bind, ss_tls = tls_config, ss_app = app,
         ss_connection_permits = lm_max_concurrent_connections (cc_limits config),
         ss_tls_handshake_timeout = tls_handshake_timeout config,
         ss_http1_header_read_timeout = http1_header_read_timeout config\<rparr>))))))))"

definition warn_expiry :: "(string \<times> string) list \<Rightarrow> (cli_output, launch_failure, unit) step" where
  "warn_expiry ws out = (Inr (), out\<lparr>co_warnings := co_warnings out @ ws\<rparr>)"

text \<open>\<open>run\<close>: \<open>None\<close> when the command is done, the service when one is to be served.\<close>

definition run ::
  "('u, 'h, 'k) platform \<Rightarrow> 'u cli_lib \<Rightarrow> int \<Rightarrow> command
   \<Rightarrow> (cli_output, launch_failure, ('u, 'k) service option) step" where
  "run pf cl now cmd =
     (let start = (\<lambda>path m require_env serve.
        step_bind (step_lift (map_err LaunchError (load_config cl path))) (\<lambda>loaded.
        step_bind (step_lift (map_err LaunchError (validate_or_error pf now loaded m require_env))) (\<lambda>_.
        step_bind (warn_expiry (warn_certificate_expiry (pf_host pf) (pf_pki pf) now (lc_config loaded) m)) (\<lambda>_.
        step_bind (step_lift (serve pf cl loaded)) (\<lambda>service.
        step_lift (Inr (Some service)))))))
      in case cmd of
           CmdValidate path require_env mode_override fmt \<Rightarrow>
             step_bind (step_map_err LaunchError (run_validate pf cl now path require_env mode_override fmt))
               (\<lambda>_. step_lift (Inr None))
         | CmdClient path \<Rightarrow> start path Client False run_client
         | CmdServer path \<Rightarrow> start path Server True run_server)"

datatype exit_code = ExitSuccess | ExitFailure | ExitPanicked

fun main_exit :: "launch_failure + ('u, 'k) service option \<Rightarrow> exit_code option" where
  "main_exit (Inl (LaunchError _)) = Some ExitFailure"
| "main_exit (Inl LaunchPanicked) = Some ExitPanicked"
| "main_exit (Inr None) = Some ExitSuccess"
| "main_exit (Inr (Some _)) = None"

text \<open>The answer to a request that fails outside the handler.\<close>

definition internal_problem :: problem_document where
  "internal_problem =
     \<lparr>pd_type = ''urn:registry:problem:connector.internal'', pd_title = ''Internal connector error'',
      pd_status = 500, pd_detail = ''request failed inside registry trust connector'', pd_extra = []\<rparr>"


section \<open>What a report says\<close>

lemma severity_index: "json_index (diagnostic code severity message) ''severity'' = JString severity"
  by (simp add: diagnostic_def json_index_def)

lemma error_count_diagnostics:
  "severity_count ''error'' (validation_diagnostics m r) = (case r of Inr _ \<Rightarrow> 0 | Inl errors \<Rightarrow> length errors)"
  "severity_count ''warning'' (validation_diagnostics m r) = 0"
  by (cases r; simp add: validation_diagnostics_def severity_count_def severity_index comp_def)+

lemma report_members:
  fixes h pki cl path raw config ds
  defines "doc \<equiv> validation_report_json h pki cl path raw config ds"
  shows "json_index (json_index doc ''summary'') ''error_count'' = JNumber (severity_count ''error'' ds)"
    and "json_index doc ''status'' = JString (cl_status_text cl
      (if severity_count ''error'' ds > 0 then StatusError
       else if severity_count ''warning'' ds > 0 then StatusWarning else StatusOk))"
    and "json_index doc ''diagnostics'' = JArray ds"
    and "json_index doc ''required_env''
      = JArray (case config of None \<Rightarrow> [] | Some c \<Rightarrow> required_env_report h cl c)"
  unfolding doc_def validation_report_json_def Let_def json_index_def by simp_all

lemma validate_config_errors: "validate_config pf now config m require_env = Inl errors \<Longrightarrow> errors \<noteq> []"
  by (auto simp: validate_config_def Let_def split: if_splits)

text \<open>The mode a configuration is validated for.\<close>

definition report_mode :: "'u loaded_config \<Rightarrow> cli_mode option \<Rightarrow> mode" where
  "report_mode loaded mode_override = unwrap_or (detect_mode loaded) (map_option mode_from mode_override)"

text \<open>The outcome of validating a file, without any report.\<close>

definition file_verdict ::
  "('u, 'h, 'k) platform \<Rightarrow> 'u cli_lib \<Rightarrow> int \<Rightarrow> string \<Rightarrow> bool \<Rightarrow> cli_mode option \<Rightarrow> string list + unit" where
  "file_verdict pf cl now path require_env mode_override =
     (case load_config cl path of
        Inl err \<Rightarrow> Inl [error_text err]
      | Inr loaded \<Rightarrow> validate_config pf now (lc_config loaded) (report_mode loaded mode_override) require_env)"

lemma run_validate_json_report:
  assumes "\<And>v. \<exists>rendered. cl_render cl v = Inr rendered"
    and "run_validate_json pf cl now path require_env mode_override out = (r, out')"
  shows "\<exists>doc rendered ds. cl_render cl doc = Inr rendered \<and> co_stdout out' = co_stdout out @ [rendered]
    \<and> doc = validation_report_json (pf_host pf) (pf_pki pf) cl path
        (case cl_read_to_string cl path of Inr raw \<Rightarrow> Some raw | Inl _ \<Rightarrow> None)
        (case load_config cl path of Inr loaded \<Rightarrow> Some (lc_config loaded) | Inl _ \<Rightarrow> None) ds
    \<and> severity_count ''warning'' ds = 0
    \<and> severity_count ''error'' ds =
        (case file_verdict pf cl now path require_env mode_override of Inr _ \<Rightarrow> 0 | Inl errors \<Rightarrow> length errors)
    \<and> (\<forall>errors. file_verdict pf cl now path require_env mode_override = Inl errors \<longrightarrow>
         map (\<lambda>d. json_index d ''message'') ds = map JString errors)
    \<and> ((\<exists>u. r = Inr u) \<longleftrightarrow> (\<exists>u. file_verdict pf cl now path require_env mode_override = Inr u))"
proof (cases "load_config cl path")
  case (Inl err)
  let ?ds = "[diagnostic ''connector.config.load_failed'' ''error'' (error_text err)]"
  let ?doc = "validation_report_json (pf_host pf) (pf_pki pf) cl path
      (case cl_read_to_string cl path of Inr raw \<Rightarrow> Some raw | Inl _ \<Rightarrow> None) None ?ds"
  from assms(1) obtain rendered where t: "cl_render cl ?doc = Inr rendered" by blast
  have run: "run_validate_json pf cl now path require_env mode_override out =
      (Inl err, out\<lparr>co_stdout := co_stdout out @ [rendered]\<rparr>)"
    using t by (simp add: run_validate_json_def Inl Let_def json_pretty_def step_bind_def println_def step_lift_def)
  have "severity_count ''warning'' ?ds = 0" "severity_count ''error'' ?ds = 1"
    by (simp_all add: severity_count_def severity_index)
  moreover have "map (\<lambda>d. json_index d ''message'') ?ds = [JString (error_text err)]"
    by (simp add: diagnostic_def json_index_def)
  moreover have "file_verdict pf cl now path require_env mode_override = Inl [error_text err]"
    by (simp add: file_verdict_def Inl)
  ultimately show ?thesis
    using t run assms(2) by (intro exI [of _ ?doc] exI [of _ rendered] exI [of _ ?ds]) (simp add: Inl)
next
  case (Inr loaded)
  let ?m = "report_mode loaded mode_override"
  let ?v = "validate_config pf now (lc_config loaded) ?m require_env"
  let ?ds = "validation_diagnostics ?m ?v"
  let ?report = "validation_report_json (pf_host pf) (pf_pki pf) cl path
      (case cl_read_to_string cl path of Inr raw \<Rightarrow> Some raw | Inl _ \<Rightarrow> None) (Some (lc_config loaded)) ?ds"
  from assms(1) obtain rendered where t: "cl_render cl ?report = Inr rendered" by blast
  have run: "run_validate_json pf cl now path require_env mode_override out =
      (if severity_count ''error'' ?ds > 0 then Inl (InvalidConfig (lc_path loaded @ '' config failed validation'')) else Inr (),
       out\<lparr>co_stdout := co_stdout out @ [rendered]\<rparr>)"
    using t by (simp add: run_validate_json_def Inr Let_def json_pretty_def step_bind_def println_def step_lift_def
        report_members report_mode_def)
  have msg: "map (\<lambda>d. json_index d ''message'') ?ds = map JString errors" if "?v = Inl errors" for errors
    using that by (simp add: validation_diagnostics_def diagnostic_def json_index_def comp_def)
  have "file_verdict pf cl now path require_env mode_override = ?v" by (simp add: file_verdict_def Inr)
  with run assms(2) t msg error_count_diagnostics [of ?m ?v] validate_config_errors [of pf now "lc_config loaded" ?m require_env]
  show ?thesis
    by (intro exI [of _ ?report] exI [of _ rendered] exI [of _ ?ds]) (cases ?v; auto simp: Inr)
qed

lemma file_verdict_errors: "file_verdict pf cl now path require_env mode_override = Inl errors \<Longrightarrow> errors \<noteq> []"
  by (cases "load_config cl path") (auto simp: file_verdict_def dest: validate_config_errors)

lemma listen_as_tcp_Inr_iff: "listen_as_tcp l = Inr addr \<longleftrightarrow> l = ListenTcp addr"
  by (cases l) auto

section \<open>A concrete command line\<close>

definition example_cli :: "string cli_lib" where
  "example_cli =
     \<lparr>cl_read_to_string = Inr, cl_from_yaml = (\<lambda>_. Inr example_server), cl_render = (\<lambda>_. Inr ''report''),
      cl_status_text = (\<lambda>s. case s of StatusOk \<Rightarrow> ''ok'' | StatusWarning \<Rightarrow> ''warning'' | StatusError \<Rightarrow> ''error''),
      cl_secret_text = ''secret'', cl_env_status_text = (\<lambda>s. case s of EnvPresent \<Rightarrow> ''present'' | EnvMissing \<Rightarrow> ''missing''),
      cl_now = ''1970-01-01T00:00:00Z'', cl_bind = (\<lambda>_. Inr ()),
      cl_max_permits = 0x1FFFFFFFFFFFFFFF\<rparr>"

definition example_output :: cli_output where
  "example_output = \<lparr>co_stdout = [], co_warnings = []\<rparr>"

lemma example_server_tls: "\<exists>tls. server_config example_host example_pki example_server = Inr tls"
  by (simp add: server_config_def example_server_def example_defs load_certs_def load_private_key_def
      root_store_from_paths_def load_single_ca_cert_def)

lemma example_launch:
  "\<exists>service out'. run example_platform example_cli 5 (CmdServer ''connector.yaml'') example_output
     = (Inr (Some service), out')"
proof -
  obtain tls where t: "server_config example_host example_pki example_server = Inr tls" using example_server_tls by blast
  have l: "load_config example_cli ''connector.yaml'' = Inr \<lparr>lc_config = example_server, lc_path = ''connector.yaml''\<rparr>"
    by (simp add: load_config_def load_def example_cli_def)
  have b: "listen_as_tcp (cc_listen example_server) = Inr \<lparr>sa_ip = IpV4 0x7F000001, sa_port = 8443\<rparr>"
    by (simp add: example_server_def example_config_def)
  have "\<exists>service. run_server example_platform example_cli \<lparr>lc_config = example_server, lc_path = ''connector.yaml''\<rparr> = Inr service"
    by (simp add: run_server_def Let_def b t example_state_built semaphore_new_def router_of_def)
      (simp add: example_cli_def example_state_def example_server_fields default_limits_def
        default_max_concurrent_requests_def default_max_concurrent_connections_def)
  then show ?thesis
    by (auto simp: run_def Let_def l step_bind_def step_lift_def validate_or_error_def example_server_valid warn_expiry_def)
qed

section \<open>Properties\<close>

text \<open>
  C35. The JSON report tells the truth about the file, and so does the exit code. Exactly one line is
  printed; its error count is the number of validation errors, or one if the file cannot be loaded; its
  status is error exactly when there is one, and never warning; its diagnostics carry the errors in order; and the
  command succeeds exactly when the file loads and validates, for the mode given or detected.
\<close>

theorem json_report_faithful:
  assumes "\<And>v. \<exists>rendered. cl_render cl v = Inr rendered"
    and "run_validate_json pf cl now path require_env mode_override out = (r, out')"
  shows "\<exists>doc rendered errors ds. cl_render cl doc = Inr rendered \<and> co_stdout out' = co_stdout out @ [rendered]
    \<and> file_verdict pf cl now path require_env mode_override = (if errors = [] then Inr () else Inl errors)
    \<and> as_u64 (json_index (json_index doc ''summary'') ''error_count'') = Some (length errors)
    \<and> json_index doc ''status'' = JString (cl_status_text cl (if errors = [] then StatusOk else StatusError))
    \<and> json_index doc ''diagnostics'' = JArray ds
    \<and> (errors \<noteq> [] \<longrightarrow> map (\<lambda>d. json_index d ''message'') ds = map JString errors)
    \<and> (r = Inr () \<longleftrightarrow> errors = [])"
proof -
  let ?v = "file_verdict pf cl now path require_env mode_override"
  from run_validate_json_report [OF assms] show ?thesis
  proof (elim exE conjE, goal_cases)
    case (1 doc rendered ds)
    show ?thesis
    proof (cases ?v)
      case (Inl errors)
      with 1 file_verdict_errors [OF Inl] show ?thesis
        by (intro exI [of _ doc] exI [of _ rendered] exI [of _ errors] exI [of _ ds]) (simp add: report_members)
    next
      case (Inr u)
      with 1 show ?thesis
        by (intro exI [of _ doc] exI [of _ rendered] exI [of _ "[]"] exI [of _ ds]) (simp add: report_members)
    qed
  qed
qed

theorem json_report_faithful_witness:
  "\<exists>r out'. run_validate_json example_platform example_cli 5 ''connector.yaml'' True None example_output = (r, out')
    \<and> (\<exists>doc rendered errors ds. cl_render example_cli doc = Inr rendered
      \<and> co_stdout out' = co_stdout example_output @ [rendered]
      \<and> file_verdict example_platform example_cli 5 ''connector.yaml'' True None
          = (if errors = [] then Inr () else Inl errors)
      \<and> as_u64 (json_index (json_index doc ''summary'') ''error_count'') = Some (length errors)
      \<and> json_index doc ''status'' = JString (cl_status_text example_cli (if errors = [] then StatusOk else StatusError))
      \<and> json_index doc ''diagnostics'' = JArray ds
      \<and> (errors \<noteq> [] \<longrightarrow> map (\<lambda>d. json_index d ''message'') ds = map JString errors)
      \<and> (r = Inr () \<longleftrightarrow> errors = []))"
proof -
  obtain r out' where h: "run_validate_json example_platform example_cli 5 ''connector.yaml'' True None example_output = (r, out')"
    by fastforce
  have "\<exists>rendered. cl_render example_cli v = Inr rendered" for v by (simp add: example_cli_def)
  from json_report_faithful [OF this h] h show ?thesis by (intro exI [of _ r] exI [of _ out'] conjI)
qed

text \<open>
  C15. Nothing is served before it is validated. A command that starts a service has loaded its file
  and validated it for its mode, the server with all its secrets; the server listens on the configured address,
  offers its own certificate, asks for client certificates of the configured anchors, and has positive
  limits on connections, requests and handshakes; the client listens beyond loopback only if that is
  switched on, and its HTTP client trusts the configured bundle only, over https, without proxy and without
  following redirects.
\<close>

theorem launch_validated:
  assumes "run pf cl now cmd out = (Inr (Some service), out')"
  shows "\<exists>path loaded config. load_config cl path = Inr loaded \<and> config = lc_config loaded
    \<and> (cmd = CmdServer path \<and> validate_config pf now config Server True = Inr ()
        \<and> (\<exists>s state identity trust. service = ServerService s
            \<and> cc_listen config = ListenTcp (ss_bind s)
            \<and> cc_server_identity config = Some identity \<and> load_certs (pf_host pf) (pf_pki pf) (if_cert identity) = Inr (sc_certs (ss_tls s))
            \<and> cc_client_trust config = Some trust
            \<and> list_all2 (\<lambda>a root. load_single_ca_cert (pf_host pf) (pf_pki pf) (ta_ca a) = Inr root)
                (ct_trust_anchors trust) (sc_client_roots (ss_tls s))
            \<and> proxy_state_server pf config = Inr state \<and> ss_app s = router_of state
            \<and> ss_connection_permits s \<le> cl_max_permits cl \<and> 0 < unat (ss_connection_permits s)
            \<and> 0 < unat (ro_max_concurrent_requests (ss_app s))
            \<and> 0 < ss_tls_handshake_timeout s \<and> 0 < ss_http1_header_read_timeout s)
      \<or> cmd = CmdClient path \<and> validate_config pf now config Client False = Inr ()
        \<and> (\<exists>addr client server. service = ClientService addr (router_of (proxy_state_client config client))
            \<and> cc_listen config = ListenTcp addr
            \<and> (ip_is_loopback (sa_ip addr) \<or> cc_allow_non_loopback_client_listen config)
            \<and> cc_server config = Some server \<and> url_scheme (pf_url pf) (cs_url server) = ''https''
            \<and> read_ca_pem (pf_host pf) (pf_pki pf) (cs_trust_bundle server) = Inr (mc_roots client)
            \<and> \<not> mc_built_in_roots client \<and> \<not> mc_use_proxy client \<and> \<not> mc_follow_redirects client))"
proof (cases cmd)
  case (CmdServer path)
  from assms obtain loaded where l: "load_config cl path = Inr loaded"
    "validate_config pf now (lc_config loaded) Server True = Inr ()" "run_server pf cl loaded = Inr service"
    by (auto simp: run_def CmdServer result_simps validate_or_error_def semaphore_new_def)
  from validate_config_ok_iff [THEN iffD1, OF l(2)] have c: "validate_common (pf_decode pf) (lc_config loaded) = []" by simp
  from l(3) show ?thesis
    using l(1,2) validate_common_Nil [OF c] unfolding run_server_def Let_def
    by (intro exI [of _ path] exI [of _ loaded] exI [of _ "lc_config loaded"])
      (auto simp: CmdServer result_simps router_of_def listen_as_tcp_Inr_iff server_config_def
        root_store_from_paths_Inr_iff list_all2_map1 proxy_state_server_Inr(2) unat_gt_0 semaphore_new_def
        elim: list_all2_mono)
next
  case (CmdClient path)
  from assms obtain loaded where l: "load_config cl path = Inr loaded"
    "validate_config pf now (lc_config loaded) Client False = Inr ()" "run_client pf cl loaded = Inr service"
    by (auto simp: run_def CmdClient result_simps validate_or_error_def)
  from l(2) have "validate_client pf now (lc_config loaded) False = []" by (simp add: validate_config_ok_iff)
  with l(3) show ?thesis
    using l(1,2) unfolding run_client_def Let_def
    by (intro exI [of _ path] exI [of _ loaded] exI [of _ "lc_config loaded"])
      (auto simp: CmdClient result_simps listen_as_tcp_Inr_iff reqwest_mtls_client_def validate_client_def no_errors
        split: option.splits)
next
  case (CmdValidate path require_env mode_override fmt)
  with assms show ?thesis by (auto simp: run_def result_simps step_map_err_def split: prod.splits)
qed

theorem launch_validated_witness:
  "\<exists>service out'. run example_platform example_cli 5 (CmdServer ''connector.yaml'') example_output = (Inr (Some service), out')
    \<and> (\<exists>path loaded config. load_config example_cli path = Inr loaded \<and> config = lc_config loaded
    \<and> (CmdServer ''connector.yaml'' = CmdServer path \<and> validate_config example_platform 5 config Server True = Inr ()
        \<and> (\<exists>s state identity trust. service = ServerService s
            \<and> cc_listen config = ListenTcp (ss_bind s)
            \<and> cc_server_identity config = Some identity \<and> load_certs (pf_host example_platform) (pf_pki example_platform) (if_cert identity) = Inr (sc_certs (ss_tls s))
            \<and> cc_client_trust config = Some trust
            \<and> list_all2 (\<lambda>a root. load_single_ca_cert (pf_host example_platform) (pf_pki example_platform) (ta_ca a) = Inr root)
                (ct_trust_anchors trust) (sc_client_roots (ss_tls s))
            \<and> proxy_state_server example_platform config = Inr state \<and> ss_app s = router_of state
            \<and> ss_connection_permits s \<le> cl_max_permits example_cli \<and> 0 < unat (ss_connection_permits s)
            \<and> 0 < unat (ro_max_concurrent_requests (ss_app s))
            \<and> 0 < ss_tls_handshake_timeout s \<and> 0 < ss_http1_header_read_timeout s)
      \<or> CmdServer ''connector.yaml'' = CmdClient path \<and> validate_config example_platform 5 config Client False = Inr ()
        \<and> (\<exists>addr client server. service = ClientService addr (router_of (proxy_state_client config client))
            \<and> cc_listen config = ListenTcp addr
            \<and> (ip_is_loopback (sa_ip addr) \<or> cc_allow_non_loopback_client_listen config)
            \<and> cc_server config = Some server \<and> url_scheme (pf_url example_platform) (cs_url server) = ''https''
            \<and> read_ca_pem (pf_host example_platform) (pf_pki example_platform) (cs_trust_bundle server) = Inr (mc_roots client)
            \<and> \<not> mc_built_in_roots client \<and> \<not> mc_use_proxy client \<and> \<not> mc_follow_redirects client)))"
proof -
  obtain service out' where h:
    "run example_platform example_cli 5 (CmdServer ''connector.yaml'') example_output = (Inr (Some service), out')"
    using example_launch by blast
  from launch_validated [OF h] h show ?thesis by (intro exI [of _ service] exI [of _ out'] conjI)
qed

end
