(* ===== verification/Connector_Traffic.thy ===== *)
theory Connector_Traffic
  imports Connector_Gateway
begin

text \<open>
  Sequences of requests. The state the handlers share is shown to be transparent except for the rate
  limiter, every request sent upstream is in the audit log, and the rate limit and the size of the
  limiter's table are bounded for all traffic. Two small calculi carry the proofs: steps that agree
  on related states, and steps that keep a part of the state.
\<close>

section \<open>Steps that agree on related states\<close>

text \<open>
  Two runs of a step from related states return the same result and end in related states.
\<close>

definition agrees :: "('s \<Rightarrow> 's \<Rightarrow> bool) \<Rightarrow> ('s, 'e, 'a) step \<Rightarrow> bool" where
  "agrees R m \<longleftrightarrow> (\<forall>s t. R s t \<longrightarrow> fst (m s) = fst (m t) \<and> R (snd (m s)) (snd (m t)))"

named_theorems agrees_intros

lemma agrees_bind [agrees_intros]:
  assumes "agrees R m" and "\<And>a. agrees R (f a)"
  shows "agrees R (step_bind m f)"
  unfolding agrees_def
proof (intro allI impI)
  fix s t
  assume "R s t"
  with assms(1) have "fst (m s) = fst (m t)" "R (snd (m s)) (snd (m t))" by (auto simp: agrees_def)
  then show "fst (step_bind m f s) = fst (step_bind m f t) \<and> R (snd (step_bind m f s)) (snd (step_bind m f t))"
    using assms(2) by (cases "m s"; cases "m t"; cases "fst (m s)") (auto simp: step_bind_def agrees_def)
qed

lemma agrees_lift [agrees_intros]: "agrees R (step_lift r)"
  by (simp add: agrees_def step_lift_def)

lemma agrees_report [agrees_intros]: "agrees R (report r)"
  by (simp add: report_def agrees_lift)

lemma agrees_map_err [agrees_intros]: "agrees R m \<Longrightarrow> agrees R (step_map_err g m)"
  by (simp add: agrees_def step_map_err_def split_beta)

lemma agrees_await [agrees_intros]: "agrees R (await deadline mo p)"
  by (simp add: await_def agrees_report)

lemma agrees_expect [agrees_intros]: "agrees R (expect_some x)"
  by (simp add: expect_some_def agrees_lift)

lemma agrees_if [agrees_intros]: "agrees R m \<Longrightarrow> agrees R n \<Longrightarrow> agrees R (if b then m else n)"
  by simp

text \<open>
  The state a request needs is the rate limiter. Two worlds with the same limiter and valid policy
  hash cells are related; whatever a request adds to log and traffic is the same for both.
\<close>

definition same_view :: "pki_lib \<Rightarrow> 'u proxy_world \<Rightarrow> 'u proxy_world \<Rightarrow> 'u proxy_world \<Rightarrow> 'u proxy_world \<Rightarrow> bool" where
  "same_view pki v0 w0 v w \<longleftrightarrow>
     pw_rate v = pw_rate w \<and> cells_valid pki v \<and> cells_valid pki w
     \<and> (\<exists>evs. as_log v = as_log v0 @ evs \<and> as_log w = as_log w0 @ evs)
     \<and> (\<exists>obs. pw_sent v = pw_sent v0 @ obs \<and> pw_sent w = pw_sent w0 @ obs)"

lemma agrees_log [agrees_intros]: "agrees (same_view pki v0 w0) (log_info e)"
  by (auto simp: agrees_def same_view_def log_info_eq cells_valid_def)

lemma agrees_hand_over [agrees_intros]: "agrees (same_view pki v0 w0) (hand_over ob)"
  by (auto simp: agrees_def same_view_def hand_over_def cells_valid_def)

lemma agrees_limit_rate [agrees_intros]: "agrees (same_view pki v0 w0) (limit_rate mo i r l)"
  by (auto simp: agrees_def same_view_def limit_rate_def cells_valid_def split_beta)

lemma agrees_hash [agrees_intros]: 
  fixes v0 :: "'u proxy_world"
  shows "agrees (same_view pki v0 w0) (route_purpose_policy_hash pki rm :: ('u proxy_world, 'e, string) step)"
  unfolding agrees_def
proof (intro allI impI)
  fix v w :: "'u proxy_world"
  assume r: "same_view pki v0 w0 v w"
  then have c: "cells_valid pki v" "cells_valid pki w" by (simp_all add: same_view_def)
  let ?h = "route_purpose_policy_hash pki rm :: ('u proxy_world, 'e, string) step"
  have f: "as_log (snd (?h x)) = as_log x \<and> pw_rate (snd (?h x)) = pw_rate x \<and> pw_sent (snd (?h x)) = pw_sent x" for x
    using route_purpose_policy_hash_frame [of pki rm x "fst (?h x)" "snd (?h x)"] world_more_eq by (metis prod.collapse)
  have g: "fst (?h x) = Inr (policy_digest pki (route_hash_material (rm_route rm)))" "cells_valid pki (snd (?h x))"
    if "cells_valid pki x" for x
    by (rule route_purpose_policy_hash_value [OF that])+
  show "fst (?h v) = fst (?h w) \<and> same_view pki v0 w0 (snd (?h v)) (snd (?h w))"
    using r f [of v] f [of w] g [OF c(1)] g [OF c(2)]
    by (simp add: same_view_def)
qed

lemma agrees_enforce [agrees_intros]: "agrees (same_view pki v0 w0) (enforce_decision pdp rid purpose d)"
  unfolding enforce_decision_def by (cases d) (simp_all add: agrees_intros)

lemma agrees_authorize [agrees_intros]:
  "agrees (same_view pki v0 w0) (authorize_server_purpose hl pki pdp now_ns rm headers identity trust)"
  unfolding authorize_server_purpose_def Let_def by (intro agrees_intros)

lemma agrees_admission [agrees_intros]:
  "agrees (same_view (pf_pki pf) v0 w0) (server_admission pf pdp mo ps req)"
  unfolding server_admission_def Let_def by (intro agrees_intros)

lemma agrees_send [agrees_intros]:
  "agrees (same_view pki v0 w0) (send_upstream hl wl deadline mo meth url headers body n)"
  unfolding send_upstream_def Let_def by (intro agrees_intros)

lemma agrees_read_body [agrees_intros]: "agrees R (read_limited_body wl deadline mo body n)"
  unfolding read_limited_body_def by (intro agrees_intros)

lemma agrees_handle_server [agrees_intros]:
  "agrees (same_view (pf_pki pf) v0 w0) (handle_server pf wl pdp deadline mo ps req rid)"
  unfolding handle_server_def server_forward_def log_authorized_def Let_def split_beta by (intro agrees_intros)

lemma agrees_handle_client [agrees_intros]:
  "agrees (same_view (pf_pki pf) v0 w0) (handle_client pf wl deadline mo ps req rid)"
  unfolding handle_client_def Let_def by (intro agrees_intros)


section \<open>Sequences of requests\<close>

type_synonym ('u, 'r, 'h, 'b) arrivals = "(('u, 'r) moment \<times> ('h, 'b) http_request) list"

fun serve ::
  "('u, 'h, 'k) platform \<Rightarrow> ('b, 'r, 'h) wire_lib \<Rightarrow> pdp_lib \<Rightarrow> ('u, 'k) proxy_state
   \<Rightarrow> ('u, 'r, 'h, 'b) arrivals \<Rightarrow> 'u proxy_world \<Rightarrow> response option list \<times> 'u proxy_world" where
  "serve pf wl pdp ps [] w = ([], w)"
| "serve pf wl pdp ps ((mo, req) # rs) w =
     (let (answer, w') = proxy_handler pf wl pdp mo ps req w;
          (answers, w'') = serve pf wl pdp ps rs w'
      in (answer # answers, w''))"

lemma serve_Cons:
  "serve pf wl pdp ps ((mo, req) # rs) w =
     (let w' = snd (proxy_handler pf wl pdp mo ps req w)
      in (fst (proxy_handler pf wl pdp mo ps req w) # fst (serve pf wl pdp ps rs w'), snd (serve pf wl pdp ps rs w')))"
  by (simp add: split_beta Let_def)

declare serve.simps(2) [simp del]

text \<open>
  The specification of the gateway: its only state is the rate limiter. A request gives an answer,
  the requests sent and the log entries.
\<close>

type_synonym 'u outcome = "response option \<times> 'u outbound_request list \<times> log_event list"

definition blank_world :: "rate_limiter \<Rightarrow> 'u proxy_world" where
  "blank_world rl = \<lparr>as_cells = (\<lambda>_. None), as_log = [], pw_rate = rl, pw_sent = []\<rparr>"

definition gateway_spec ::
  "('u, 'h, 'k) platform \<Rightarrow> ('b, 'r, 'h) wire_lib \<Rightarrow> pdp_lib \<Rightarrow> ('u, 'k) proxy_state \<Rightarrow> ('u, 'r) moment
   \<Rightarrow> ('h, 'b) http_request \<Rightarrow> rate_limiter \<Rightarrow> 'u outcome \<times> rate_limiter" where
  "gateway_spec pf wl pdp ps mo req rl =
     (let (answer, w) = proxy_handler pf wl pdp mo ps req (blank_world rl)
      in ((answer, pw_sent w, as_log w), pw_rate w))"

fun spec_run ::
  "('u, 'h, 'k) platform \<Rightarrow> ('b, 'r, 'h) wire_lib \<Rightarrow> pdp_lib \<Rightarrow> ('u, 'k) proxy_state
   \<Rightarrow> ('u, 'r, 'h, 'b) arrivals \<Rightarrow> rate_limiter \<Rightarrow> 'u outcome list \<times> rate_limiter" where
  "spec_run pf wl pdp ps [] rl = ([], rl)"
| "spec_run pf wl pdp ps ((mo, req) # rs) rl =
     (let (out, rl') = gateway_spec pf wl pdp ps mo req rl;
          (outs, rl'') = spec_run pf wl pdp ps rs rl'
      in (out # outs, rl''))"

lemma blank_cells_valid: "cells_valid pki (blank_world rl)"
  by (simp add: cells_valid_def blank_world_def cell_valid_def)

lemma agrees_run_handler:
  "agrees (same_view (pf_pki pf) v0 w0) (run_handler pf wl pdp mo ps req)"
  unfolding run_handler_def Let_def by (cases "ps_mode ps") (simp_all add: agrees_intros)

lemma handler_refines:
  assumes "cells_valid (pf_pki pf) w"
    and "gateway_spec pf wl pdp ps mo req (pw_rate w) = ((a, obs, evs), rl)"
  shows "fst (proxy_handler pf wl pdp mo ps req w) = a"
    and "pw_sent (snd (proxy_handler pf wl pdp mo ps req w)) = pw_sent w @ obs"
    and "as_log (snd (proxy_handler pf wl pdp mo ps req w)) = as_log w @ evs"
    and "pw_rate (snd (proxy_handler pf wl pdp mo ps req w)) = rl"
    and "cells_valid (pf_pki pf) (snd (proxy_handler pf wl pdp mo ps req w))"
proof -
  let ?b = "blank_world (pw_rate w)"
  obtain r w1 where h: "run_handler pf wl pdp mo ps req w = (r, w1)" by fastforce
  obtain r' b1 where b: "run_handler pf wl pdp mo ps req ?b = (r', b1)" by fastforce
  have "same_view (pf_pki pf) w ?b w ?b"
    using assms(1) blank_cells_valid by (auto simp: same_view_def blank_world_def)
  with agrees_run_handler [of pf w ?b wl pdp mo ps req] h b have *: "r = r'" "same_view (pf_pki pf) w ?b w1 b1"
    unfolding agrees_def by (metis fst_conv snd_conv)+
  then obtain evs' obs' where v: "as_log w1 = as_log w @ evs'" "as_log b1 = evs'"
    "pw_sent w1 = pw_sent w @ obs'" "pw_sent b1 = obs'" "pw_rate w1 = pw_rate b1" "cells_valid (pf_pki pf) w1"
    by (auto simp: same_view_def blank_world_def)
  from assms(2) have "a = fst (proxy_handler pf wl pdp mo ps req ?b)"
    "obs = pw_sent (snd (proxy_handler pf wl pdp mo ps req ?b))"
    "evs = as_log (snd (proxy_handler pf wl pdp mo ps req ?b))"
    "rl = pw_rate (snd (proxy_handler pf wl pdp mo ps req ?b))"
    by (simp_all add: gateway_spec_def split_beta)
  with v * show "fst (proxy_handler pf wl pdp mo ps req w) = a"
    and "pw_sent (snd (proxy_handler pf wl pdp mo ps req w)) = pw_sent w @ obs"
    and "as_log (snd (proxy_handler pf wl pdp mo ps req w)) = as_log w @ evs"
    and "pw_rate (snd (proxy_handler pf wl pdp mo ps req w)) = rl"
    and "cells_valid (pf_pki pf) (snd (proxy_handler pf wl pdp mo ps req w))"
    by (simp_all add: proxy_handler_eq [OF h] proxy_handler_eq [OF b] cells_valid_def split: option.splits)
qed

section \<open>Steps that keep a part of the state\<close>

definition keeps :: "('s \<Rightarrow> 'x) \<Rightarrow> ('s, 'e, 'a) step \<Rightarrow> bool" where
  "keeps f m \<longleftrightarrow> (\<forall>s. f (snd (m s)) = f s)"

named_theorems keeps_intros

lemma keepsD: "keeps f m \<Longrightarrow> m s = (r, t) \<Longrightarrow> f t = f s"
  by (metis keeps_def snd_conv)

lemma keeps_bind [keeps_intros]: "keeps f m \<Longrightarrow> (\<And>a. keeps f (g a)) \<Longrightarrow> keeps f (step_bind m g)"
  by (simp add: keeps_def step_bind_def split: prod.splits sum.splits) (metis snd_conv)

lemma keeps_pure [keeps_intros]:
  "keeps f (step_lift r)" "keeps f (report r')" "keeps f (await deadline mo p)" "keeps f (expect_some x)"
  by (simp_all add: keeps_def step_lift_def report_def await_def expect_some_def)

lemma keeps_if [keeps_intros]: "keeps f m \<Longrightarrow> keeps f n \<Longrightarrow> keeps f (if b then m else n)"
  by simp

lemma keeps_read_body [keeps_intros]: "keeps f (read_limited_body wl deadline mo body n)"
  unfolding read_limited_body_def by (intro keeps_intros)

lemma keeps_rate_log [keeps_intros]: "keeps pw_rate (log_info e :: ('u proxy_world, failure, unit) step)"
  by (simp add: keeps_def log_info_eq)

lemma keeps_rate_hand_over [keeps_intros]: "keeps pw_rate (hand_over ob)"
  by (simp add: keeps_def hand_over_def)

lemma keeps_rate_send [keeps_intros]: "keeps pw_rate (send_upstream hl wl deadline mo meth url headers body n)"
  unfolding send_upstream_def Let_def by (intro keeps_intros)

lemma keeps_rate_forward:
  "keeps pw_rate (server_forward pf wl deadline mo ps req rid identity rm purpose)"
  unfolding server_forward_def log_authorized_def Let_def by (intro keeps_intros)

text \<open>Policy evaluation logs decisions only.\<close>

fun is_authorized :: "log_event \<Rightarrow> bool" where
  "is_authorized (ServerAuthorized _ _ _ _) = True"
| "is_authorized _ = False"

fun is_completed :: "log_event \<Rightarrow> bool" where
  "is_completed (RequestCompleted _) = True"
| "is_completed _ = False"

definition handler_entries :: "'m audit_state_scheme \<Rightarrow> log_event list" where
  "handler_entries w = filter (\<lambda>e. is_authorized e \<or> is_completed e) (as_log w)"

lemma keeps_entries_hash [keeps_intros]: "keeps handler_entries (route_purpose_policy_hash pki rm)"
  unfolding keeps_def handler_entries_def
  by (metis prod.collapse route_purpose_policy_hash_frame)

lemma keeps_entries_enforce [keeps_intros]: "keeps handler_entries (enforce_decision pdp rid purpose d)"
  by (cases d) (simp_all add: keeps_def handler_entries_def enforce_decision_def log_info_def step_bind_def step_lift_def)

lemma keeps_entries_authorize [keeps_intros]:
  "keeps handler_entries (authorize_server_purpose hl pki pdp now_ns rm headers identity trust)"
  unfolding authorize_server_purpose_def Let_def by (intro keeps_intros)

lemma keeps_map_err [keeps_intros]: "keeps f m \<Longrightarrow> keeps f (step_map_err g m)"
  by (simp add: keeps_def step_map_err_def split_beta)

lemma keeps_entries_limit [keeps_intros]: "keeps handler_entries (limit_rate mo i r l)"
  by (simp add: keeps_def limit_rate_def split_beta handler_entries_def)

lemma keeps_entries_admission: "keeps handler_entries (server_admission pf pdp mo ps req)"
  unfolding server_admission_def Let_def by (intro keeps_intros)

section \<open>The audit trail\<close>

lemma handle_server_trail:
  assumes "handle_server pf wl pdp deadline mo ps req rid w = (r, w')"
    and "method_from_bytes wl (rq_method req) \<noteq> None"
  shows "\<exists>evs obs. handler_entries w' = handler_entries w @ evs \<and> pw_sent w' = pw_sent w @ obs
    \<and> length evs = length obs \<and> list_all is_authorized evs"
proof -
  obtain a w1 where adm: "server_admission pf pdp mo ps req w = (a, w1)" by fastforce
  note k = keepsD [OF keeps_entries_admission adm] admission_frame [OF adm]
  show ?thesis
  proof (cases a)
    case (Inl e)
    with assms(1) adm k show ?thesis by (simp add: handle_server_def step_bind_def)
  next
    case (Inr irp)
    obtain identity rm purpose where irp: "irp = (identity, rm, purpose)" by (cases irp)
    with assms(1) adm Inr have f: "server_forward pf wl deadline mo ps req rid identity rm purpose w1 = (r, w')"
      by (simp add: handle_server_def step_bind_def)
    show ?thesis
    proof (cases "\<exists>body url headers event. prepared pf wl deadline mo ps req rid identity rm purpose body url headers event")
      case True
      then obtain body url headers event where
        p: "prepared pf wl deadline mo ps req rid identity rm purpose body url headers event" by blast
      then have e: "is_authorized event" by (auto simp: prepared_def)
      from assms(2) obtain m where "method_from_bytes wl (rq_method req) = Some m" by blast
      with arg_cong [OF f, of snd] have "w' = w1\<lparr>as_log := as_log w1 @ [event],
          pw_sent := pw_sent w1 @ [outbound_of (pf_headers pf) m url headers body]\<rparr>"
        by (simp add: server_forward_prepared [OF p] send_upstream_world)
      with k e show ?thesis by (simp add: handler_entries_def)
    next
      case False
      with server_forward_stopped [OF f] k show ?thesis by auto
    qed
  qed
qed


lemma proxy_handler_trail:
  assumes "proxy_state_server pf config = Inr ps" and "proxy_handler pf wl pdp mo ps req w = (a, w')"
    and "method_from_bytes wl (rq_method req) \<noteq> None"
  shows "\<exists>evs obs. handler_entries w' = handler_entries w @ evs @ (if a = None then [] else [last (as_log w')])
    \<and> pw_sent w' = pw_sent w @ obs \<and> length evs = length obs \<and> list_all is_authorized evs
    \<and> (a \<noteq> None \<longrightarrow> is_completed (last (as_log w')))"
proof -
  obtain r w1 where h: "run_handler pf wl pdp mo ps req w = (r, w1)" by fastforce
  from handle_server_trail [OF h [unfolded run_handler_server [OF assms(1)]] assms(3)] obtain evs obs where
    t: "handler_entries w1 = handler_entries w @ evs" "pw_sent w1 = pw_sent w @ obs" "length evs = length obs"
    "list_all is_authorized evs" by blast
  from assms(2) have a: "a = answer r" by (simp add: proxy_handler_eq [OF h])
  show ?thesis
  proof (cases "answer r")
    case None
    with assms(2) t a show ?thesis by (auto simp: proxy_handler_eq [OF h])
  next
    case (Some rsp)
    with assms(2) t a show ?thesis
      by (auto simp: proxy_handler_eq [OF h] handler_entries_def intro!: exI [of _ evs] exI [of _ obs])
  qed
qed

lemma count_authorized: "list_all is_authorized evs \<Longrightarrow> filter is_authorized evs = evs \<and> filter is_completed evs = []"
  by (induction evs) (auto elim: is_authorized.elims)

definition authorized_count :: "'m audit_state_scheme \<Rightarrow> nat" where
  "authorized_count w = length (filter is_authorized (as_log w))"

definition completed_count :: "'m audit_state_scheme \<Rightarrow> nat" where
  "completed_count w = length (filter is_completed (as_log w))"

lemma counts_entries:
  "authorized_count w = length (filter is_authorized (handler_entries w))"
  "completed_count w = length (filter is_completed (handler_entries w))"
  by (simp_all add: authorized_count_def completed_count_def handler_entries_def filter_filter conj_disj_distribL)
     (metis (mono_tags, lifting) filter_cong)+

lemma proxy_handler_counts:
  assumes "proxy_state_server pf config = Inr ps" and "proxy_handler pf wl pdp mo ps req w = (a, w')"
    and "method_from_bytes wl (rq_method req) \<noteq> None"
  shows "authorized_count w' + length (pw_sent w) = authorized_count w + length (pw_sent w')"
    and "completed_count w' = completed_count w + (if a = None then 0 else 1)"
proof -
  from proxy_handler_trail [OF assms] obtain evs obs where
    t: "handler_entries w' = handler_entries w @ evs @ (if a = None then [] else [last (as_log w')])"
    "pw_sent w' = pw_sent w @ obs" "length evs = length obs" "list_all is_authorized evs"
    "a \<noteq> None \<longrightarrow> is_completed (last (as_log w'))" by blast
  have "\<not> is_authorized e" if "is_completed e" for e using that by (cases e) simp_all
  with t count_authorized [OF t(4)] show
    "authorized_count w' + length (pw_sent w) = authorized_count w + length (pw_sent w')"
    "completed_count w' = completed_count w + (if a = None then 0 else 1)"
    by (auto simp: counts_entries)
qed

section \<open>Traffic and the rate limiter\<close>

text \<open>The requests that were sent upstream, with the time of the check, the identity and the route.\<close>

fun traffic ::
  "('u, 'h, 'k) platform \<Rightarrow> ('b, 'r, 'h) wire_lib \<Rightarrow> pdp_lib \<Rightarrow> ('u, 'k) proxy_state
   \<Rightarrow> ('u, 'r, 'h, 'b) arrivals \<Rightarrow> 'u proxy_world \<Rightarrow> rate_event list" where
  "traffic pf wl pdp ps [] w = []"
| "traffic pf wl pdp ps ((mo, req) # rs) w =
     (let w' = snd (proxy_handler pf wl pdp mo ps req w)
      in (case fst (server_admission pf pdp mo ps req w) of
            Inr (identity, rm, purpose) \<Rightarrow>
              if pw_sent w' = pw_sent w then []
              else [(mo_instant mo, pi_value identity, rt_id (rm_route rm))]
          | Inl _ \<Rightarrow> [])
         @ traffic pf wl pdp ps rs w')"

abbreviation request_limit :: "'u connector_config \<Rightarrow> u32" where
  "request_limit config \<equiv> lm_max_requests_per_identity_per_minute (cc_limits config)"

text \<open>Admission makes no check, or one check for an allowed identity and a configured route.\<close>

definition check_made ::
  "'u connector_config \<Rightarrow> ('u, 'r) moment \<Rightarrow> failure + (peer_identity \<times> route_match \<times> string option)
   \<Rightarrow> rate_limiter \<Rightarrow> rate_limiter \<Rightarrow> bool" where
  "check_made config mo result rl rl' =
     (\<exists>identity rm. identity_allowed config identity \<and> rm_route rm \<in> set (cc_routes config)
      \<and> (\<forall>i m p. result = Inr (i, m, p) \<longrightarrow> i = identity \<and> m = rm)
      \<and> snd (rate_check (mo_instant mo) (pi_value identity) (rt_id (rm_route rm)) (request_limit config) rl) = rl'
      \<and> ((\<exists>x. result = Inr x) \<longrightarrow>
           fst (rate_check (mo_instant mo) (pi_value identity) (rt_id (rm_route rm)) (request_limit config) rl) = Inr ()))"

lemma admission_check:
  assumes "server_admission pf pdp mo ps req w = (r, w')" and "ps_config ps = config"
  shows "(\<exists>e. r = Inl e) \<and> pw_rate w' = pw_rate w \<or> check_made config mo r (pw_rate w) (pw_rate w')"
proof (cases r)
  case (Inl e)
  with assms show ?thesis
    unfolding server_admission_def Let_def check_made_def
    by (auto simp: result_simps dest!: find_server_route_sound)
      (metis authorize_world(1) snd_conv)+
next
  case (Inr a)
  obtain i rm p where a: "a = (i, rm, p)" by (cases a)
  from assms [unfolded Inr a server_admission_Inr_iff] Inr a show ?thesis
    unfolding check_made_def
    by (auto simp: authorize_world(1) dest!: find_server_route_sound intro!: exI [of _ i] exI [of _ rm])
qed

lemma proxy_handler_rate:
  assumes "proxy_state_server pf config = Inr ps" and "server_admission pf pdp mo ps req w = (r, w1)"
  shows "pw_rate (snd (proxy_handler pf wl pdp mo ps req w)) = pw_rate w1"
proof -
  obtain r' w2 where h: "run_handler pf wl pdp mo ps req w = (r', w2)" by fastforce
  have "pw_rate w2 = pw_rate w1"
    using h assms(2) unfolding run_handler_server [OF assms(1)] handle_server_def
    by (cases r) (auto simp: step_bind_def dest: keepsD [OF keeps_rate_forward])
  then show ?thesis using proxy_handler_frame(2) [OF prod.collapse [symmetric] h] by simp
qed

text \<open>Traffic is a part of what a sequence of checks admits.\<close>

definition covers ::
  "'u connector_config \<Rightarrow> rate_event list \<Rightarrow> rate_limiter \<Rightarrow> ('u, 'r, 'h, 'b) arrivals \<Rightarrow> rate_event list \<Rightarrow> bool" where
  "covers config events rl rs sent \<longleftrightarrow>
     subseq (map fst events) (map (mo_instant \<circ> fst) rs)
     \<and> subseq sent (map fst (filter (\<lambda>er. snd er = Inr ()) (zip events (fst (run_checks (request_limit config) events rl)))))
     \<and> (\<forall>e \<in> set events. \<exists>identity. identity_allowed config identity
          \<and> fst (snd e) = pi_value identity \<and> snd (snd e) \<in> rt_id ` set (cc_routes config))"

lemma traffic_covered:
  assumes "proxy_state_server pf config = Inr ps"
  shows "\<exists>events. covers config events (pw_rate w) rs (traffic pf wl pdp ps rs w)
    \<and> pw_rate (snd (serve pf wl pdp ps rs w)) = snd (run_checks (request_limit config) events (pw_rate w))"
proof (induction rs arbitrary: w)
  case Nil
  show ?case by (rule exI [of _ "[]"]) (simp add: covers_def)
next
  case (Cons x rs)
  obtain mo req where x: "x = (mo, req)" by (cases x)
  obtain r w1 where a: "server_admission pf pdp mo ps req w = (r, w1)" by fastforce
  let ?w' = "snd (proxy_handler pf wl pdp mo ps req w)"
  note rate = proxy_handler_rate [OF assms a]
  from Cons.IH [of ?w'] obtain events where e: "covers config events (pw_rate w1) rs (traffic pf wl pdp ps rs ?w')"
    "pw_rate (snd (serve pf wl pdp ps rs ?w')) = snd (run_checks (request_limit config) events (pw_rate w1))"
    unfolding rate by blast
  from admission_check [OF a proxy_state_server_Inr(2) [OF assms]] show ?case
  proof
    assume "(\<exists>e. r = Inl e) \<and> pw_rate w1 = pw_rate w"
    with e a show ?thesis by (intro exI [of _ events]) (auto simp: x serve_Cons Let_def covers_def)
  next
    assume "check_made config mo r (pw_rate w) (pw_rate w1)"
    then obtain identity rm where c: "identity_allowed config identity" "rm_route rm \<in> set (cc_routes config)"
      "\<And>i m p. r = Inr (i, m, p) \<Longrightarrow> i = identity \<and> m = rm"
      "snd (rate_check (mo_instant mo) (pi_value identity) (rt_id (rm_route rm)) (request_limit config) (pw_rate w)) = pw_rate w1"
      "(\<exists>x. r = Inr x) \<Longrightarrow>
         fst (rate_check (mo_instant mo) (pi_value identity) (rt_id (rm_route rm)) (request_limit config) (pw_rate w)) = Inr ()"
      unfolding check_made_def by blast
    let ?e = "(mo_instant mo, pi_value identity, rt_id (rm_route rm))"
    have run: "run_checks (request_limit config) (?e # events) (pw_rate w) =
        (fst (rate_check (mo_instant mo) (pi_value identity) (rt_id (rm_route rm)) (request_limit config) (pw_rate w))
           # fst (run_checks (request_limit config) events (pw_rate w1)),
         snd (run_checks (request_limit config) events (pw_rate w1)))"
      using c(4) by (simp add: split_beta)
    have "covers config (?e # events) (pw_rate w) (x # rs) (traffic pf wl pdp ps (x # rs) w)"
      using e(1) a c unfolding covers_def run by (cases r) (auto simp: x Let_def)
    with e(2) run show ?thesis by (intro exI [of _ "?e # events"]) (simp add: x serve_Cons Let_def)
  qed
qed

lemma run_checks_dom:
  "\<not> rl_poisoned rl \<Longrightarrow>
     dom (rl_windows (snd (run_checks limit events rl))) = dom (rl_windows rl) \<union> event_key ` set events"
  by (induction events arbitrary: rl) (auto simp: run_checks_Cons Let_def)

lemma subseq_length_filter: "subseq xs ys \<Longrightarrow> length (filter P xs) \<le> length (filter P ys)"
  by (metis list_emb_length subseq_filter)

lemma length_filter_mono: "(\<And>x. P x \<Longrightarrow> Q x) \<Longrightarrow> length (filter P xs) \<le> length (filter Q xs)"
  by (induction xs) (auto simp: le_Suc_eq)

lemma sorted_subseq: "subseq xs ys \<Longrightarrow> sorted ys \<Longrightarrow> sorted xs"
  by (metis sorted_nths subseq_conv_nths)

lemma card_image_set_le: "card (f ` set xs) \<le> length xs"
  by (metis card_length length_map set_map)

lemma send_upstream_Inr:
  assumes "wire_laws wl" and "send_upstream hl wl deadline mo meth url headers body n w = (Inr r, w')"
  shows "length (rp_body r) \<le> unat n \<and> 100 \<le> rp_status r \<and> rp_status r < 1000"
proof -
  from assms(2) have f: "fst (send_upstream hl wl deadline mo meth url headers body n w) = Inr r" by simp
  show ?thesis
  proof (cases "method_from_bytes wl meth")
    case (Some m)
    from f assms(1) show ?thesis
      by (auto simp: send_upstream_sent [OF Some] Let_def wire_laws_def split: if_split_asm option.split_asm)
  qed (use f in \<open>simp add: send_upstream_unknown_method\<close>)
qed

lemma run_handler_Inr:
  assumes "wire_laws wl" and "run_handler pf wl pdp mo ps req w = (Inr r, w')"
  shows "length (rp_body r) \<le> unat (max_body_bytes (ps_config ps)) \<and> 100 \<le> rp_status r \<and> rp_status r < 1000"
  using assms(2) send_upstream_Inr [OF assms(1)]
  by (cases "ps_mode ps")
    (force simp: run_handler_def handle_client_def handle_server_def server_forward_def Let_def step_bind_Inr_iff
      split: prod.splits)+

lemma problem_status_range: "400 \<le> problem_status p \<and> problem_status p < 600"
  by (cases p) simp_all

section \<open>Properties\<close>

text \<open>
  C3. The shared state is transparent: a gateway that keeps nothing but the rate limiter is an exact
  specification of the running one. For every sequence of requests and whatever policy hashes are
  cached and whatever was logged or sent before, the answers, the requests sent, the log entries and
  the limiter are those of the specification.
\<close>

theorem serve_refines_spec:
  assumes "cells_valid (pf_pki pf) w"
    and "spec_run pf wl pdp ps rs (pw_rate w) = (outs, rl)"
    and "serve pf wl pdp ps rs w = (answers, w')"
  shows "answers = map fst outs
    \<and> pw_sent w' = pw_sent w @ concat (map (fst \<circ> snd) outs)
    \<and> as_log w' = as_log w @ concat (map (snd \<circ> snd) outs)
    \<and> pw_rate w' = rl"
  using assms
proof (induction rs arbitrary: w outs answers)
  case (Cons x rs)
  obtain mo req where x: "x = (mo, req)" by (cases x)
  obtain a obs evs rl1 where g: "gateway_spec pf wl pdp ps mo req (pw_rate w) = ((a, obs, evs), rl1)"
    by (metis surj_pair)
  note one = handler_refines [OF Cons.prems(1) g]
  let ?w1 = "snd (proxy_handler pf wl pdp mo ps req w)"
  obtain outs' where o: "spec_run pf wl pdp ps rs rl1 = (outs', rl)" "outs = (a, obs, evs) # outs'"
    using Cons.prems(2) g by (auto simp: x split_beta Let_def) (metis prod.collapse)
  obtain as where s: "serve pf wl pdp ps rs ?w1 = (as, w')" "answers = a # as"
    using Cons.prems(3) one(1) by (auto simp: x serve_Cons Let_def) (metis prod.collapse)
  from Cons.IH [OF one(5) _ s(1)] o(1) one s(2) o(2) show ?case by simp
qed auto

theorem serve_refines_spec_witness:
  "cells_valid (pf_pki example_platform) example_world
   \<and> fst (serve example_platform example_wire example_pdp example_state [(example_moment, example_request)] example_world)
      = map fst (fst (spec_run example_platform example_wire example_pdp example_state
          [(example_moment, example_request)] (pw_rate example_world)))"
proof -
  have v: "cells_valid (pf_pki example_platform) example_world"
    by (simp add: cells_valid_def example_world_def cell_valid_def)
  from serve_refines_spec [OF v prod.collapse [symmetric] prod.collapse [symmetric]] v show ?thesis by blast
qed

text \<open>
  C5. The audit trail is complete, for every sequence of requests a server connector handles: the
  log records an authorisation for each request sent upstream and for no other, and exactly one
  completed request for each answer given.
\<close>

theorem audit_trail_complete:
  assumes "proxy_state_server pf config = Inr ps"
    and "\<forall>x \<in> set rs. method_from_bytes wl (rq_method (snd x)) \<noteq> None"
    and "serve pf wl pdp ps rs w = (answers, w')"
  shows "authorized_count w' + length (pw_sent w) = authorized_count w + length (pw_sent w')
    \<and> completed_count w' = completed_count w + length (filter (\<lambda>a. a \<noteq> None) answers)"
  using assms(2,3)
proof (induction rs arbitrary: w answers)
  case (Cons x rs)
  obtain mo req where x: "x = (mo, req)" by (cases x)
  obtain a w1 where h: "proxy_handler pf wl pdp mo ps req w = (a, w1)" by fastforce
  obtain as where s: "serve pf wl pdp ps rs w1 = (as, w')" "answers = a # as"
    using Cons.prems(2) h by (auto simp: x serve_Cons Let_def) (metis prod.collapse)
  have "method_from_bytes wl (rq_method req) \<noteq> None" using Cons.prems(1) x by simp
  note one = proxy_handler_counts [OF assms(1) h this]
  from Cons.IH [OF _ s(1)] Cons.prems(1) one s(2) show ?case by simp
qed simp

theorem audit_trail_complete_witness:
  "\<exists>answers w'. serve example_platform example_wire example_pdp example_state
      [(example_moment, example_request), (example_moment, example_request\<lparr>rq_peer_chain := None\<rparr>)] example_world = (answers, w')
    \<and> authorized_count w' + length (pw_sent example_world) = authorized_count example_world + length (pw_sent w')
    \<and> completed_count w' = completed_count example_world + length (filter (\<lambda>a. a \<noteq> None) answers)"
proof -
  let ?rs = "[(example_moment, example_request), (example_moment, example_request\<lparr>rq_peer_chain := None\<rparr>)]"
  obtain answers w' where s: "serve example_platform example_wire example_pdp example_state ?rs example_world = (answers, w')"
    by fastforce
  have "\<forall>x \<in> set ?rs. method_from_bytes example_wire (rq_method (snd x)) \<noteq> None" by (simp add: example_wire_method)
  from audit_trail_complete [OF example_state_built this s] s show ?thesis by blast
qed



text \<open>
  C12. The limiter's table does not grow with the traffic: whatever requests arrive, from whomever, it
  never has more entries than there are pairs of an allowed identity and a configured route.
\<close>

theorem rate_table_bounded:
  assumes "proxy_state_server pf config = Inr ps" and "cc_client_trust config = Some trust"
    and "pw_rate w = rate_limiter_default"
  shows "finite (dom (rl_windows (pw_rate (snd (serve pf wl pdp ps rs w)))))
    \<and> card (dom (rl_windows (pw_rate (snd (serve pf wl pdp ps rs w)))))
      \<le> length (ct_allowed_identities trust) * length (cc_routes config)"
proof -
  let ?keys = "(\<lambda>(i, r). rate_key i r) ` (trim ` set (ct_allowed_identities trust) \<times> rt_id ` set (cc_routes config))"
  from traffic_covered [OF assms(1), of w rs wl pdp] obtain events where
    c: "covers config events rate_limiter_default rs (traffic pf wl pdp ps rs w)"
    and r: "pw_rate (snd (serve pf wl pdp ps rs w)) = snd (run_checks (request_limit config) events rate_limiter_default)"
    unfolding assms(3) by blast
  have "dom (rl_windows (pw_rate (snd (serve pf wl pdp ps rs w)))) = event_key ` set events"
    unfolding r by (simp add: run_checks_dom rate_limiter_default_def)
  also have "\<dots> \<subseteq> ?keys"
    using c assms(2) by (fastforce simp: covers_def event_key_def identity_allowed_iff image_iff)
  finally have sub: "dom (rl_windows (pw_rate (snd (serve pf wl pdp ps rs w)))) \<subseteq> ?keys" .
  have "card ?keys \<le> card (trim ` set (ct_allowed_identities trust) \<times> rt_id ` set (cc_routes config))"
    by (rule card_image_le) simp
  also have "\<dots> \<le> length (ct_allowed_identities trust) * length (cc_routes config)"
    by (simp add: card_cartesian_product mult_le_mono card_image_set_le)
  finally show ?thesis using sub card_mono [OF _ sub] finite_subset [OF sub] by (auto intro: order_trans)
qed

theorem rate_table_bounded_witness:
  "finite (dom (rl_windows (pw_rate (snd (serve example_platform example_wire example_pdp example_state
      [(example_moment, example_request), (example_moment, example_request)] example_world)))))
    \<and> card (dom (rl_windows (pw_rate (snd (serve example_platform example_wire example_pdp example_state
      [(example_moment, example_request), (example_moment, example_request)] example_world)))))
      \<le> length (ct_allowed_identities example_trust) * length (cc_routes example_server)"
  by (rule rate_table_bounded [OF example_state_built example_server_trust]) (simp add: example_world_def)

text \<open>
  C13. What the connector answers is bounded and logged as it is, in both modes: a forwarded response
  has a body within the configured limit and a status the upstream sent, every other answer is the
  document of a problem with a status from 400 to 599, and the last log entry has the answer's
  status, and the problem's code if there is one.
\<close>

theorem answers_bounded:
  assumes "wire_laws wl" and "proxy_handler pf wl pdp mo ps req w = (Some rsp, w')"
  shows "\<exists>ev. last (as_log w') = RequestCompleted ev \<and> ev_status ev = response_status rsp
    \<and> 100 \<le> response_status rsp \<and> response_status rsp < 1000
    \<and> ((\<exists>r. rsp = Forwarded r \<and> length (rp_body r) \<le> unat (max_body_bytes (ps_config ps))
          \<and> ev_outcome ev = ''forwarded'' \<and> ev_problem_code ev = [])
      \<or> (\<exists>p. rsp = ProblemResponse (problem_response p) \<and> 400 \<le> response_status rsp \<and> response_status rsp < 600
          \<and> ev_outcome ev = audit_outcome p \<and> ev_problem_code ev = problem_code p))"
proof -
  obtain r w1 where h: "run_handler pf wl pdp mo ps req w = (r, w1)" by fastforce
  from assms(2) have a: "answer r = Some rsp" by (simp add: proxy_handler_eq [OF h])
  show ?thesis
  proof (cases r rule: answer.cases)
    case (1 resp)
    with a assms(2) run_handler_Inr [OF assms(1) h [unfolded 1]] show ?thesis
      by (auto simp: proxy_handler_eq [OF h] completed_def)
  next
    case (2 p)
    with a assms(2) problem_status_range [of p] show ?thesis
      by (auto simp: proxy_handler_eq [OF h] completed_def problem_response_def intro!: exI [of _ p])
  next
    case 3
    with a show ?thesis by simp
  qed
qed

theorem answers_bounded_witness:
  "\<exists>rsp w'. proxy_handler example_platform example_wire example_pdp example_moment example_state example_request
      example_world = (Some rsp, w')
    \<and> (\<exists>ev. last (as_log w') = RequestCompleted ev \<and> ev_status ev = response_status rsp
    \<and> 100 \<le> response_status rsp \<and> response_status rsp < 1000
    \<and> ((\<exists>r. rsp = Forwarded r \<and> length (rp_body r) \<le> unat (max_body_bytes (ps_config example_state))
          \<and> ev_outcome ev = ''forwarded'' \<and> ev_problem_code ev = [])
      \<or> (\<exists>p. rsp = ProblemResponse (problem_response p) \<and> 400 \<le> response_status rsp \<and> response_status rsp < 600
          \<and> ev_outcome ev = audit_outcome p \<and> ev_problem_code ev = problem_code p)))"
proof -
  from example_answered obtain rsp w' where h: "proxy_handler example_platform example_wire example_pdp example_moment
      example_state example_request example_world = (Some rsp, w')" by blast
  from answers_bounded [OF example_wire_laws h] h show ?thesis by (intro exI [of _ rsp] exI [of _ w'] conjI)
qed

end
