(* ===== verification/Connector_Server.thy ===== *)
theory Connector_Server
  imports Connector_Cli Connector_Traffic
begin

text \<open>
  The running server connector (the accept loop of \<open>run_server\<close> in \<open>src/main.rs\<close>): a loop that
  takes a connection permit before it accepts, a task per connection that makes the TLS handshake
  and serves requests, and the requests, interleaved in any order. A request is a task of three steps,
  as the handler can only be suspended at its await points: the admission, which runs without
  suspension; what follows the reading of the body, up to handing the request to the HTTP client;
  and the end, with the log entry. A connection can end at any time, and its unfinished requests with it.
\<close>

section \<open>State\<close>

datatype loop_phase = Acquiring | Accepting | BackingOff

datatype connection_phase = Handshaking | ServingRequests "peer_certificate_chain option"

datatype request_phase =
  Admitted peer_identity route_match "string option"
| Finishing "failure + http_response"

record ('u, 'r, 'h, 'b) request_task =
  tk_connection :: nat
  tk_moment :: "('u, 'r) moment"
  tk_request :: "('h, 'b) http_request"
  tk_phase :: request_phase

record ('u, 'r, 'h, 'b) server_state =
  sv_permits :: nat
  sv_loop :: loop_phase
  sv_next :: nat
  sv_connections :: "(nat \<times> connection_phase) list"
  sv_tasks :: "('u, 'r, 'h, 'b) request_task list"
  sv_world :: "'u proxy_world"

definition server_init :: "('u, 'k) server_service \<Rightarrow> ('u, 'r, 'h, 'b) server_state" where
  "server_init svc =
     \<lparr>sv_permits = unat (ss_connection_permits svc), sv_loop = Acquiring, sv_next = 0,
      sv_connections = [], sv_tasks = [], sv_world = blank_world rate_limiter_default\<rparr>"

definition drop_connection :: "nat \<Rightarrow> ('u, 'r, 'h, 'b) server_state \<Rightarrow> ('u, 'r, 'h, 'b) server_state" where
  "drop_connection i s =
     s\<lparr>sv_connections := filter (\<lambda>c. fst c \<noteq> i) (sv_connections s),
       sv_tasks := filter (\<lambda>t. tk_connection t \<noteq> i) (sv_tasks s),
       sv_permits := Suc (sv_permits s)\<rparr>"

definition with_peer_chain ::
  "peer_certificate_chain option \<Rightarrow> ('h, 'b) http_request \<Rightarrow> ('h, 'b) http_request" where
  "with_peer_chain chain req = req\<lparr>rq_peer_chain := chain\<rparr>"

fun admission_phase :: "failure + (peer_identity \<times> route_match \<times> string option) \<Rightarrow> request_phase" where
  "admission_phase (Inr (identity, rm, purpose)) = Admitted identity rm purpose"
| "admission_phase (Inl e) = Finishing (Inl e)"

abbreviation handler_state :: "('u, 'k) server_service \<Rightarrow> ('u, 'k) proxy_state" where
  "handler_state svc \<equiv> ro_state (ss_app svc)"

definition task_id :: "('u, 'h, 'k) platform \<Rightarrow> ('u, 'r, 'h, 'b) request_task \<Rightarrow> string" where
  "task_id pf t = request_id (pf_headers pf) (mo_ulid (tk_moment t)) (rq_headers (tk_request t))"

section \<open>Steps\<close>

inductive server_step ::
  "('u, 'h, 'k) platform \<Rightarrow> ('b, 'r, 'h) wire_lib \<Rightarrow> pdp_lib \<Rightarrow> ('u, 'k) server_service
   \<Rightarrow> ('u, 'r, 'h, 'b) server_state \<Rightarrow> ('u, 'r, 'h, 'b) server_state \<Rightarrow> bool"
  for pf wl pdp svc where
  acquire: "sv_loop s = Acquiring \<Longrightarrow> sv_permits s = Suc n \<Longrightarrow>
    server_step pf wl pdp svc s (s\<lparr>sv_permits := n, sv_loop := Accepting\<rparr>)"
| accept_error: "sv_loop s = Accepting \<Longrightarrow>
    server_step pf wl pdp svc s (s\<lparr>sv_permits := Suc (sv_permits s), sv_loop := BackingOff\<rparr>)"
| backoff_over: "sv_loop s = BackingOff \<Longrightarrow>
    server_step pf wl pdp svc s (s\<lparr>sv_loop := Acquiring\<rparr>)"
| accept: "sv_loop s = Accepting \<Longrightarrow>
    server_step pf wl pdp svc s
      (s\<lparr>sv_loop := Acquiring, sv_next := Suc (sv_next s),
         sv_connections := sv_connections s @ [(sv_next s, Handshaking)]\<rparr>)"
| handshake_failed: "(i, Handshaking) \<in> set (sv_connections s) \<Longrightarrow>
    server_step pf wl pdp svc s (drop_connection i s)"
| handshake_done: "sv_connections s = cs @ (i, Handshaking) # cs' \<Longrightarrow>
    server_step pf wl pdp svc s (s\<lparr>sv_connections := cs @ (i, ServingRequests chain) # cs'\<rparr>)"
| request_arrives: "(i, ServingRequests chain) \<in> set (sv_connections s) \<Longrightarrow>
    length (sv_tasks s) < unat (ro_max_concurrent_requests (ss_app svc)) \<Longrightarrow>
    server_admission pf pdp mo (handler_state svc) (with_peer_chain chain req) (sv_world s) = (r, w) \<Longrightarrow>
    server_step pf wl pdp svc s
      (s\<lparr>sv_world := w,
         sv_tasks := sv_tasks s @ [\<lparr>tk_connection = i, tk_moment = mo, tk_request = with_peer_chain chain req,
           tk_phase = admission_phase r\<rparr>]\<rparr>)"
| request_forwarded: "sv_tasks s = ts @ t # ts' \<Longrightarrow> tk_phase t = Admitted identity rm purpose \<Longrightarrow>
    server_forward pf wl (request_timeout (ps_config (handler_state svc))) (tk_moment t) (handler_state svc)
      (tk_request t) (task_id pf t) identity rm purpose (sv_world s) = (r, w) \<Longrightarrow>
    server_step pf wl pdp svc s
      (s\<lparr>sv_world := w, sv_tasks := ts @ t\<lparr>tk_phase := Finishing r\<rparr> # ts'\<rparr>)"
| request_finished: "sv_tasks s = ts @ t # ts' \<Longrightarrow> tk_phase t = Finishing r \<Longrightarrow> answer r = Some rsp \<Longrightarrow>
    server_step pf wl pdp svc s
      (s\<lparr>sv_tasks := ts @ ts',
         sv_world := (sv_world s)\<lparr>as_log := as_log (sv_world s) @ [RequestCompleted (completed (handler_state svc)
           (tk_request t) (task_id pf t) (problem_of r) rsp)]\<rparr>\<rparr>)"
| connection_ends: "(i, ServingRequests chain) \<in> set (sv_connections s) \<Longrightarrow>
    server_step pf wl pdp svc s (drop_connection i s)"

inductive server_reachable ::
  "('u, 'h, 'k) platform \<Rightarrow> ('b, 'r, 'h) wire_lib \<Rightarrow> pdp_lib \<Rightarrow> ('u, 'k) server_service
   \<Rightarrow> ('u, 'r, 'h, 'b) server_state \<Rightarrow> bool"
  for pf wl pdp svc where
  start: "server_reachable pf wl pdp svc (server_init svc)"
| step: "server_reachable pf wl pdp svc s \<Longrightarrow> server_step pf wl pdp svc s s' \<Longrightarrow> server_reachable pf wl pdp svc s'"

section \<open>Inductive invariants\<close>

text \<open>The contract of an invariant: it holds at the start and every step keeps it.\<close>

locale server_invariant =
  fixes pf :: "('u, 'h, 'k) platform" and wl :: "('b, 'r, 'h) wire_lib" and pdp :: pdp_lib
    and svc :: "('u, 'k) server_service"
    and inv :: "('u, 'r, 'h, 'b) server_state \<Rightarrow> bool"
  assumes inv_init: "inv (server_init svc)"
    and inv_step: "server_step pf wl pdp svc s s' \<Longrightarrow> inv s \<Longrightarrow> inv s'"
begin

lemma reachable_inv: "server_reachable pf wl pdp svc s \<Longrightarrow> inv s"
  by (induction rule: server_reachable.induct) (auto intro: inv_init inv_step)

end

text \<open>Permits, connections and tasks.\<close>

definition resource_inv :: "('u, 'k) server_service \<Rightarrow> ('u, 'r, 'h, 'b) server_state \<Rightarrow> bool" where
  "resource_inv svc s \<longleftrightarrow>
     sv_permits s + length (sv_connections s) + (if sv_loop s = Accepting then 1 else 0) = unat (ss_connection_permits svc)
     \<and> distinct (map fst (sv_connections s)) \<and> (\<forall>c \<in> set (sv_connections s). fst c < sv_next s)
     \<and> length (sv_tasks s) \<le> unat (ro_max_concurrent_requests (ss_app svc))
     \<and> (\<forall>t \<in> set (sv_tasks s).
          (tk_connection t, ServingRequests (rq_peer_chain (tk_request t))) \<in> set (sv_connections s))"

lemma length_filter_other:
  "distinct (map fst xs) \<Longrightarrow> (i, v) \<in> set xs \<Longrightarrow> Suc (length (filter (\<lambda>c. fst c \<noteq> i) xs)) = length xs"
proof (induction xs)
  case (Cons x xs)
  show ?case
  proof (cases "fst x = i")
    case True
    with Cons.prems(1) have "filter (\<lambda>c. fst c \<noteq> i) xs = xs" by (auto simp: filter_id_conv image_iff)
    with True show ?thesis by simp
  qed (use Cons in auto)
qed simp

lemma resource_inv_drop:
  assumes "resource_inv svc s" and "(i, p) \<in> set (sv_connections s)"
  shows "resource_inv svc (drop_connection i s)"
  using assms length_filter_other [of "sv_connections s" i p]
  by (auto simp: resource_inv_def drop_connection_def distinct_map_filter
      intro: order_trans [OF length_filter_le])

interpretation resources: server_invariant pf wl pdp svc "resource_inv svc"
  for pf :: "('u, 'h, 'k) platform" and wl :: "('b, 'r, 'h) wire_lib" and pdp and svc :: "('u, 'k) server_service"
proof
  show "resource_inv svc (server_init svc)" by (simp add: resource_inv_def server_init_def)
next
  fix s s' :: "('u, 'r, 'h, 'b) server_state"
  assume "server_step pf wl pdp svc s s'" and "resource_inv svc s"
  then show "resource_inv svc s'"
  proof cases
    case (handshake_failed i)
    with \<open>resource_inv svc s\<close> show ?thesis by (simp add: resource_inv_drop)
  next
    case (connection_ends i chain)
    with \<open>resource_inv svc s\<close> show ?thesis by (simp add: resource_inv_drop)
  next
    case (handshake_done cs i cs' chain)
    with \<open>resource_inv svc s\<close> show ?thesis by (auto simp: resource_inv_def)
  qed (auto simp: resource_inv_def with_peer_chain_def)
qed


text \<open>
  What an admitted request has shown, whenever it is looked at; and a request sent upstream is one
  that was prepared from an admitted request.
\<close>

definition admissible ::
  "('u, 'h, 'k) platform \<Rightarrow> pdp_lib \<Rightarrow> ('u, 'k) proxy_state \<Rightarrow> ('u, 'r) moment \<Rightarrow> ('h, 'b) http_request
   \<Rightarrow> peer_identity \<Rightarrow> route_match \<Rightarrow> string option \<Rightarrow> bool" where
  "admissible pf pdp ps mo req identity rm purpose \<longleftrightarrow>
     (\<exists>chain trust (w :: 'u proxy_world). rq_peer_chain req = Some chain \<and> ps_server_trust ps = Some trust
      \<and> verify_peer (pf_pki pf) (mo_system_now mo) trust chain = Inr identity
      \<and> identity_allowed (ps_config ps) identity
      \<and> find_server_route (pf_decode pf) (cc_routes (ps_config ps)) (rq_method req) (rq_path req) (pi_value identity)
          = Inr rm
      \<and> cells_valid (pf_pki pf) w
      \<and> fst (authorize_server_purpose (pf_headers pf) (pf_pki pf) pdp (mo_system_now mo) rm (rq_headers req) identity
          (cc_client_trust (ps_config ps)) w) = Inr purpose)"

definition justified ::
  "('u, 'h, 'k) platform \<Rightarrow> ('b, 'r, 'h) wire_lib \<Rightarrow> pdp_lib \<Rightarrow> ('u, 'k) proxy_state \<Rightarrow> 'u outbound_request \<Rightarrow> bool" where
  "justified pf wl pdp ps ob \<longleftrightarrow>
     (\<exists>(mo :: ('u, 'r) moment) req identity rm purpose deadline rid body url headers event m.
        admissible pf pdp ps mo req identity rm purpose
      \<and> prepared pf wl deadline mo ps req rid identity rm purpose body url headers event
      \<and> method_from_bytes wl (rq_method req) = Some m
      \<and> ob = outbound_of (pf_headers pf) m url headers body)"

definition traffic_inv ::
  "('u, 'h, 'k) platform \<Rightarrow> ('b, 'r, 'h) wire_lib \<Rightarrow> pdp_lib \<Rightarrow> ('u, 'k) server_service
   \<Rightarrow> ('u, 'r, 'h, 'b) server_state \<Rightarrow> bool" where
  "traffic_inv pf wl pdp svc s \<longleftrightarrow>
     cells_valid (pf_pki pf) (sv_world s)
     \<and> window_inv (request_limit (ps_config (handler_state svc))) (pw_rate (sv_world s))
     \<and> length (pw_sent (sv_world s)) \<le> authorized_count (sv_world s)
     \<and> (\<forall>t \<in> set (sv_tasks s). \<forall>identity rm purpose. tk_phase t = Admitted identity rm purpose \<longrightarrow>
          admissible pf pdp (handler_state svc) (tk_moment t) (tk_request t) identity rm purpose)
     \<and> (\<forall>ob \<in> set (pw_sent (sv_world s)). justified pf wl pdp (handler_state svc) ob)"

lemma admission_admissible:
  assumes "server_admission pf pdp mo ps req w = (Inr (identity, rm, purpose), w')" and "cells_valid (pf_pki pf) w"
  shows "admissible pf pdp ps mo req identity rm purpose"
  using assms unfolding server_admission_Inr_iff admissible_def by (metis fst_conv)

lemma admission_window_inv:
  assumes "server_admission pf pdp mo ps req w = (r, w')"
    and "window_inv (request_limit (ps_config ps)) (pw_rate w)"
  shows "window_inv (request_limit (ps_config ps)) (pw_rate w')"
  using admission_check [OF assms(1) refl] assms(2) rate_check_inv unfolding check_made_def by metis

lemma admission_authorized_count:
  "server_admission pf pdp mo ps req w = (r, w') \<Longrightarrow> authorized_count w' = authorized_count w"
  using keepsD [OF keeps_entries_admission] by (metis counts_entries(1))

lemma forward_world:
  assumes "server_forward pf wl deadline mo ps req rid identity rm purpose w = (r, w')"
  obtains (stopped) "w' = w"
  | (logged) body url headers event where
      "prepared pf wl deadline mo ps req rid identity rm purpose body url headers event"
      "w' = w\<lparr>as_log := as_log w @ [event]\<rparr>"
  | (sent) body url headers event m where
      "prepared pf wl deadline mo ps req rid identity rm purpose body url headers event"
      "method_from_bytes wl (rq_method req) = Some m"
      "w' = w\<lparr>as_log := as_log w @ [event], pw_sent := pw_sent w @ [outbound_of (pf_headers pf) m url headers body]\<rparr>"
proof (cases "\<exists>body url headers event. prepared pf wl deadline mo ps req rid identity rm purpose body url headers event")
  case True
  then obtain body url headers event where
    p: "prepared pf wl deadline mo ps req rid identity rm purpose body url headers event" by blast
  from arg_cong [OF assms, of snd] p that show ?thesis
    by (cases "method_from_bytes wl (rq_method req)") (auto simp: server_forward_prepared [OF p] send_upstream_world)
qed (use server_forward_stopped [OF assms] that in blast)

lemma prepared_event: "prepared pf wl deadline mo ps req rid identity rm purpose body url headers event \<Longrightarrow> is_authorized event"
  by (auto simp: prepared_def)

lemma traffic_inv_frame:
  assumes "traffic_inv pf wl pdp svc s" and "set (sv_tasks s') \<subseteq> set (sv_tasks s)" and "sv_world s' = sv_world s"
  shows "traffic_inv pf wl pdp svc s'"
  using assms by (auto simp: traffic_inv_def)

lemma traffic_inv_arrives:
  assumes "traffic_inv pf wl pdp svc s"
    and "server_admission pf pdp mo (handler_state svc) req (sv_world s) = (r, w)"
  shows "traffic_inv pf wl pdp svc (s\<lparr>sv_world := w, sv_tasks := sv_tasks s @
    [\<lparr>tk_connection = i, tk_moment = mo, tk_request = req, tk_phase = admission_phase r\<rparr>]\<rparr>)"
proof -
  from assms(1) have c: "cells_valid (pf_pki pf) (sv_world s)" by (simp add: traffic_inv_def)
  have "admissible pf pdp (handler_state svc) mo req identity rm purpose"
    if "admission_phase r = Admitted identity rm purpose" for identity rm purpose
    using that assms(2) admission_admissible [OF _ c] by (cases r rule: admission_phase.cases) auto
  with assms(1) admission_frame [OF assms(2)] admission_window_inv [OF assms(2)] admission_authorized_count [OF assms(2)]
  show ?thesis by (auto simp: traffic_inv_def)
qed

lemma traffic_inv_forwarded:
  assumes "traffic_inv pf wl pdp svc s" and "sv_tasks s = ts @ t # ts'"
    and "tk_phase t = Admitted identity rm purpose"
    and "server_forward pf wl deadline (tk_moment t) (handler_state svc) (tk_request t) rid identity rm purpose (sv_world s)
      = (r, w)"
  shows "traffic_inv pf wl pdp svc (s\<lparr>sv_world := w, sv_tasks := ts @ t\<lparr>tk_phase := Finishing r\<rparr> # ts'\<rparr>)"
proof -
  let ?w = "sv_world s"
  from assms(1-3) have a: "admissible pf pdp (handler_state svc) (tk_moment t) (tk_request t) identity rm purpose"
    by (simp add: traffic_inv_def)
  have "cells_valid (pf_pki pf) w \<and> length (pw_sent w) \<le> authorized_count w
      \<and> (\<forall>ob \<in> set (pw_sent w). justified pf wl pdp (handler_state svc) ob)"
    using assms(4)
  proof (cases rule: forward_world)
    case stopped
    with assms(1) show ?thesis by (simp add: traffic_inv_def)
  next
    case (logged body url headers event)
    with assms(1) prepared_event show ?thesis
      by (auto simp: traffic_inv_def cells_valid_def authorized_count_def)
  next
    case (sent body url headers event m)
    with a have "justified pf wl pdp (handler_state svc) (outbound_of (pf_headers pf) m url headers body)"
      unfolding justified_def by blast
    with sent assms(1) prepared_event [OF sent(1)] show ?thesis
      by (auto simp: traffic_inv_def cells_valid_def authorized_count_def)
  qed
  with assms(1,2) keepsD [OF keeps_rate_forward assms(4)] show ?thesis by (auto simp: traffic_inv_def)
qed

interpretation gated_traffic: server_invariant pf wl pdp svc "traffic_inv pf wl pdp svc"
  for pf :: "('u, 'h, 'k) platform" and wl :: "('b, 'r, 'h) wire_lib" and pdp and svc :: "('u, 'k) server_service"
proof
  show "traffic_inv pf wl pdp svc (server_init svc)"
    using blank_cells_valid
    by (simp add: traffic_inv_def server_init_def) (simp add: blank_world_def window_inv_def rate_limiter_default_def)
next
  fix s s' :: "('u, 'r, 'h, 'b) server_state"
  assume "server_step pf wl pdp svc s s'" and inv: "traffic_inv pf wl pdp svc s"
  then show "traffic_inv pf wl pdp svc s'"
  proof cases
    case (request_arrives i chain mo req r w)
    with inv show ?thesis by (simp add: traffic_inv_arrives)
  next
    case (request_forwarded ts t ts' identity rm purpose r w)
    with inv show ?thesis by (simp add: traffic_inv_forwarded)
  next
    case (request_finished ts t ts' r rsp)
    with inv show ?thesis by (auto simp: traffic_inv_def cells_valid_def authorized_count_def)
  qed (use inv in \<open>auto simp: drop_connection_def intro: traffic_inv_frame\<close>)
qed

section \<open>One request at a time\<close>

text \<open>
  The handler of \<open>src/proxy.rs\<close> is the schedule that runs the steps of one request without
  interruption.
\<close>

lemma schedule_finish:
  assumes "sv_tasks s = ts @ [t]" and "tk_phase t = Finishing r" and "answer r = Some rsp"
  shows "server_step pf wl pdp svc s
      (s\<lparr>sv_tasks := ts, sv_world := (sv_world s)\<lparr>as_log := as_log (sv_world s) @ [RequestCompleted (completed (handler_state svc)
           (tk_request t) (task_id pf t) (problem_of r) rsp)]\<rparr>\<rparr>)"
  using server_step.request_finished [of s ts t "[]" r rsp pf wl pdp svc] assms by simp

lemma handler_schedule:
  assumes "proxy_state_server pf config = Inr (handler_state svc)"
    and "(i, ServingRequests chain) \<in> set (sv_connections s)"
    and "length (sv_tasks s) < unat (ro_max_concurrent_requests (ss_app svc))"
    and "proxy_handler pf wl pdp mo (handler_state svc) (with_peer_chain chain req) (sv_world s) = (Some rsp, w')"
  shows "(server_step pf wl pdp svc)\<^sup>*\<^sup>* s (s\<lparr>sv_world := w'\<rparr>)"
proof -
  let ?req = "with_peer_chain chain req" and ?ps = "handler_state svc"
  let ?rid = "request_id (pf_headers pf) (mo_ulid mo) (rq_headers ?req)"
  obtain r w2 where h: "run_handler pf wl pdp mo ?ps ?req (sv_world s) = (r, w2)" by fastforce
  from assms(4) have a: "answer r = Some rsp" and w': "w' = w2\<lparr>as_log := as_log w2 @ [RequestCompleted (completed ?ps ?req ?rid (problem_of r) rsp)]\<rparr>"
    by (auto simp: proxy_handler_eq [OF h])
  obtain x w1 where adm: "server_admission pf pdp mo ?ps ?req (sv_world s) = (x, w1)" by fastforce
  define t where "t = \<lparr>tk_connection = i, tk_moment = mo, tk_request = ?req, tk_phase = admission_phase x\<rparr>"
  have id: "task_id pf (t\<lparr>tk_phase := p\<rparr>) = ?rid" for p by (simp add: task_id_def t_def)
  from assms(2,3) adm have s1: "server_step pf wl pdp svc s (s\<lparr>sv_world := w1, sv_tasks := sv_tasks s @ [t]\<rparr>)"
    unfolding t_def by (rule server_step.request_arrives)
  have s2: "(server_step pf wl pdp svc)\<^sup>*\<^sup>* (s\<lparr>sv_world := w1, sv_tasks := sv_tasks s @ [t]\<rparr>)
      (s\<lparr>sv_world := w2, sv_tasks := sv_tasks s @ [t\<lparr>tk_phase := Finishing r\<rparr>]\<rparr>)"
  proof (cases x)
    case (Inl e)
    with h adm have "r = Inl e" "w2 = w1"
      unfolding run_handler_server [OF assms(1)] by (auto simp: handle_server_def step_bind_def)
    with Inl show ?thesis by (simp add: t_def)
  next
    case (Inr irp)
    obtain identity rm purpose where irp: "irp = (identity, rm, purpose)" by (cases irp)
    from h adm Inr irp have f: "server_forward pf wl (request_timeout config) mo ?ps ?req ?rid identity rm purpose w1 = (r, w2)"
      unfolding run_handler_server [OF assms(1)] by (simp add: handle_server_def step_bind_def)
    let ?s1 = "s\<lparr>sv_world := w1, sv_tasks := sv_tasks s @ [t]\<rparr>"
    have "server_step pf wl pdp svc ?s1 (?s1\<lparr>sv_world := w2, sv_tasks := sv_tasks s @ t\<lparr>tk_phase := Finishing r\<rparr> # []\<rparr>)"
    proof (rule server_step.request_forwarded)
      show "tk_phase t = Admitted identity rm purpose" by (simp add: t_def Inr irp)
      show "server_forward pf wl (request_timeout (ps_config ?ps)) (tk_moment t) ?ps (tk_request t) (task_id pf t)
          identity rm purpose (sv_world ?s1) = (r, w2)"
        using f proxy_state_server_Inr(2) [OF assms(1)] by (simp add: t_def task_id_def)
    qed simp
    then show ?thesis by simp
  qed
  have "server_step pf wl pdp svc (s\<lparr>sv_world := w2, sv_tasks := sv_tasks s @ [t\<lparr>tk_phase := Finishing r\<rparr>]\<rparr>) (s\<lparr>sv_world := w'\<rparr>)"
    using schedule_finish [of "s\<lparr>sv_world := w2, sv_tasks := sv_tasks s @ [t\<lparr>tk_phase := Finishing r\<rparr>]\<rparr>"
        "sv_tasks s" "t\<lparr>tk_phase := Finishing r\<rparr>" r rsp pf wl pdp svc] a
    by (simp add: id w') (simp add: t_def)
  with s1 s2 show ?thesis by (meson converse_rtranclp_into_rtranclp rtranclp.rtrancl_into_rtrancl)
qed

lemma reachable_steps:
  "(server_step pf wl pdp svc)\<^sup>*\<^sup>* s s' \<Longrightarrow> server_reachable pf wl pdp svc s \<Longrightarrow> server_reachable pf wl pdp svc s'"
  by (induction rule: rtranclp_induct) (auto intro: server_reachable.step)

text \<open>The loop is never stuck: with no permit left there is a connection that can end.\<close>

lemma server_progress:
  assumes "resource_inv svc s" and "0 < unat (ss_connection_permits svc)"
  shows "\<exists>s'. server_step pf wl pdp svc s s'"
proof (cases "sv_loop s")
  case Acquiring
  show ?thesis
  proof (cases "sv_permits s")
    case 0
    with assms Acquiring obtain i p where "(i, p) \<in> set (sv_connections s)"
      by (cases "sv_connections s") (auto simp: resource_inv_def)
    then show ?thesis
      by (cases p) (auto intro: server_step.handshake_failed server_step.connection_ends)
  qed (use Acquiring server_step.acquire in blast)
qed (blast intro: server_step.accept server_step.backoff_over)+

section \<open>A concrete run\<close>

definition example_service :: "(string, string) server_service" where
  "example_service =
     \<lparr>ss_bind = \<lparr>sa_ip = IpV4 0x7F000001, sa_port = 8443\<rparr>,
      ss_tls = \<lparr>sc_certs = [''server''], sc_key = ''key'', sc_client_roots = [''ca-a'', ''ca-z'']\<rparr>,
      ss_app = router_of example_state, ss_connection_permits = 1,
      ss_tls_handshake_timeout = 1, ss_http1_header_read_timeout = 1\<rparr>"

lemma example_service_state: "handler_state example_service = example_state"
  by (simp add: example_service_def router_of_def)

lemma example_reachable:
  "\<exists>s. server_reachable example_platform example_wire example_pdp example_service s \<and> pw_sent (sv_world s) \<noteq> []
     \<and> (\<exists>ev. RequestCompleted ev \<in> set (as_log (sv_world s)))"
proof -
  let ?step = "server_step example_platform example_wire example_pdp example_service"
  let ?s0 = "server_init example_service :: (string, 16 word \<times> header_list \<times> bytes, header_list, bytes) server_state"
  let ?s1 = "?s0\<lparr>sv_permits := 0, sv_loop := Accepting\<rparr>"
  let ?s2 = "?s1\<lparr>sv_loop := Acquiring, sv_next := 1, sv_connections := [(0, Handshaking)]\<rparr>"
  let ?s3 = "?s2\<lparr>sv_connections := [(0, ServingRequests (Some [''b:ca-a'']))]\<rparr>"
  have 1: "?step ?s0 ?s1" by (rule server_step.acquire) (simp_all add: server_init_def example_service_def)
  have 2: "?step ?s1 ?s2" using server_step.accept [of ?s1] by (simp add: server_init_def)
  have 3: "?step ?s2 ?s3" using server_step.handshake_done [of ?s2 "[]" 0 "[]"] by simp
  have w: "sv_world ?s3 = example_world"
    by (simp add: server_init_def blank_world_def example_world_def)
  have r: "with_peer_chain (Some [''b:ca-a'']) example_request = example_request"
    by (simp add: with_peer_chain_def example_request_def)
  obtain rsp w' where h: "proxy_handler example_platform example_wire example_pdp example_moment example_state
      example_request example_world = (Some rsp, w')" using example_answered by blast
  have "(?step)\<^sup>*\<^sup>* ?s3 (?s3\<lparr>sv_world := w'\<rparr>)"
  proof (rule handler_schedule)
    show "proxy_state_server example_platform example_server = Inr (handler_state example_service)"
      by (simp add: example_service_state example_state_built)
    show "proxy_handler example_platform example_wire example_pdp example_moment (handler_state example_service)
        (with_peer_chain (Some [''b:ca-a'']) example_request) (sv_world ?s3) = (Some rsp, w')"
      unfolding w r example_service_state by (rule h)
    show "length (sv_tasks ?s3) < unat (ro_max_concurrent_requests (ss_app example_service))"
      by (simp add: server_init_def example_service_def router_of_def example_state_def example_server_fields
          default_limits_def default_max_concurrent_requests_def)
  qed simp
  with 1 2 3 have "server_reachable example_platform example_wire example_pdp example_service (?s3\<lparr>sv_world := w'\<rparr>)"
    by (meson reachable_steps server_reachable.start server_reachable.step)
  moreover have "pw_sent w' \<noteq> []" using example_sent [of example_pdp] h by simp
  moreover have "\<exists>ev. RequestCompleted ev \<in> set (as_log w')"
  proof -
    obtain r w1 where r: "run_handler example_platform example_wire example_pdp example_moment example_state
        example_request example_world = (r, w1)" by fastforce
    from h show ?thesis by (auto simp: proxy_handler_eq [OF r])
  qed
  ultimately show ?thesis by (intro exI [of _ "?s3\<lparr>sv_world := w'\<rparr>"]) simp
qed

section \<open>Properties\<close>

text \<open>
  C7. The running server, in every state that any interleaving of its connections and requests can
  reach: connection permits are neither lost nor created, so connections never exceed their limit,
  and requests never exceed theirs; every request sent upstream was prepared from a request admitted on the
  certificate of its connection, and is in the audit log; no rate window counts beyond the limit; and
  the server is never stuck.
\<close>

theorem server_interleaving_safe:
  assumes "server_reachable pf wl pdp svc s" and "0 < unat (ss_connection_permits svc)"
  shows "sv_permits s + length (sv_connections s) + (if sv_loop s = Accepting then 1 else 0)
      = unat (ss_connection_permits svc)
    \<and> length (sv_tasks s) \<le> unat (ro_max_concurrent_requests (ss_app svc))
    \<and> (\<forall>t \<in> set (sv_tasks s).
         (tk_connection t, ServingRequests (rq_peer_chain (tk_request t))) \<in> set (sv_connections s))
    \<and> (\<forall>ob \<in> set (pw_sent (sv_world s)). justified pf wl pdp (handler_state svc) ob)
    \<and> length (pw_sent (sv_world s)) \<le> authorized_count (sv_world s)
    \<and> (\<forall>win \<in> ran (rl_windows (pw_rate (sv_world s))).
         rw_count win \<le> lm_max_requests_per_identity_per_minute (cc_limits (ps_config (handler_state svc))))
    \<and> (\<exists>s'. server_step pf wl pdp svc s s')"
proof -
  note r = resources.reachable_inv [OF assms(1)] and t = gated_traffic.reachable_inv [OF assms(1)]
  from t have "window_inv (request_limit (ps_config (handler_state svc))) (pw_rate (sv_world s))"
    by (simp add: traffic_inv_def)
  then have "\<forall>win \<in> ran (rl_windows (pw_rate (sv_world s))). rw_count win \<le> request_limit (ps_config (handler_state svc))"
    by (auto simp: window_inv_def ran_def)
  with r t server_progress [OF r assms(2)] show ?thesis by (simp add: resource_inv_def traffic_inv_def)
qed

theorem server_interleaving_safe_witness:
  "\<exists>s. server_reachable example_platform example_wire example_pdp example_service s
    \<and> pw_sent (sv_world s) \<noteq> []
    \<and> sv_permits s + length (sv_connections s) + (if sv_loop s = Accepting then 1 else 0) = 1
    \<and> (\<forall>ob \<in> set (pw_sent (sv_world s)). justified example_platform example_wire example_pdp example_state ob)
    \<and> length (pw_sent (sv_world s)) \<le> authorized_count (sv_world s)"
proof -
  from example_reachable obtain s where
    s: "server_reachable example_platform example_wire example_pdp example_service s" "pw_sent (sv_world s) \<noteq> []"
    by blast
  have p: "unat (ss_connection_permits example_service) = 1" by (simp add: example_service_def)
  then have "0 < unat (ss_connection_permits example_service)" by simp
  from server_interleaving_safe [OF s(1) this] s show ?thesis
    unfolding p example_service_state by (intro exI [of _ s]) blast
qed

end
