(* ===== verification/Connector_Schedule.thy ===== *)
theory Connector_Schedule
  imports Connector_Server "HOL-Library.Multiset"
begin

text \<open>
  Schedules of the running server. Every interleaving of connections and requests is shown to have the
  effects of the requests handled one at a time, in the order of their admission, except for what was
  lost with a connection or is not finished; the work in hand ends; and every log entry of a completed
  request is well formed.
\<close>

section \<open>What a step adds\<close>

text \<open>Forwarding neither reads the limiter nor the cells: it adds the same to every world.\<close>

definition same_output :: "'u proxy_world \<Rightarrow> 'u proxy_world \<Rightarrow> 'u proxy_world \<Rightarrow> 'u proxy_world \<Rightarrow> bool" where
  "same_output v0 w0 v w \<longleftrightarrow>
     (\<exists>evs. as_log v = as_log v0 @ evs \<and> as_log w = as_log w0 @ evs)
     \<and> (\<exists>obs. pw_sent v = pw_sent v0 @ obs \<and> pw_sent w = pw_sent w0 @ obs)"

lemma agrees_output_log [agrees_intros]: "agrees (same_output v0 w0) (log_info e)"
  by (auto simp: agrees_def same_output_def log_info_eq)

lemma agrees_output_hand_over [agrees_intros]: "agrees (same_output v0 w0) (hand_over ob)"
  by (auto simp: agrees_def same_output_def hand_over_def)

lemma agrees_output_forward:
  "agrees (same_output v0 w0) (server_forward pf wl deadline mo ps req rid identity rm purpose)"
  unfolding server_forward_def log_authorized_def send_upstream_def Let_def by (intro agrees_intros)

type_synonym 'u effects = "('u outbound_request + log_event) multiset"

definition effects_of :: "'u outbound_request list \<Rightarrow> log_event list \<Rightarrow> 'u effects" where
  "effects_of obs evs = image_mset Inl (mset obs) + image_mset Inr (mset evs)"

definition world_effects :: "'u proxy_world \<Rightarrow> 'u effects" where
  "world_effects w = effects_of (pw_sent w) (as_log w)"

lemma effects_of_append [simp]:
  "effects_of (obs @ obs') (evs @ evs') = effects_of obs evs + effects_of obs' evs'"
  by (simp add: effects_of_def)

lemma filter_tagged [simp]:
  "filter_mset isl (image_mset Inl M) = image_mset Inl M" "filter_mset isl (image_mset Inr N) = {#}"
  "filter_mset (\<lambda>x. \<not> isl x) (image_mset Inl M) = {#}" "filter_mset (\<lambda>x. \<not> isl x) (image_mset Inr N) = image_mset Inr N"
  by (auto simp: filter_mset_eq_conv)

lemma effects_of_parts:
  "image_mset projl (filter_mset isl (effects_of obs evs)) = mset obs"
  "image_mset projr (filter_mset (\<lambda>x. \<not> isl x) (effects_of obs evs)) = mset evs"
  by (simp_all add: effects_of_def multiset.map_comp comp_def)

lemma effects_of_mono:
  assumes "effects_of obs evs \<subseteq># effects_of obs' evs'"
  shows "mset obs \<subseteq># mset obs'" "mset evs \<subseteq># mset evs'"
proof -
  have "image_mset f (filter_mset P (effects_of obs evs)) \<subseteq># image_mset f (filter_mset P (effects_of obs' evs'))" for f P
    by (intro image_mset_subseteq_mono multiset_filter_mono assms)
  from this [of projl isl] this [of projr "\<lambda>x. \<not> isl x"] show "mset obs \<subseteq># mset obs'" "mset evs \<subseteq># mset evs'"
    by (simp_all add: effects_of_parts)
qed

lemma effects_of_inject: "effects_of obs evs = effects_of obs' evs' \<longleftrightarrow> mset obs = mset obs' \<and> mset evs = mset evs'"
  by (auto simp: effects_of_def) (metis effects_of_def effects_of_parts)+

text \<open>What is left of a request: its forwarding, unless that is done, and the entry of its completion.\<close>

definition completion :: "('u, 'k) proxy_state \<Rightarrow> ('h, 'b) http_request \<Rightarrow> string \<Rightarrow> failure + http_response \<Rightarrow> log_event list" where
  "completion ps req rid r =
     (case answer r of None \<Rightarrow> [] | Some rsp \<Rightarrow> [RequestCompleted (completed ps req rid (problem_of r) rsp)])"

definition rest_effects ::
  "('u, 'h, 'k) platform \<Rightarrow> ('b, 'r, 'h) wire_lib \<Rightarrow> ('u, 'k) proxy_state \<Rightarrow> ('u, 'r, 'h, 'b) request_task \<Rightarrow> 'u effects" where
  "rest_effects pf wl ps t =
     (case tk_phase t of
        Finishing r \<Rightarrow> effects_of [] (completion ps (tk_request t) (task_id pf t) r)
      | Admitted identity rm purpose \<Rightarrow>
          (case server_forward pf wl (request_timeout (ps_config ps)) (tk_moment t) ps (tk_request t) (task_id pf t)
                  identity rm purpose (blank_world rate_limiter_default) of
             (r, w) \<Rightarrow> world_effects w + effects_of [] (completion ps (tk_request t) (task_id pf t) r)))"

lemma forward_effects:
  assumes "tk_phase t = Admitted identity rm purpose"
    and "server_forward pf wl (request_timeout (ps_config ps)) (tk_moment t) ps (tk_request t) (task_id pf t)
      identity rm purpose w = (r, w')"
  shows "world_effects w' + rest_effects pf wl ps (t\<lparr>tk_phase := Finishing r\<rparr>) = world_effects w + rest_effects pf wl ps t"
proof -
  let ?f = "server_forward pf wl (request_timeout (ps_config ps)) (tk_moment t) ps (tk_request t) (task_id pf t)
      identity rm purpose" and ?b = "blank_world rate_limiter_default"
  obtain r' b where b: "?f ?b = (r', b)" by fastforce
  have "same_output w ?b w ?b" by (simp add: same_output_def)
  with agrees_output_forward [of w ?b pf wl "request_timeout (ps_config ps)" "tk_moment t" ps "tk_request t"
      "task_id pf t" identity rm purpose] assms(2) b
  have *: "r = r'" "same_output w ?b w' b" unfolding agrees_def by (metis fst_conv snd_conv)+
  then have "world_effects w' = world_effects w + world_effects b"
    by (auto simp: same_output_def world_effects_def blank_world_def)
  moreover have "task_id pf (t\<lparr>tk_phase := Finishing r\<rparr>) = task_id pf t" by (simp add: task_id_def)
  ultimately show ?thesis using assms(1) b * by (simp add: rest_effects_def)
qed

lemma finish_effects:
  assumes "tk_phase t = Finishing r" and "answer r = Some rsp"
  shows "world_effects (w\<lparr>as_log := as_log w @ [RequestCompleted (completed ps (tk_request t) (task_id pf t) (problem_of r) rsp)]\<rparr>)
    = world_effects w + rest_effects pf wl ps t"
  using assms by (simp add: rest_effects_def completion_def world_effects_def effects_of_def)

text \<open>A request handled without interruption adds what its admission adds and what is left after it.\<close>

lemma handler_effects:
  assumes "proxy_state_server pf config = Inr ps" and "server_admission pf pdp mo ps req w = (x, w1)"
    and "tk_moment t = mo" "tk_request t = req" "tk_phase t = admission_phase x"
  shows "world_effects (snd (proxy_handler pf wl pdp mo ps req w)) = world_effects w1 + rest_effects pf wl ps t"
proof -
  let ?rid = "request_id (pf_headers pf) (mo_ulid mo) (rq_headers req)"
  obtain r w2 where h: "run_handler pf wl pdp mo ps req w = (r, w2)" by fastforce
  have id: "task_id pf (t\<lparr>tk_phase := p\<rparr>) = ?rid" "task_id pf t = ?rid" for p by (simp_all add: task_id_def assms)
  have c: "ps_config ps = config" by (rule proxy_state_server_Inr(2) [OF assms(1)])
  have fin: "world_effects (snd (proxy_handler pf wl pdp mo ps req w)) = world_effects w2 + effects_of [] (completion ps req ?rid r)"
    by (cases "answer r") (simp_all add: proxy_handler_eq [OF h] completion_def world_effects_def effects_of_def)
  show ?thesis
  proof (cases x)
    case (Inl e)
    with h assms(2) have "r = Inl e" "w2 = w1"
      unfolding run_handler_server [OF assms(1)] by (auto simp: handle_server_def step_bind_def)
    with fin Inl assms(3-5) id show ?thesis by (simp add: rest_effects_def)
  next
    case (Inr irp)
    obtain identity rm purpose where irp: "irp = (identity, rm, purpose)" by (cases irp)
    from h assms(2) Inr irp have f: "server_forward pf wl (request_timeout config) mo ps req ?rid identity rm purpose w1 = (r, w2)"
      unfolding run_handler_server [OF assms(1)] by (simp add: handle_server_def step_bind_def)
    have "world_effects w2 + rest_effects pf wl ps (t\<lparr>tk_phase := Finishing r\<rparr>) = world_effects w1 + rest_effects pf wl ps t"
      by (rule forward_effects) (use f c id assms(3-5) Inr irp in simp_all)
    with fin id assms(4) show ?thesis by (simp add: rest_effects_def)
  qed
qed

section \<open>Histories\<close>

text \<open>
  A reachable state with its history: the requests that arrived, in the order of their admission, and
  the tasks that were lost with their connections.
\<close>

inductive server_history ::
  "('u, 'h, 'k) platform \<Rightarrow> ('b, 'r, 'h) wire_lib \<Rightarrow> pdp_lib \<Rightarrow> ('u, 'k) server_service
   \<Rightarrow> ('u, 'r, 'h, 'b) arrivals \<Rightarrow> ('u, 'r, 'h, 'b) request_task list \<Rightarrow> ('u, 'r, 'h, 'b) server_state \<Rightarrow> bool"
  for pf wl pdp svc where
  history_start: "server_history pf wl pdp svc [] [] (server_init svc)"
| history_arrival: "server_history pf wl pdp svc rs lost s \<Longrightarrow> server_step pf wl pdp svc s s' \<Longrightarrow>
    sv_tasks s' = sv_tasks s @ [t] \<Longrightarrow>
    server_history pf wl pdp svc (rs @ [(tk_moment t, tk_request t)]) lost s'"
| history_step: "server_history pf wl pdp svc rs lost s \<Longrightarrow> server_step pf wl pdp svc s s' \<Longrightarrow>
    length (sv_tasks s') \<le> length (sv_tasks s) \<Longrightarrow>
    server_history pf wl pdp svc rs
      (lost @ filter (\<lambda>t. tk_connection t \<notin> fst ` set (sv_connections s')) (sv_tasks s)) s'"

lemma history_reachable: "server_history pf wl pdp svc rs lost s \<Longrightarrow> server_reachable pf wl pdp svc s"
  by (induction rule: server_history.induct) (auto intro: server_reachable.intros)

lemma step_tasks:
  assumes "server_step pf wl pdp svc s s'"
  shows "(\<exists>t. sv_tasks s' = sv_tasks s @ [t]) \<or> length (sv_tasks s') \<le> length (sv_tasks s)"
  using assms by cases (auto simp: drop_connection_def)

lemma reachable_history: "server_reachable pf wl pdp svc s \<Longrightarrow> \<exists>rs lost. server_history pf wl pdp svc rs lost s"
proof (induction rule: server_reachable.induct)
  case (step s s')
  then show ?case using step_tasks [OF step.hyps(2)] by (meson server_history.intros)
qed (blast intro: history_start)

section \<open>Every interleaving is a sequence\<close>

definition sequential ::
  "('u, 'h, 'k) platform \<Rightarrow> ('b, 'r, 'h) wire_lib \<Rightarrow> pdp_lib \<Rightarrow> ('u, 'k) server_service \<Rightarrow> ('u, 'r, 'h, 'b) arrivals
   \<Rightarrow> 'u proxy_world" where
  "sequential pf wl pdp svc rs = snd (serve pf wl pdp (handler_state svc) rs (blank_world rate_limiter_default))"

lemma serve_snoc:
  "snd (serve pf wl pdp ps (rs @ [(mo, req)]) w) = snd (proxy_handler pf wl pdp mo ps req (snd (serve pf wl pdp ps rs w)))"
  by (induction rs arbitrary: w) (auto simp: serve_Cons Let_def)

definition linear ::
  "('u, 'h, 'k) platform \<Rightarrow> ('b, 'r, 'h) wire_lib \<Rightarrow> pdp_lib \<Rightarrow> ('u, 'k) server_service \<Rightarrow> ('u, 'r, 'h, 'b) arrivals
   \<Rightarrow> ('u, 'r, 'h, 'b) request_task list \<Rightarrow> ('u, 'r, 'h, 'b) server_state \<Rightarrow> bool" where
  "linear pf wl pdp svc rs lost s \<longleftrightarrow>
     (let w = sv_world s; v = sequential pf wl pdp svc rs in
      pw_rate w = pw_rate v \<and> cells_valid (pf_pki pf) w \<and> cells_valid (pf_pki pf) v
      \<and> world_effects w + (\<Sum>t \<in># mset (sv_tasks s @ lost). rest_effects pf wl (handler_state svc) t)
          = world_effects v)"

lemma linear_arrival:
  assumes "proxy_state_server pf config = Inr (handler_state svc)"
    and "linear pf wl pdp svc rs lost s"
    and "server_admission pf pdp mo (handler_state svc) req (sv_world s) = (r, w)"
    and "t = \<lparr>tk_connection = i, tk_moment = mo, tk_request = req, tk_phase = admission_phase r\<rparr>"
  shows "linear pf wl pdp svc (rs @ [(mo, req)]) lost (s\<lparr>sv_world := w, sv_tasks := sv_tasks s @ [t]\<rparr>)"
proof -
  let ?v = "sequential pf wl pdp svc rs" and ?ps = "handler_state svc" and ?w = "sv_world s"
  obtain r' v1 where v: "server_admission pf pdp mo ?ps req ?v = (r', v1)" by fastforce
  from assms(2) have "same_view (pf_pki pf) ?w ?v ?w ?v" by (simp add: linear_def Let_def same_view_def)
  with agrees_admission [of pf ?w ?v pdp mo ?ps req] assms(3) v
  have *: "r = r'" "same_view (pf_pki pf) ?w ?v w v1" unfolding agrees_def by (metis fst_conv snd_conv)+
  then obtain d where d: "world_effects w = world_effects ?w + d" "world_effects v1 = world_effects ?v + d"
    by (auto simp: same_view_def world_effects_def)
  have seq: "sequential pf wl pdp svc (rs @ [(mo, req)]) = snd (proxy_handler pf wl pdp mo ?ps req ?v)"
    by (simp add: sequential_def serve_snoc)
  have e: "world_effects (sequential pf wl pdp svc (rs @ [(mo, req)])) = world_effects v1 + rest_effects pf wl ?ps t"
    unfolding seq by (rule handler_effects [OF assms(1) v]) (simp_all add: assms(4) *)
  have rate: "pw_rate (sequential pf wl pdp svc (rs @ [(mo, req)])) = pw_rate w"
    using proxy_handler_rate [OF assms(1) v] * by (simp add: seq same_view_def)
  have cells: "cells_valid (pf_pki pf) (sequential pf wl pdp svc (rs @ [(mo, req)]))"
  proof -
    have "cells_valid (pf_pki pf) ?v" using assms(2) by (simp add: linear_def Let_def)
    then show ?thesis unfolding seq by (metis handler_refines(5) surj_pair)
  qed
  from assms(2) have "world_effects ?w + (\<Sum>t \<in># mset (sv_tasks s @ lost). rest_effects pf wl ?ps t) = world_effects ?v"
    by (simp add: linear_def Let_def)
  with e d rate cells * show ?thesis
    by (simp add: linear_def Let_def same_view_def ac_simps)
qed

lemma kept_tasks:
  assumes "resource_inv svc s" and "fst ` set (sv_connections s) \<subseteq> fst ` set (sv_connections s')"
  shows "filter (\<lambda>t. tk_connection t \<notin> fst ` set (sv_connections s')) (sv_tasks s) = []"
  using assms by (force simp: filter_empty_conv resource_inv_def)

lemma linear_frame:
  assumes "linear pf wl pdp svc rs lost s" and "sv_world s' = sv_world s"
    and "mset (sv_tasks s' @ lost') = mset (sv_tasks s @ lost)"
  shows "linear pf wl pdp svc rs lost' s'"
  using assms(1) unfolding linear_def assms(2,3) .

lemma linear_idle:
  assumes "linear pf wl pdp svc rs lost s" and "resource_inv svc s"
    and "sv_world s' = sv_world s" and "sv_tasks s' = sv_tasks s"
    and "fst ` set (sv_connections s) \<subseteq> fst ` set (sv_connections s')"
  shows "linear pf wl pdp svc rs
    (lost @ filter (\<lambda>t. tk_connection t \<notin> fst ` set (sv_connections s')) (sv_tasks s)) s'"
  unfolding kept_tasks [OF assms(2,5)] by (rule linear_frame [OF assms(1,3)]) (simp add: assms(4))

lemma linear_drop:
  assumes "linear pf wl pdp svc rs lost s" and "resource_inv svc s" and "(i, p) \<in> set (sv_connections s)"
  shows "linear pf wl pdp svc rs
    (lost @ filter (\<lambda>t. tk_connection t \<notin> fst ` set (sv_connections (drop_connection i s))) (sv_tasks s))
    (drop_connection i s)"
proof (rule linear_frame [OF assms(1)])
  have d: "sv_world (drop_connection i s) = sv_world s"
    "sv_tasks (drop_connection i s) = filter (\<lambda>t. tk_connection t \<noteq> i) (sv_tasks s)"
    by (simp_all add: drop_connection_def)
  from d(1) show "sv_world (drop_connection i s) = sv_world s" .
  have l: "filter (\<lambda>t. tk_connection t \<notin> fst ` set (sv_connections (drop_connection i s))) (sv_tasks s)
    = filter (\<lambda>t. \<not> tk_connection t \<noteq> i) (sv_tasks s)"
    using assms(2) by (intro filter_cong) (force simp: drop_connection_def resource_inv_def)+
  show "mset (sv_tasks (drop_connection i s) @ lost
      @ filter (\<lambda>t. tk_connection t \<notin> fst ` set (sv_connections (drop_connection i s))) (sv_tasks s))
    = mset (sv_tasks s @ lost)"
    unfolding d l using multiset_partition [of "mset (sv_tasks s)" "\<lambda>t. tk_connection t \<noteq> i"] by simp
qed

text \<open>A step of one task exchanges what was left of it for what it adds and what is left then.\<close>

lemma linear_exchange:
  assumes "linear pf wl pdp svc rs lost s" and "sv_tasks s = ts @ t # ts'"
    and "world_effects w + (\<Sum>t \<in># mset us. rest_effects pf wl (handler_state svc) t)
      = world_effects (sv_world s) + rest_effects pf wl (handler_state svc) t"
    and "pw_rate w = pw_rate (sv_world s)" and "cells_valid (pf_pki pf) w"
    and "sv_world s' = w" and "sv_tasks s' = ts @ us @ ts'"
  shows "linear pf wl pdp svc rs lost s'"
proof -
  let ?e = "\<lambda>ts. \<Sum>t \<in># mset ts. rest_effects pf wl (handler_state svc) t"
  let ?x = "?e (ts @ ts' @ lost)"
  from assms(1,2) have "world_effects (sv_world s) + rest_effects pf wl (handler_state svc) t + ?x
      = world_effects (sequential pf wl pdp svc rs)"
    by (simp add: linear_def Let_def ac_simps)
  then have "world_effects w + ?e us + ?x = world_effects (sequential pf wl pdp svc rs)"
    unfolding assms(3) .
  with assms(1,4-7) show ?thesis by (simp add: linear_def Let_def ac_simps)
qed

lemma linear_forwarded:
  assumes "linear pf wl pdp svc rs lost s" and "sv_tasks s = ts @ t # ts'" and "tk_phase t = Admitted identity rm purpose"
    and "server_forward pf wl (request_timeout (ps_config (handler_state svc))) (tk_moment t) (handler_state svc)
      (tk_request t) (task_id pf t) identity rm purpose (sv_world s) = (r, w)"
  shows "linear pf wl pdp svc rs lost (s\<lparr>sv_world := w, sv_tasks := ts @ t\<lparr>tk_phase := Finishing r\<rparr> # ts'\<rparr>)"
proof -
  from assms(1) have "cells_valid (pf_pki pf) (sv_world s)" by (simp add: linear_def Let_def)
  with assms(4) have "cells_valid (pf_pki pf) w"
    by (cases rule: forward_world) (auto simp: cells_valid_def)
  with linear_exchange [OF assms(1,2), of w "[t\<lparr>tk_phase := Finishing r\<rparr>]"] forward_effects [OF assms(3,4)]
    keepsD [OF keeps_rate_forward assms(4)] show ?thesis by simp
qed

lemma linear_finished:
  assumes "linear pf wl pdp svc rs lost s" and "sv_tasks s = ts @ t # ts'" and "tk_phase t = Finishing r"
    and "answer r = Some rsp"
  shows "linear pf wl pdp svc rs lost (s\<lparr>sv_tasks := ts @ ts', sv_world := (sv_world s)\<lparr>as_log := as_log (sv_world s)
    @ [RequestCompleted (completed (handler_state svc) (tk_request t) (task_id pf t) (problem_of r) rsp)]\<rparr>\<rparr>)"
proof -
  from assms(1) have "cells_valid (pf_pki pf) (sv_world s)" by (simp add: linear_def Let_def)
  with linear_exchange [OF assms(1,2), of "(sv_world s)\<lparr>as_log := as_log (sv_world s)
      @ [RequestCompleted (completed (handler_state svc) (tk_request t) (task_id pf t) (problem_of r) rsp)]\<rparr>" "[]"]
    finish_effects [OF assms(3,4), of "sv_world s" "handler_state svc" pf wl]
  show ?thesis by (simp add: cells_valid_def)
qed

lemma linear_step:
  assumes "linear pf wl pdp svc rs lost s" and "server_step pf wl pdp svc s s'"
    and "length (sv_tasks s') \<le> length (sv_tasks s)" and inv: "resource_inv svc s"
  shows "linear pf wl pdp svc rs
    (lost @ filter (\<lambda>t. tk_connection t \<notin> fst ` set (sv_connections s')) (sv_tasks s)) s'"
  using assms(2)
proof cases
  case (handshake_failed i)
  then show ?thesis using linear_drop [OF assms(1) inv] by simp
next
  case (connection_ends i chain)
  then show ?thesis using linear_drop [OF assms(1) inv] by simp
next
  case (request_forwarded ts t ts' identity rm purpose r w)
  then show ?thesis using linear_forwarded [OF assms(1) request_forwarded(2-4)] kept_tasks [OF inv, of s'] by simp
next
  case (request_finished ts t ts' r rsp)
  then show ?thesis using linear_finished [OF assms(1) request_finished(2-4)] kept_tasks [OF inv, of s'] by simp
next
  case (request_arrives i chain mo req r w)
  with assms(3) show ?thesis by simp
qed (rule linear_idle [OF assms(1) inv]; auto)+

lemma filter_neq_snoc: "filter P xs \<noteq> xs @ [y]"
  by (metis length_append_singleton length_filter_le not_less_eq_eq order_refl)

lemma history_linear:
  assumes "proxy_state_server pf config = Inr (handler_state svc)" and "server_history pf wl pdp svc rs lost s"
  shows "linear pf wl pdp svc rs lost s"
  using assms(2)
proof (induction rule: server_history.induct)
  case history_start
  show ?case using blank_cells_valid [of "pf_pki pf" rate_limiter_default]
    by (simp add: linear_def sequential_def server_init_def)
next
  case (history_arrival rs lost s s' t)
  from history_arrival.hyps(2) show ?case
  proof cases
    case (request_arrives i chain mo req r w)
    with history_arrival.hyps(3) have t: "t = \<lparr>tk_connection = i, tk_moment = mo, tk_request = with_peer_chain chain req,
        tk_phase = admission_phase r\<rparr>" by simp
    from linear_arrival [OF assms(1) history_arrival.IH request_arrives(4) t] request_arrives(1) t show ?thesis by simp
  qed (use history_arrival.hyps(3) in \<open>auto simp: drop_connection_def filter_neq_snoc dest: arg_cong [of _ _ length]\<close>)
next
  case (history_step rs lost s s')
  show ?case
    by (rule linear_step [OF history_step.IH history_step.hyps(2,3)])
      (rule resources.reachable_inv [OF history_reachable [OF history_step.hyps(1)]])
qed

section \<open>Draining\<close>

text \<open>
  The work left in the connections and tasks, and the steps that are left when the loop stands still
  and no request arrives.
\<close>

fun connection_work :: "connection_phase \<Rightarrow> nat" where
  "connection_work Handshaking = 2"
| "connection_work (ServingRequests _) = 1"

fun request_work :: "request_phase \<Rightarrow> nat" where
  "request_work (Admitted _ _ _) = 2"
| "request_work (Finishing _) = 1"

definition work_left :: "('u, 'r, 'h, 'b) server_state \<Rightarrow> nat" where
  "work_left s = sum_list (map (connection_work \<circ> snd) (sv_connections s))
     + sum_list (map (request_work \<circ> tk_phase) (sv_tasks s))"

definition drain_step ::
  "('u, 'h, 'k) platform \<Rightarrow> ('b, 'r, 'h) wire_lib \<Rightarrow> pdp_lib \<Rightarrow> ('u, 'k) server_service
   \<Rightarrow> ('u, 'r, 'h, 'b) server_state \<Rightarrow> ('u, 'r, 'h, 'b) server_state \<Rightarrow> bool" where
  "drain_step pf wl pdp svc s s' \<longleftrightarrow> server_step pf wl pdp svc s s'
     \<and> sv_loop s' = sv_loop s \<and> length (sv_tasks s') \<le> length (sv_tasks s)"

lemma work_pos: "0 < connection_work p" "0 < request_work q"
  by (cases p; simp) (cases q; simp)

lemma sum_list_filter_le: "sum_list (map f (filter P xs)) \<le> sum_list (map f xs)" for f :: "'a \<Rightarrow> nat"
  by (induction xs) auto

lemma sum_list_filter_less:
  fixes f :: "'a \<Rightarrow> nat"
  assumes "x \<in> set xs" and "\<not> P x" and "0 < f x"
  shows "sum_list (map f (filter P xs)) < sum_list (map f xs)"
  using assms
proof (induction xs)
  case (Cons y ys)
  show ?case
  proof (cases "x = y")
    case True
    with Cons.prems sum_list_filter_le [of f P ys] show ?thesis by simp
  qed (use Cons in auto)
qed simp

lemma work_left_drop:
  assumes "(i, p) \<in> set (sv_connections s)"
  shows "work_left (drop_connection i s) < work_left s"
proof -
  have "sum_list (map (connection_work \<circ> snd) (filter (\<lambda>c. fst c \<noteq> i) (sv_connections s)))
      < sum_list (map (connection_work \<circ> snd) (sv_connections s))"
    by (rule sum_list_filter_less [OF assms]) (simp_all add: work_pos)
  with sum_list_filter_le [of "request_work \<circ> tk_phase" "\<lambda>t. tk_connection t \<noteq> i" "sv_tasks s"] show ?thesis
    by (simp add: work_left_def drop_connection_def)
qed

lemma drain_step_work:
  assumes "drain_step pf wl pdp svc s s'"
  shows "work_left s' < work_left s"
proof -
  from assms have step: "server_step pf wl pdp svc s s'" and still: "sv_loop s' = sv_loop s" "length (sv_tasks s') \<le> length (sv_tasks s)"
    by (simp_all add: drain_step_def)
  from step show ?thesis
    by cases (use still in \<open>auto simp: work_left_drop, auto simp: work_left_def\<close>)
qed

lemma drain_steps_work: "(drain_step pf wl pdp svc ^^ n) s s' \<Longrightarrow> work_left s' + n \<le> work_left s"
proof (induction n arbitrary: s')
  case (Suc n)
  then obtain u where "(drain_step pf wl pdp svc ^^ n) s u" "drain_step pf wl pdp svc u s'" by auto
  with Suc.IH [of u] drain_step_work show ?case by (metis Suc_leI add_Suc_right add_mono_thms_linordered_semiring(3) add_Suc le_trans)
qed simp

lemma drain_possible:
  assumes "sv_connections s \<noteq> []"
  shows "\<exists>s'. drain_step pf wl pdp svc s s'"
proof -
  from assms obtain i p where c: "(i, p) \<in> set (sv_connections s)" by (cases "sv_connections s") auto
  then have "server_step pf wl pdp svc s (drop_connection i s)"
    by (cases p) (auto intro: server_step.handshake_failed server_step.connection_ends)
  then show ?thesis
    by (intro exI [of _ "drop_connection i s"]) (simp add: drain_step_def drop_connection_def)
qed

lemma drains:
  "\<exists>s'. (drain_step pf wl pdp svc)\<^sup>*\<^sup>* s s' \<and> sv_connections s' = []"
proof (induction s rule: measure_induct_rule [of work_left])
  case (less s)
  show ?case
  proof (cases "sv_connections s = []")
    case False
    then obtain u where u: "drain_step pf wl pdp svc s u" using drain_possible by blast
    from less [OF drain_step_work [OF u]] u show ?thesis by (meson converse_rtranclp_into_rtranclp)
  qed blast
qed

lemma sum_list_le_twice: "(\<And>x. x \<in> set xs \<Longrightarrow> f x \<le> 2) \<Longrightarrow> sum_list (map f xs) \<le> 2 * length xs" for f :: "'a \<Rightarrow> nat"
  by (induction xs) fastforce+

lemma work_le: "connection_work p \<le> 2" "request_work q \<le> 2"
  by (cases p; simp) (cases q; simp)

lemma work_left_bound:
  assumes "resource_inv svc s"
  shows "work_left s \<le> 2 * unat (ss_connection_permits svc) + 2 * unat (ro_max_concurrent_requests (ss_app svc))"
proof -
  have "work_left s \<le> 2 * length (sv_connections s) + 2 * length (sv_tasks s)"
    unfolding work_left_def by (intro add_mono sum_list_le_twice) (simp_all add: work_le)
  with assms show ?thesis by (simp add: resource_inv_def)
qed

lemma drain_reachable:
  "(drain_step pf wl pdp svc)\<^sup>*\<^sup>* s s' \<Longrightarrow> server_reachable pf wl pdp svc s
    \<Longrightarrow> server_reachable pf wl pdp svc s' \<and> sv_loop s' = sv_loop s"
  by (induction rule: rtranclp_induct) (auto simp: drain_step_def intro: server_reachable.step)

section \<open>Entries of completed requests\<close>

text \<open>
  An entry is forwarded and has no problem, or it has a problem that was denied at a stage, with a
  status from 400, or that failed, with a status from 500 and no stage.
\<close>

definition well_formed_event :: "completed_event \<Rightarrow> bool" where
  "well_formed_event ev \<longleftrightarrow>
     ev_status_class ev = ev_status ev div 100
     \<and> (if ev_outcome ev = ''forwarded''
        then ev_problem_code ev = [] \<and> ev_denial_stage ev = [] \<and> ev_denial_reason ev = []
        else 400 \<le> ev_status ev \<and> ev_status ev < 600
          \<and> ev_outcome ev = (if ev_status_class ev = 5 then ''failed'' else ''denied'')
          \<and> (ev_denial_stage ev = [] \<longleftrightarrow> ev_outcome ev = ''failed'')
          \<and> (ev_outcome ev = ''failed'' \<longrightarrow> ev_denial_reason ev = []))"

lemma completed_well_formed:
  assumes "answer r = Some rsp"
  shows "well_formed_event (completed ps req rid (problem_of r) rsp)"
proof (cases r rule: answer.cases)
  case (2 p)
  with assms show ?thesis
    by (cases p) (auto simp: well_formed_event_def completed_def problem_response_def audit_outcome_def is_server_error_def)
qed (use assms in \<open>auto simp: well_formed_event_def completed_def\<close>)

definition typed_log :: "('u, 'r, 'h, 'b) server_state \<Rightarrow> bool" where
  "typed_log s \<longleftrightarrow> (\<forall>ev. RequestCompleted ev \<in> set (handler_entries (sv_world s)) \<longrightarrow> well_formed_event ev)"

lemma typed_log_forwarded:
  assumes "typed_log s" and "server_forward pf wl deadline mo ps req rid identity rm purpose (sv_world s) = (r, w)"
  shows "typed_log (s\<lparr>sv_world := w, sv_tasks := ts\<rparr>)"
  using assms(2)
proof (cases rule: forward_world)
  case stopped
  with assms(1) show ?thesis by (simp add: typed_log_def)
next
  case (logged body url headers event)
  with assms(1) prepared_event [OF logged(1)] show ?thesis by (auto simp: typed_log_def handler_entries_def)
next
  case (sent body url headers event m)
  with assms(1) prepared_event [OF sent(1)] show ?thesis by (auto simp: typed_log_def handler_entries_def)
qed

interpretation typed_entries: server_invariant pf wl pdp svc typed_log
  for pf :: "('u, 'h, 'k) platform" and wl :: "('b, 'r, 'h) wire_lib" and pdp and svc :: "('u, 'k) server_service"
proof
  show "typed_log (server_init svc)" by (simp add: typed_log_def server_init_def blank_world_def handler_entries_def)
next
  fix s s' :: "('u, 'r, 'h, 'b) server_state"
  assume "server_step pf wl pdp svc s s'" and inv: "typed_log s"
  then show "typed_log s'"
  proof cases
    case (request_arrives i chain mo req r w)
    with inv keepsD [OF keeps_entries_admission request_arrives(4)] show ?thesis by (simp add: typed_log_def)
  next
    case (request_forwarded ts t ts' identity rm purpose r w)
    with typed_log_forwarded [OF inv request_forwarded(4)] show ?thesis by simp
  next
    case (request_finished ts t ts' r rsp)
    with inv completed_well_formed [OF request_finished(4)] show ?thesis
      by (auto simp: typed_log_def handler_entries_def)
  qed (use inv in \<open>simp_all add: typed_log_def drop_connection_def\<close>)
qed

section \<open>Properties\<close>

text \<open>
  C6. Every interleaving is equivalent to a sequence. Take any history of the running server, with the
  requests that arrived in the order of their admission, and let a server handle the same requests one at a
  time. The rate limiters are equal; what was sent upstream and what was logged is, with
  multiplicity, part of what the sequential server sent and logged; and it is all of it when
  no request is unfinished and none was lost with its connection. Every reachable state has a history.
\<close>

theorem interleaving_linearizable:
  assumes "proxy_state_server pf config = Inr (handler_state svc)"
    and "server_history pf wl pdp svc rs lost s"
    and "serve pf wl pdp (handler_state svc) rs (blank_world rate_limiter_default) = (answers, v)"
  shows "pw_rate (sv_world s) = pw_rate v
    \<and> mset (pw_sent (sv_world s)) \<subseteq># mset (pw_sent v)
    \<and> mset (as_log (sv_world s)) \<subseteq># mset (as_log v)
    \<and> (sv_tasks s = [] \<and> lost = [] \<longrightarrow>
         mset (pw_sent (sv_world s)) = mset (pw_sent v) \<and> mset (as_log (sv_world s)) = mset (as_log v))"
proof -
  from assms(3) have v: "sequential pf wl pdp svc rs = v" by (simp add: sequential_def)
  let ?rest = "\<Sum>t \<in># mset (sv_tasks s @ lost). rest_effects pf wl (handler_state svc) t"
  from history_linear [OF assms(1,2)] have l: "pw_rate (sv_world s) = pw_rate v"
    "world_effects (sv_world s) + ?rest = world_effects v"
    unfolding linear_def Let_def v by blast+
  then have "world_effects (sv_world s) \<subseteq># world_effects v" by (metis mset_subset_eq_add_left)
  from effects_of_mono [OF this [unfolded world_effects_def]]
  have "mset (pw_sent (sv_world s)) \<subseteq># mset (pw_sent v)" "mset (as_log (sv_world s)) \<subseteq># mset (as_log v)" .
  moreover have "mset (pw_sent (sv_world s)) = mset (pw_sent v) \<and> mset (as_log (sv_world s)) = mset (as_log v)"
    if "sv_tasks s = [] \<and> lost = []"
    using l(2) that by (simp add: world_effects_def effects_of_inject)
  ultimately show ?thesis using l(1) by blast
qed

theorem interleaving_linearizable_witness:
  "\<exists>s rs lost. server_history example_platform example_wire example_pdp example_service rs lost s
    \<and> pw_sent (sv_world s) \<noteq> []
    \<and> mset (pw_sent (sv_world s)) \<subseteq># mset (pw_sent (snd (serve example_platform example_wire example_pdp example_state rs
        (blank_world rate_limiter_default))))"
proof -
  from example_reachable obtain s where
    s: "server_reachable example_platform example_wire example_pdp example_service s" "pw_sent (sv_world s) \<noteq> []"
    by blast
  from reachable_history [OF s(1)] obtain rs lost where
    h: "server_history example_platform example_wire example_pdp example_service rs lost s" by blast
  have "proxy_state_server example_platform example_server = Inr (handler_state example_service)"
    by (simp add: example_service_state example_state_built)
  from interleaving_linearizable [OF this h prod.collapse [symmetric]] s(2) h show ?thesis
    unfolding example_service_state by blast
qed



text \<open>
  C14. Every entry of a completed request in the log is well formed, in every state any interleaving can reach: an
  entry is either of a forwarded response, without problem, or of a problem with a status from 400 to
  599; it is failed exactly with a status from 500 and then has neither stage nor reason,
  and otherwise denied, at a stage.
\<close>

theorem server_log_typed:
  assumes "server_reachable pf wl pdp svc s" and "RequestCompleted ev \<in> set (as_log (sv_world s))"
  shows "well_formed_event ev"
  using typed_entries.reachable_inv [OF assms(1)] assms(2) by (simp add: typed_log_def handler_entries_def)

theorem server_log_typed_witness:
  "\<exists>s ev. server_reachable example_platform example_wire example_pdp example_service s
    \<and> RequestCompleted ev \<in> set (as_log (sv_world s)) \<and> well_formed_event ev"
proof -
  from example_reachable obtain s ev where
    s: "server_reachable example_platform example_wire example_pdp example_service s"
      "RequestCompleted ev \<in> set (as_log (sv_world s))" by blast
  from server_log_typed [OF this] s show ?thesis by blast
qed

end
