(* ===== verification/Connector_Client.thy ===== *)
theory Connector_Client
  imports Connector_Gateway
begin

text \<open>
  The client connector's side of a hop (\<open>handle_client\<close> of \<open>src/src/proxy.rs\<close>) and its composition with
  the server connector's reading of what arrives: what is sent, that the header list on the wire carries
  exactly the entries of the header map that was built, and what \<open>request_id\<close> and
  \<open>single_data_purpose\<close> of the server make of it.
\<close>

section \<open>What the client connector sends\<close>

lemma handle_client_sent:
  assumes "handle_client pf wl deadline mo ps req rid w = (r, w')" and "pw_sent w' \<noteq> pw_sent w"
  obtains rm purpose body url headers m where
    "find_client_route (pf_decode pf) (cc_routes (ps_config ps)) (rq_method req) (rq_path req) = Inr rm"
    "resolve_client_purpose (pf_headers pf) (ps_config ps) rm (rq_headers req) = Inr purpose"
    "to_bytes wl (rq_body req) (max_body_bytes (ps_config ps)) = Some body"
    "client_headers (pf_headers pf) (ps_config ps) rm (rq_headers req) rid purpose = Inr headers"
    "\<exists>server. cc_server (ps_config ps) = Some server
       \<and> build_url (pf_url pf) (cs_url server) (rm_upstream_path rm) (rq_query req) = Some url"
    "method_from_bytes wl (rq_method req) = Some m"
    "pw_sent w' = pw_sent w @ [outbound_of (pf_headers pf) m url headers body]"
proof -
  have *: "\<exists>rm purpose body url headers m.
      find_client_route (pf_decode pf) (cc_routes (ps_config ps)) (rq_method req) (rq_path req) = Inr rm
    \<and> resolve_client_purpose (pf_headers pf) (ps_config ps) rm (rq_headers req) = Inr purpose
    \<and> to_bytes wl (rq_body req) (max_body_bytes (ps_config ps)) = Some body
    \<and> client_headers (pf_headers pf) (ps_config ps) rm (rq_headers req) rid purpose = Inr headers
    \<and> (\<exists>server. cc_server (ps_config ps) = Some server
       \<and> build_url (pf_url pf) (cs_url server) (rm_upstream_path rm) (rq_query req) = Some url)
    \<and> method_from_bytes wl (rq_method req) = Some m
    \<and> pw_sent w' = pw_sent w @ [outbound_of (pf_headers pf) m url headers body]"
  proof -
    have send: "\<exists>m. method_from_bytes wl (rq_method req) = Some m
        \<and> pw_sent w' = pw_sent w @ [outbound_of (pf_headers pf) m url headers body]"
      if "send_upstream (pf_headers pf) wl deadline mo (rq_method req) url headers body n w = (r', w')" for url headers body n r'
      using arg_cong [OF that, of snd] assms(2)
      by (cases "method_from_bytes wl (rq_method req)") (auto simp: send_upstream_world)
    show ?thesis
      using assms unfolding handle_client_def Let_def
      by (cases r) (auto simp: step_bind_Inl_iff step_bind_Inr_iff report_Inr_iff report_Inl_iff
          read_limited_body_Inr_iff read_limited_body_Inl_iff ok_or_Inr_iff map_err_Inr_iff dest!: send)
  qed
  then show ?thesis using that by blast
qed


lemma client_headers_get:
  assumes "client_headers hl config rm h rid purpose = Inr h'" and "header_map_laws hl"
  shows "hm_get hl h' n =
    (if n = DATA_PURPOSE \<and> purpose \<noteq> None then purpose
     else if n = CONNECTOR_ID \<and> cc_connector_id config \<noteq> None then cc_connector_id config
     else if n = CONNECTOR_VERSION then Some CARGO_PKG_VERSION
     else if n = REQUEST_ID then Some rid
     else hm_get hl (filtered_headers hl h rm) n)"
proof -
  from assms(1) obtain h1 h3 where
    1: "insert_header hl REQUEST_ID rid (filtered_headers hl h rm) = Inr h1"
    and 3: "insert_header_opt hl CONNECTOR_ID (cc_connector_id config) (hm_insert hl h1 CONNECTOR_VERSION CARGO_PKG_VERSION) = Inr h3"
    and 4: "insert_header_opt hl DATA_PURPOSE purpose h3 = Inr h'"
    unfolding client_headers_def Let_def and_then_Inr_iff by blast
  show ?thesis
    unfolding insert_header_opt_get [OF assms(2) 4] insert_header_opt_get [OF assms(2) 3]
      header_get_insert [OF assms(2)] insert_header_get [OF assms(2) 1]
    by simp
qed

lemma handle_client_forward:
  assumes "find_client_route (pf_decode pf) (cc_routes (ps_config ps)) (rq_method req) (rq_path req) = Inr rm"
    and "resolve_client_purpose (pf_headers pf) (ps_config ps) rm (rq_headers req) = Inr purpose"
    and "in_time deadline mo AwaitBody" and "to_bytes wl (rq_body req) (max_body_bytes (ps_config ps)) = Some body"
    and "cc_server (ps_config ps) = Some server"
    and "build_url (pf_url pf) (cs_url server) (rm_upstream_path rm) (rq_query req) = Some url"
    and "client_headers (pf_headers pf) (ps_config ps) rm (rq_headers req) rid purpose = Inr headers"
  shows "handle_client pf wl deadline mo ps req rid w
    = send_upstream (pf_headers pf) wl deadline mo (rq_method req) url headers body (max_body_bytes (ps_config ps)) w"
proof -
  have "read_limited_body wl deadline mo (rq_body req) (max_body_bytes (ps_config ps)) w = (Inr body, w)"
    using assms(3,4) by (simp add: read_limited_body_Inr_iff)
  with assms show ?thesis by (simp add: handle_client_def Let_def step_bind_def report_def step_lift_def)
qed

section \<open>Delivery\<close>

text \<open>The header map the receiver builds from what was sent: the same names and values, in order.\<close>

definition delivered :: "'h header_lib \<Rightarrow> 'u outbound_request \<Rightarrow> 'h \<Rightarrow> bool" where
  "delivered hl ob headers \<longleftrightarrow>
     (\<forall>n. hm_get_all hl headers n = map snd (filter (\<lambda>e. fst e = n) (ob_headers ob)))"

lemma named_headers_simps:
  "named_headers [] = []"
  "named_headers ((None, v) # entries) = named_headers entries"
  "named_headers ((Some n, v) # entries) = (n, v) # named_headers entries"
  by (simp_all add: named_headers_def List.map_filter_def)

lemma named_headers_distinct:
  "distinct (filter (\<lambda>n. n \<noteq> None) (map fst entries)) \<Longrightarrow> distinct (map fst (named_headers entries))"
proof (induction entries)
  case (Cons e entries)
  obtain name v where e: "e = (name, v)" by (cases e)
  show ?case
  proof (cases name)
    case (Some n)
    have "n \<notin> fst ` set (named_headers entries)"
      using Cons.prems e Some by (force simp: named_headers_iff)
    moreover have "distinct (map fst (named_headers entries))"
      by (rule Cons.IH) (use Cons.prems e Some in simp)
    ultimately show ?thesis by (simp add: e Some named_headers_simps)
  qed (use Cons e in \<open>simp add: named_headers_simps\<close>)
qed (simp add: named_headers_simps)

lemma distinct_filter_key:
  "distinct (map fst xs) \<Longrightarrow> map snd (filter (\<lambda>e. fst e = n) xs) = (case map_of xs n of None \<Rightarrow> [] | Some v \<Rightarrow> [v])"
  by (induction xs) (auto simp: filter_empty_conv image_iff split: option.splits dest: map_of_SomeD)

lemma delivered_get_all:
  assumes "header_map_laws hl" and "delivered hl (outbound_of hl m url h body) headers"
  shows "hm_get_all hl headers n = (case hm_get hl h n of None \<Rightarrow> [] | Some v \<Rightarrow> [v])"
proof -
  let ?hs = "named_headers (hm_into_iter hl h)"
  have d: "distinct (map fst ?hs)"
    by (rule named_headers_distinct) (use assms(1) in \<open>simp add: header_map_laws_def\<close>)
  have "map_of ?hs n = Some v \<longleftrightarrow> hm_get hl h n = Some v" for v
    using d by (simp add: map_of_eq_Some_iff named_headers_iff header_into_iter_iff [OF assms(1)])
  then have "map_of ?hs n = hm_get hl h n" by (metis option.exhaust)
  with assms(2) distinct_filter_key [OF d, of n] show ?thesis by (simp add: delivered_def outbound_of_def)
qed

lemma delivered_get:
  assumes "header_map_laws hl" and "delivered hl (outbound_of hl m url h body) headers"
  shows "hm_get hl headers n = hm_get hl h n"
proof -
  have "hm_get hl headers n = (case hm_get_all hl headers n of [] \<Rightarrow> None | v # _ \<Rightarrow> Some v)"
    using assms(1) by (simp add: header_map_laws_def)
  then show ?thesis by (simp add: delivered_get_all [OF assms] split: option.splits)
qed

lemma client_private_names:
  "starts_with CONNECTOR_ID ''x-registry-connector-''" "starts_with CONNECTOR_VERSION ''x-registry-connector-''"
  "CONNECTOR_ID \<noteq> CONNECTOR_VERSION" "CONNECTOR_ID \<noteq> DATA_PURPOSE" "CONNECTOR_VERSION \<noteq> DATA_PURPOSE"
  "CONNECTOR_ID \<noteq> REQUEST_ID" "CONNECTOR_VERSION \<noteq> REQUEST_ID"
  by (simp_all add: CONNECTOR_ID_def CONNECTOR_VERSION_def DATA_PURPOSE_def REQUEST_ID_def rust_eval)

lemma filtered_headers_get:
  assumes "header_map_laws hl" and "request_filter_laws hl"
  shows "hm_get hl (filtered_headers hl h rm) n = Some v \<Longrightarrow> hm_get hl h n = Some v"
    and "starts_with n ''x-registry-connector-'' \<Longrightarrow> hm_get hl (filtered_headers hl h rm) n = None"
    and "\<not> rt_allow_forward_authorization (rm_route rm) \<Longrightarrow> hm_get hl (filtered_headers hl h rm) ''authorization'' = None"
    and "\<not> rt_allow_forward_cookie (rm_route rm) \<Longrightarrow> hm_get hl (filtered_headers hl h rm) ''cookie'' = None"
proof -
  let ?p = "strict_policy\<lparr>hp_allow_authorization := rt_allow_forward_authorization (rm_route rm),
           hp_allow_cookie := rt_allow_forward_cookie (rm_route rm), hp_private_prefixes := [''x-registry-connector-'']\<rparr>"
  show "hm_get hl (filtered_headers hl h rm) n = Some v \<Longrightarrow> hm_get hl h n = Some v"
    unfolding filtered_headers_def by (rule header_filter_get(1) [OF assms])
  show "starts_with n ''x-registry-connector-'' \<Longrightarrow> hm_get hl (filtered_headers hl h rm) n = None"
    unfolding filtered_headers_def by (rule header_filter_get(2) [OF assms, of "''x-registry-connector-''"]) simp_all
  show "\<not> rt_allow_forward_authorization (rm_route rm) \<Longrightarrow> hm_get hl (filtered_headers hl h rm) ''authorization'' = None"
    unfolding filtered_headers_def by (rule header_filter_get(3) [OF assms]) simp
  show "\<not> rt_allow_forward_cookie (rm_route rm) \<Longrightarrow> hm_get hl (filtered_headers hl h rm) ''cookie'' = None"
    unfolding filtered_headers_def by (rule header_filter_get(4) [OF assms]) simp
qed

lemma request_names: "REQUEST_ID \<noteq> DATA_PURPOSE"
  by (simp add: REQUEST_ID_def DATA_PURPOSE_def)

text \<open>The purpose the client settles on, and what it forwards when there is none.\<close>

lemma client_purpose_delivered:
  assumes "header_map_laws hl" and "request_filter_laws hl" and "header_text_laws hl"
    and "resolve_client_purpose hl config rm h = Inr purpose"
    and "client_headers hl config rm h rid purpose = Inr h'"
    and "delivered hl (outbound_of hl m url h' body) headers"
    and "\<And>p. df_data_purpose (cc_defaults config) = Some p \<Longrightarrow> visible p"
  shows "single_data_purpose hl headers = Inr (map_option trim purpose)"
proof -
  note all = delivered_get_all [OF assms(1,6), of DATA_PURPOSE]
  note get = client_headers_get [OF assms(5,1), of DATA_PURPOSE]
  show ?thesis
  proof (cases purpose)
    case (Some p)
    have "trim p \<noteq> []" "header_str hl h DATA_PURPOSE = Some p \<or> df_data_purpose (cc_defaults config) = Some p"
      using assms(4) Some unfolding resolve_client_purpose_def
      by (auto simp: option_filter_Some_iff ok_or_Inr_iff split: if_split_asm purpose_source.split_asm)
    moreover from this(2) have "visible p"
      using assms(3,7) by (auto simp: header_str_def header_text_laws_def bind_eq_Some_conv)
    ultimately show ?thesis
      using assms(3) get all Some by (simp add: single_data_purpose_def List.map_filter_def header_text_laws_def)
  next
    case None
    then have n: "option_filter (\<lambda>v. trim v \<noteq> []) (header_str hl h DATA_PURPOSE) = None"
      using assms(4) unfolding resolve_client_purpose_def
      by (auto simp: ok_or_Inr_iff split: if_split_asm purpose_source.split_asm)
    from get None have g: "hm_get hl h' DATA_PURPOSE = hm_get hl (filtered_headers hl h rm) DATA_PURPOSE"
      using client_private_names by simp
    show ?thesis
    proof (cases "hm_get hl h' DATA_PURPOSE")
      case (Some v)
      with g filtered_headers_get(1) [OF assms(1,2)] have "hm_get hl h DATA_PURPOSE = Some v" by metis
      with n have "option_filter (\<lambda>v. v \<noteq> []) (map_option trim (hv_to_str hl v)) = None"
        by (cases "hv_to_str hl v") (auto simp: header_str_def split: if_split_asm)
      with all Some None show ?thesis by (simp add: single_data_purpose_def List.map_filter_def)
    qed (use all None in \<open>simp add: single_data_purpose_def List.map_filter_def\<close>)
  qed
qed

lemma proxy_state_client_config [simp]: "ps_config (proxy_state_client config client) = config"
  by (simp add: proxy_state_client_def)

lemma run_handler_client:
  "run_handler pf wl pdp mo (proxy_state_client config client) req =
    handle_client pf wl (request_timeout config) mo (proxy_state_client config client) req
      (request_id (pf_headers pf) (mo_ulid mo) (rq_headers req))"
  by (simp add: run_handler_def proxy_state_client_def)

lemma request_id_valid: "valid_request_id ulid \<Longrightarrow> valid_request_id (request_id hl ulid headers)"
  by (cases "header_str hl headers REQUEST_ID") (auto simp: request_id_def)

lemma request_id_delivered:
  assumes "header_map_laws hl" and "header_text_laws hl" and "valid_request_id rid"
    and "hm_get hl headers REQUEST_ID = Some rid"
  shows "request_id hl ulid headers = rid"
  using assms valid_request_id_visible [OF assms(3)]
  by (simp add: request_id_def header_str_def header_text_laws_def)

section \<open>A client connector that forwards\<close>

definition example_mtls :: mtls_client where
  "example_mtls = \<lparr>mc_identity_pem = ''pem'', mc_roots = [''root''], mc_timeout = 30, mc_use_proxy = False,
     mc_follow_redirects = False, mc_built_in_roots = False\<rparr>"

definition example_local :: "(header_list, bytes) http_request" where
  "example_local = example_request\<lparr>rq_path := ''/local/x''\<rparr>"

lemma example_client_fields:
  "cc_routes example_client = [example_route ''r'' ''/v1'']" "cc_limits example_client = default_limits"
  "cc_server example_client = Some \<lparr>cs_url = ''https://server'', cs_trust_bundle = ''bundle.pem''\<rparr>"
  "df_data_purpose (cc_defaults example_client) = None" "cc_connector_id example_client = None"
  by (simp_all add: example_client_def example_server_def example_config_def)

lemma example_local_routed:
  "find_client_route ref_decoder [example_route ''r'' ''/v1''] ''GET'' ''/local/x'' = Inr example_match"
  by (simp add: routing_eval rust_eval example_route_def example_match_def)

lemma example_local_purpose:
  "resolve_client_purpose list_headers config example_match (rq_headers example_local) = Inr (Some '' research '')"
proof -
  have "trim '' research '' \<noteq> []" by (simp add: rust_eval)
  then show ?thesis
    by (simp add: resolve_client_purpose_def example_match_def example_route_def header_str_def list_headers_def
        example_local_def example_request_def DATA_PURPOSE_def visible_def)
qed

lemma example_local_sent:
  "\<exists>ob. pw_sent (snd (proxy_handler example_platform example_wire pdp example_moment
     (proxy_state_client example_client client) example_local example_world)) = pw_sent example_world @ [ob]"
proof -
  let ?ps = "proxy_state_client example_client client"
  obtain r w1 where h: "run_handler example_platform example_wire pdp example_moment ?ps example_local example_world
      = (r, w1)" by fastforce
  have rid: "request_id list_headers (mo_ulid example_moment) (rq_headers example_local) = ''01ARZ''"
    using example_request_id by (simp add: example_local_def)
  have 1: "in_time deadline example_moment p" for deadline p
    by (simp add: in_time_def example_moment_def)
  have 2: "to_bytes example_wire (rq_body example_local) (max_body_bytes example_client) = Some ''body''"
    by (simp add: example_wire_def example_local_def example_request_def max_body_bytes_def example_client_fields
        default_limits_def default_max_body_bytes_def)
  have 3: "\<exists>hs. client_headers list_headers example_client example_match (rq_headers example_local) ''01ARZ''
      (Some '' research '') = Inr hs"
    by (simp add: client_headers_def Let_def insert_header_opt_def insert_header_def header_value_def
        example_client_fields) (simp add: list_headers_def visible_def)
  have 4: "rq_method example_local = ''GET''" "rq_path example_local = ''/local/x''"
    by (simp_all add: example_local_def example_request_def)
  have 5: "\<exists>url. build_url text_urls ''https://server'' p q = Some url" for p q
    by (simp add: build_url_def text_urls_def)
  from 3 5 [of "rm_upstream_path example_match" "rq_query example_local"] obtain hs url where
    "client_headers list_headers example_client example_match (rq_headers example_local) ''01ARZ''
      (Some '' research '') = Inr hs"
    "build_url text_urls ''https://server'' (rm_upstream_path example_match) (rq_query example_local) = Some url"
    by blast
  then have "send_upstream list_headers example_wire (request_timeout example_client) example_moment
      ''GET'' url hs ''body'' (max_body_bytes example_client) example_world = (r, w1)"
    using h 1 2 4 rid example_local_routed example_local_purpose
    unfolding run_handler_client
    by (subst (asm) handle_client_forward [where rm = example_match and purpose = "Some '' research ''"
          and body = "''body''" and url = url and headers = hs
          and server = "\<lparr>cs_url = ''https://server'', cs_trust_bundle = ''bundle.pem''\<rparr>"])
      (simp_all add: example_client_fields)
  from arg_cong [OF this, of snd] have "\<exists>ob. pw_sent w1 = pw_sent example_world @ [ob]"
    by (auto simp: send_upstream_world example_wire_method)
  then show ?thesis by (simp add: proxy_handler_eq [OF h] split: option.splits)
qed

section \<open>Properties\<close>

text \<open>
  C8. The hop between two connectors keeps what the server connector decides on. Whatever the client
  connector sends comes from a configured route, goes to the configured server with the rewritten path,
  and, once delivered, the server connector reads the same request id and the purpose the client
  connector resolved, trimmed, or no purpose when it resolved none. The only private connector headers
  that arrive are the client connector's own version and identifier, whatever its caller supplied, and
  authorization and cookies arrive only on routes that allow them.
\<close>

theorem client_server_hop:
  assumes "header_map_laws (pf_headers pf)" and "request_filter_laws (pf_headers pf)"
    and "header_text_laws (pf_headers pf)" and "valid_request_id (mo_ulid mo)"
    and "\<And>p. df_data_purpose (cc_defaults config) = Some p \<Longrightarrow> visible p"
    and "proxy_handler pf wl pdp mo (proxy_state_client config client) req w = (rsp, w')"
    and "pw_sent w' = pw_sent w @ [ob]" and "delivered (pf_headers pf) ob headers"
  shows "\<exists>rm purpose server.
      find_client_route (pf_decode pf) (cc_routes config) (rq_method req) (rq_path req) = Inr rm
    \<and> resolve_client_purpose (pf_headers pf) config rm (rq_headers req) = Inr purpose
    \<and> cc_server config = Some server
    \<and> build_url (pf_url pf) (cs_url server) (rm_upstream_path rm) (rq_query req) = Some (ob_url ob)
    \<and> request_id (pf_headers pf) ulid headers = request_id (pf_headers pf) (mo_ulid mo) (rq_headers req)
    \<and> single_data_purpose (pf_headers pf) headers = Inr (map_option trim purpose)
    \<and> (\<forall>n v. starts_with n ''x-registry-connector-'' \<and> hm_get (pf_headers pf) headers n = Some v \<longrightarrow>
          n = CONNECTOR_VERSION \<and> v = CARGO_PKG_VERSION \<or> n = CONNECTOR_ID \<and> cc_connector_id config = Some v)
    \<and> (\<not> rt_allow_forward_authorization (rm_route rm) \<longrightarrow> hm_get (pf_headers pf) headers ''authorization'' = None)
    \<and> (\<not> rt_allow_forward_cookie (rm_route rm) \<longrightarrow> hm_get (pf_headers pf) headers ''cookie'' = None)"
proof -
  let ?hl = "pf_headers pf" and ?rid = "request_id (pf_headers pf) (mo_ulid mo) (rq_headers req)"
  let ?ps = "proxy_state_client config client"
  obtain r w1 where h: "run_handler pf wl pdp mo ?ps req w = (r, w1)" by fastforce
  from proxy_handler_frame(1) [OF assms(6) h] assms(7) have sent: "pw_sent w1 = pw_sent w @ [ob]" by simp
  then have new: "pw_sent w1 \<noteq> pw_sent w" by simp
  from handle_client_sent [OF h [unfolded run_handler_client] new, unfolded proxy_state_client_config] obtain rm purpose body url hs m where
    rm: "find_client_route (pf_decode pf) (cc_routes config) (rq_method req) (rq_path req) = Inr rm"
    and purpose: "resolve_client_purpose ?hl config rm (rq_headers req) = Inr purpose"
    and hs: "client_headers ?hl config rm (rq_headers req) ?rid purpose = Inr hs"
    and url: "\<exists>server. cc_server config = Some server
       \<and> build_url (pf_url pf) (cs_url server) (rm_upstream_path rm) (rq_query req) = Some url"
    and ob: "pw_sent w1 = pw_sent w @ [outbound_of ?hl m url hs body]" by metis
  from sent ob have ob: "ob = outbound_of ?hl m url hs body" by simp
  with assms(8) have d: "delivered ?hl (outbound_of ?hl m url hs body) headers" by simp
  have get: "hm_get ?hl headers n = (if n = DATA_PURPOSE \<and> purpose \<noteq> None then purpose
     else if n = CONNECTOR_ID \<and> cc_connector_id config \<noteq> None then cc_connector_id config
     else if n = CONNECTOR_VERSION then Some CARGO_PKG_VERSION else if n = REQUEST_ID then Some ?rid
     else hm_get ?hl (filtered_headers ?hl (rq_headers req) rm) n)" for n
    unfolding delivered_get [OF assms(1) d] by (rule client_headers_get [OF hs assms(1)])
  note f = filtered_headers_get [OF assms(1,2), where h = "rq_headers req" and rm = rm]
  have "request_id ?hl ulid headers = ?rid"
    by (rule request_id_delivered [OF assms(1,3) request_id_valid [OF assms(4)]])
      (use client_private_names request_names in \<open>simp add: get\<close>)
  moreover have "single_data_purpose ?hl headers = Inr (map_option trim purpose)"
    by (rule client_purpose_delivered [OF assms(1-3) purpose hs d assms(5)])
  moreover have "n = CONNECTOR_VERSION \<and> v = CARGO_PKG_VERSION \<or> n = CONNECTOR_ID \<and> cc_connector_id config = Some v"
    if "starts_with n ''x-registry-connector-''" "hm_get ?hl headers n = Some v" for n v
    using that purpose_header_public f(2) [OF that(1)] by (auto simp: get split: if_split_asm)
  moreover have "\<not> rt_allow_forward_authorization (rm_route rm) \<longrightarrow> hm_get ?hl headers ''authorization'' = None"
    "\<not> rt_allow_forward_cookie (rm_route rm) \<longrightarrow> hm_get ?hl headers ''cookie'' = None"
    using f(3,4) by (simp_all add: get DATA_PURPOSE_def CONNECTOR_ID_def CONNECTOR_VERSION_def REQUEST_ID_def)
  moreover from ob have "ob_url ob = url" by (simp add: outbound_of_def)
  ultimately show ?thesis using rm purpose url by blast
qed

theorem client_server_hop_witness:
  "\<exists>ob rm.
      pw_sent (snd (proxy_handler example_platform example_wire example_pdp example_moment
        (proxy_state_client example_client example_mtls) example_local example_world)) = pw_sent example_world @ [ob]
    \<and> find_client_route (pf_decode example_platform) (cc_routes example_client) (rq_method example_local)
        (rq_path example_local) = Inr rm
    \<and> request_id list_headers ''other'' (ob_headers ob) = ''01ARZ''
    \<and> single_data_purpose list_headers (ob_headers ob) = Inr (Some ''research'')
    \<and> (\<forall>n v. starts_with n ''x-registry-connector-'' \<and> hm_get list_headers (ob_headers ob) n = Some v \<longrightarrow>
          n = CONNECTOR_VERSION \<and> v = CARGO_PKG_VERSION)"
proof -
  obtain rsp w' where h: "proxy_handler example_platform example_wire example_pdp example_moment
      (proxy_state_client example_client example_mtls) example_local example_world = (rsp, w')" by fastforce
  from example_local_sent [of example_pdp example_mtls] obtain ob where ob: "pw_sent w' = pw_sent example_world @ [ob]"
    unfolding h snd_conv by blast
  have d: "delivered (pf_headers example_platform) ob (ob_headers ob)"
    by (simp add: delivered_def list_headers_def list_get_all_def case_prod_unfold)
  have laws: "header_map_laws (pf_headers example_platform)" "request_filter_laws (pf_headers example_platform)"
    "header_text_laws (pf_headers example_platform)"
    by (simp_all add: list_headers_map_laws list_headers_filter_laws list_headers_text_laws)
  have valid: "valid_request_id (mo_ulid example_moment)"
    by (simp add: valid_request_id_def example_moment_def rust_eval)
  have vis: "df_data_purpose (cc_defaults example_client) = Some p \<Longrightarrow> visible p" for p
    by (simp add: example_client_fields)
  have id: "request_id list_headers (mo_ulid example_moment) (rq_headers example_local) = ''01ARZ''"
    using example_request_id by (simp add: example_local_def)
  have routed: "find_client_route (pf_decode example_platform) (cc_routes example_client) (rq_method example_local)
      (rq_path example_local) = Inr example_match"
    using example_local_routed by (simp add: example_client_fields example_local_def example_request_def)
  have trimmed: "trim '' research '' = ''research''" by (simp add: rust_eval)
  from client_server_hop [OF laws valid vis h ob d, of "''other''", unfolded routed]
  have "request_id list_headers ''other'' (ob_headers ob) = ''01ARZ''"
    "single_data_purpose list_headers (ob_headers ob) = Inr (Some ''research'')"
    "\<forall>n v. starts_with n ''x-registry-connector-'' \<and> hm_get list_headers (ob_headers ob) n = Some v \<longrightarrow>
          n = CONNECTOR_VERSION \<and> v = CARGO_PKG_VERSION"
    by (auto simp: id trimmed example_client_fields example_local_purpose)
  with ob h routed show ?thesis by (intro exI [of _ ob] exI [of _ example_match] conjI) simp_all
qed

end
